(* ===== verification/Mangos_Prelude.thy ===== *)
theory Mangos_Prelude
  imports Main "HOL-Library.Word"
begin

text \<open>
  The vocabulary the components share: Go's machine types, the errors of errors.go, the
  values that travel through \<^verbatim>\<open>interface{}\<close>, the names of the options, the outcome of
  a piece of Go code (it returns, it blocks, it panics), big-endian integers as
  encoding/binary reads and writes them, and Go's select statement.
\<close>

unbundle bit_operations_syntax

named_theorems option_name "the option names, unfolded to string literals"
named_theorems chan_eff "effects of the channel operations on the heap"
named_theorems msg_eff "effects of the message operations on the heap"

section \<open>Types\<close>

type_synonym byte = "8 word"
type_synonym bytes = "byte list"
type_synonym u16 = "16 word"
type_synonym u32 = "32 word"
type_synonym u64 = "64 word"

text \<open>
  Durations (time.Duration) and instants (time.Time) count nanoseconds. They are \<open>int\<close>;
  the one place where the code multiplies a duration (the dialer) writes the int64
  wrap-around out. The zero time.Time is the \<open>None\<close> of an optional instant.
\<close>

type_synonym dur = int
type_synonym inst = int

text \<open>Objects of the Go heap are named by references: messages, channels, pipes.\<close>

type_synonym mref = nat
type_synonym cref = nat
type_synonym pref = nat

section \<open>Errors (errors.go)\<close>

text \<open>
  One constructor for each error variable; \<open>ErrOS\<close> stands for an error value made outside
  the repository (package net, io, crypto/tls).
\<close>

datatype err =
    ErrBadAddr | ErrBadHeader | ErrBadVersion | ErrTooShort | ErrTooLong | ErrClosed
  | ErrConnRefused | ErrSendTimeout | ErrRecvTimeout | ErrProtoState | ErrProtoOp
  | ErrBadTran | ErrBadProto | ErrPipeFull | ErrPipeEmpty | ErrBadOption | ErrBadValue
  | ErrGarbled | ErrAddrInUse | ErrBadProperty | ErrTLSNoConfig | ErrTLSNoCert
  | ErrOS string

section \<open>Dynamic values and option names (options.go)\<close>

text \<open>
  A value of static type \<^verbatim>\<open>interface{}\<close>: the constructor is the dynamic type that the
  type switches and type assertions of the code inspect. \<open>VInt32\<close> is an \<^verbatim>\<open>int32\<close>, \<open>VTLS\<close> a
  \<^verbatim>\<open>*tls.Config\<close>, possibly nil.
\<close>

datatype goval =
    VBool bool | VInt int | VInt32 int | VDur dur | VBytes bytes | VStr string | VTLS "nat option" | VOther nat

definition OptionRaw :: string where [option_name]: "OptionRaw = ''RAW''"
definition OptionRecvDeadline :: string where [option_name]: "OptionRecvDeadline = ''RECV-DEADLINE''"
definition OptionSendDeadline :: string where [option_name]: "OptionSendDeadline = ''SEND-DEADLINE''"
definition OptionRetryTime :: string where [option_name]: "OptionRetryTime = ''RETRY-TIME''"
definition OptionSubscribe :: string where [option_name]: "OptionSubscribe = ''SUBSCRIBE''"
definition OptionUnsubscribe :: string where [option_name]: "OptionUnsubscribe = ''UNSUBSCRIBE''"
definition OptionSurveyTime :: string where [option_name]: "OptionSurveyTime = ''SURVEY-TIME''"
definition OptionTLSConfig :: string where [option_name]: "OptionTLSConfig = ''TLS-CONFIG''"
definition OptionWriteQLen :: string where [option_name]: "OptionWriteQLen = ''WRITEQ-LEN''"
definition OptionReadQLen :: string where [option_name]: "OptionReadQLen = ''READQ-LEN''"
definition OptionKeepAlive :: string where [option_name]: "OptionKeepAlive = ''KEEPALIVE''"
definition OptionKeepAliveTime :: string where [option_name]: "OptionKeepAliveTime = ''KEEPALIVETIME''"
definition OptionNoDelay :: string where [option_name]: "OptionNoDelay = ''NO-DELAY''"
definition OptionLinger :: string where [option_name]: "OptionLinger = ''LINGER''"
definition OptionTTL :: string where [option_name]: "OptionTTL = ''TTL''"
definition OptionMaxRecvSize :: string where [option_name]: "OptionMaxRecvSize = ''MAX-RCV-SIZE''"
definition OptionReconnectTime :: string where [option_name]: "OptionReconnectTime = ''RECONNECT-TIME''"
definition OptionMaxReconnectTime :: string where [option_name]: "OptionMaxReconnectTime = ''MAX-RECONNECT-TIME''"
definition OptionBestEffort :: string where [option_name]: "OptionBestEffort = ''BEST-EFFORT''"

section \<open>Outcomes of Go code\<close>

text \<open>
  \<open>Ret x\<close>: the code ran and produced \<open>x\<close>. \<open>Block\<close>: the goroutine waits and its step is
  not enabled now. \<open>Panic\<close>: a run-time panic (send on or close of a closed channel, a
  failed one-value type assertion, a negative wait count).
\<close>

datatype 'a run = Ret 'a | Block | Panic

fun run_bind :: "'a run \<Rightarrow> ('a \<Rightarrow> 'b run) \<Rightarrow> 'b run" where
  "run_bind (Ret x) f = f x"
| "run_bind Block f = Block"
| "run_bind Panic f = Panic"

lemma run_bind_Ret_iff: "run_bind r f = Ret y \<longleftrightarrow> (\<exists>x. r = Ret x \<and> f x = Ret y)"
  by (cases r) auto

lemma run_bind_Panic_iff: "run_bind r f = Panic \<longleftrightarrow> r = Panic \<or> (\<exists>x. r = Ret x \<and> f x = Panic)"
  by (cases r) auto

lemma run_bind_Block_iff: "run_bind r f = Block \<longleftrightarrow> r = Block \<or> (\<exists>x. r = Ret x \<and> f x = Block)"
  by (cases r) auto

text \<open>One iteration of a goroutine's loop either goes round again or leaves the goroutine.\<close>

datatype ctl = Loop | Exit

text \<open>
  Runs of a system whose events \<open>step\<close> executes one at a time: the configurations reached
  by any sequence of enabled events.
\<close>

inductive run_reach :: "('e \<Rightarrow> 'c \<Rightarrow> 'c run) \<Rightarrow> 'c \<Rightarrow> 'c \<Rightarrow> bool" for step where
  reach_refl: "run_reach step c c"
| reach_step: "run_reach step c c' \<Longrightarrow> step e c' = Ret c'' \<Longrightarrow> run_reach step c c''"

lemma run_reach_inv:
  assumes "run_reach step c c'" "I c" "\<And>e x y. I x \<Longrightarrow> step e x = Ret y \<Longrightarrow> I y"
  shows "I c'"
  using assms(1,2) by (induction rule: run_reach.induct) (auto intro: assms(3))

text \<open>The same as a function: the outcome of a list of events.\<close>

fun run_events :: "('e \<Rightarrow> 'c \<Rightarrow> 'c run) \<Rightarrow> 'e list \<Rightarrow> 'c \<Rightarrow> 'c run" where
  "run_events step [] c = Ret c"
| "run_events step (e # es) c = run_bind (step e c) (run_events step es)"

lemma run_events_reach:
  "run_events step es c = Ret c' \<Longrightarrow> run_reach step d c \<Longrightarrow> run_reach step d c'"
  by (induction es arbitrary: c) (auto simp: run_bind_Ret_iff intro: run_reach.reach_step)

text \<open>A piece of code that does not panic, and whose result, if it returns, satisfies \<open>I\<close>.\<close>

definition run_keeps :: "('c \<Rightarrow> bool) \<Rightarrow> 'c run \<Rightarrow> bool" where
  "run_keeps I r \<longleftrightarrow> r \<noteq> Panic \<and> (\<forall>x. r = Ret x \<longrightarrow> I x)"

lemma run_keeps_simps [simp]:
  "run_keeps I (Ret x) \<longleftrightarrow> I x" "run_keeps I Block" "\<not> run_keeps I Panic"
  by (simp_all add: run_keeps_def)

lemma run_keeps_bind:
  "run_keeps I r \<Longrightarrow> (\<And>x. I x \<Longrightarrow> run_keeps J (f x)) \<Longrightarrow> run_keeps J (run_bind r f)"
  by (cases r) auto

lemma run_keeps_mono: "run_keeps I r \<Longrightarrow> (\<And>x. I x \<Longrightarrow> J x) \<Longrightarrow> run_keeps J r"
  by (auto simp: run_keeps_def)

text \<open>Steps that keep \<open>I\<close> never panic from a reachable configuration.\<close>

lemma run_keeps_reach:
  assumes "\<And>e c. I c \<Longrightarrow> run_keeps I (step e c)" "run_reach step c c'" "I c"
  shows "I c'" and "step e c' \<noteq> Panic"
proof -
  show "I c'"
    using assms(2,3) by (rule run_reach_inv) (use assms(1) in \<open>fastforce simp: run_keeps_def\<close>)
  with assms(1) show "step e c' \<noteq> Panic" by (auto simp: run_keeps_def)
qed

text \<open>The same for a sequence of events.\<close>

lemma run_keeps_events:
  assumes "\<And>e c. I c \<Longrightarrow> run_keeps I (step e c)" "I c"
  shows "run_keeps I (run_events step es c)"
  using assms(2)
proof (induction es arbitrary: c)
  case Nil
  then show ?case by simp
next
  case (Cons e es)
  have "run_keeps I (step e c)" using assms(1) [OF Cons.prems] .
  with Cons.IH show ?case unfolding run_events.simps by (auto intro: run_keeps_bind)
qed

text \<open>
  Go's select over communication arms. Each arm comes with whether it is ready. A ready arm
  is taken, any one of them (\<open>pick\<close> is the run-time's choice); with none ready the default
  arm is taken, and without a default the goroutine blocks (\<open>None\<close>).
\<close>

definition go_select :: "('a \<times> bool) list \<Rightarrow> 'a option \<Rightarrow> 'a \<Rightarrow> 'a option" where
  "go_select arms dflt pick =
     (let rd = map fst (filter snd arms)
      in if rd = [] then dflt else if pick \<in> set rd then Some pick else Some (hd rd))"

lemma go_select_ready:
  assumes "go_select arms dflt pick = Some a" "dflt \<noteq> Some a"
  shows "(a, True) \<in> set arms"
proof -
  let ?rd = "map fst (filter snd arms)"
  have "?rd \<noteq> []" and "a = pick \<and> pick \<in> set ?rd \<or> a = hd ?rd"
    using assms by (auto simp: go_select_def Let_def split: if_splits)
  then have "a \<in> set ?rd" using hd_in_set [of ?rd] by metis
  then show ?thesis by force
qed

lemma go_select_none: "(\<And>x. x \<in> set arms \<Longrightarrow> \<not> snd x) \<Longrightarrow> go_select arms dflt pick = dflt"
  by (auto simp: go_select_def Let_def filter_empty_conv)

section \<open>Big-endian integers (encoding/binary)\<close>

definition be32 :: "u32 \<Rightarrow> bytes" where
  "be32 v = [ucast (drop_bit 24 v), ucast (drop_bit 16 v), ucast (drop_bit 8 v), ucast v]"

text \<open>\<open>binary.BigEndian.Uint32\<close> reads the first four bytes and panics on a shorter slice.\<close>

fun be_Uint32 :: "bytes \<Rightarrow> u32 option" where
  "be_Uint32 (a # b # c # d # rest) =
     Some (push_bit 24 (ucast a) OR push_bit 16 (ucast b) OR push_bit 8 (ucast c) OR ucast d)"
| "be_Uint32 _ = None"

lemma length_be32 [simp]: "length (be32 v) = 4"
  by (simp add: be32_def)

lemma be32_not_Nil [simp]: "be32 v \<noteq> []"
  by (simp add: be32_def)

lemmas be32_bits = bit_or_iff bit_push_bit_iff bit_ucast_iff bit_drop_bit_eq possible_bit_word

lemma be32_join:
  "push_bit 24 (ucast (ucast (drop_bit 24 v) :: byte)) OR
   push_bit 16 (ucast (ucast (drop_bit 16 v) :: byte)) OR
   push_bit 8 (ucast (ucast (drop_bit 8 v) :: byte)) OR
   ucast (ucast v :: byte) = (v :: u32)"
proof (rule bit_word_eqI)
  fix n
  assume "n < LENGTH(32)"
  then have "n < 8 \<or> (8 \<le> n \<and> n < 16) \<or> (16 \<le> n \<and> n < 24) \<or> (24 \<le> n \<and> n < 32)" by auto
  then show "bit (push_bit 24 (ucast (ucast (drop_bit 24 v) :: byte)) OR
   push_bit 16 (ucast (ucast (drop_bit 16 v) :: byte)) OR
   push_bit 8 (ucast (ucast (drop_bit 8 v) :: byte)) OR
   ucast (ucast v :: byte) :: u32) n = bit v n"
    by (elim disjE) (auto simp: be32_bits)
qed

lemma be_Uint32_be32 [simp]: "be_Uint32 (be32 v @ xs) = Some v"
  by (simp add: be32_def be32_join)

lemma be_Uint32_None_iff: "be_Uint32 xs = None \<longleftrightarrow> length xs < 4"
  by (cases xs rule: be_Uint32.cases) auto

lemma be32_split:
  assumes "4 \<le> length xs"
  shows "\<exists>v. take 4 xs = be32 v \<and> be_Uint32 xs = Some v"
proof -
  from assms obtain a b c d r where xs: "xs = a # b # c # d # r"
    by (cases xs rule: be_Uint32.cases) auto
  define v :: u32 where "v = push_bit 24 (ucast a) OR push_bit 16 (ucast b) OR push_bit 8 (ucast c) OR ucast d"
  have "ucast (drop_bit 24 v) = a" "ucast (drop_bit 16 v) = b"
       "ucast (drop_bit 8 v) = c" "ucast v = d"
    unfolding v_def by (rule bit_word_eqI; auto simp: be32_bits dest: bit_imp_le_length)+
  with xs show ?thesis by (auto simp: be32_def v_def)
qed

lemma be32_inj [simp]: "be32 v = be32 w \<longleftrightarrow> v = w"
  by (metis be_Uint32_be32 option.inject)

text \<open>The 16-bit and the 64-bit integers of the wire format.\<close>

definition be16 :: "u16 \<Rightarrow> bytes" where
  "be16 v = [ucast (drop_bit 8 v), ucast v]"

fun be_Uint16 :: "bytes \<Rightarrow> u16 option" where
  "be_Uint16 (a # b # rest) = Some (push_bit 8 (ucast a) OR ucast b)"
| "be_Uint16 _ = None"

definition be64 :: "u64 \<Rightarrow> bytes" where
  "be64 v = be32 (ucast (drop_bit 32 v)) @ be32 (ucast v)"

definition be_Uint64 :: "bytes \<Rightarrow> u64 option" where
  "be_Uint64 xs = (case (be_Uint32 xs, be_Uint32 (drop 4 xs)) of
     (Some hi, Some lo) \<Rightarrow> Some (push_bit 32 (ucast hi) OR ucast lo) | _ \<Rightarrow> None)"

lemma length_be16 [simp]: "length (be16 v) = 2"
  by (simp add: be16_def)

lemma length_be64 [simp]: "length (be64 v) = 8"
  by (simp add: be64_def)

lemma be16_join: "push_bit 8 (ucast (ucast (drop_bit 8 v) :: byte)) OR ucast (ucast v :: byte) = (v :: u16)"
proof (rule bit_word_eqI)
  fix n
  assume "n < LENGTH(16)"
  then have "n < 8 \<or> (8 \<le> n \<and> n < 16)" by auto
  then show "bit (push_bit 8 (ucast (ucast (drop_bit 8 v) :: byte)) OR ucast (ucast v :: byte) :: u16) n = bit v n"
    by (elim disjE) (auto simp: be32_bits)
qed

lemma be_Uint16_be16 [simp]: "be_Uint16 (be16 v @ xs) = Some v"
  by (simp add: be16_def be16_join)

lemma be64_join: "push_bit 32 (ucast (ucast (drop_bit 32 v) :: u32)) OR ucast (ucast v :: u32) = (v :: u64)"
proof (rule bit_word_eqI)
  fix n
  assume "n < LENGTH(64)"
  then have "n < 32 \<or> (32 \<le> n \<and> n < 64)" by auto
  then show "bit (push_bit 32 (ucast (ucast (drop_bit 32 v) :: u32)) OR ucast (ucast v :: u32) :: u64) n = bit v n"
    by (elim disjE) (auto simp: be32_bits)
qed

lemma be_Uint64_be64 [simp]: "be_Uint64 (be64 v @ xs) = Some v"
  by (simp add: be64_def be_Uint64_def be64_join)

text \<open>The high-order bit of a 32-bit header word, as the receivers test it (\<open>b \<and> 0x80\<close>).\<close>

definition hibit :: "u32 \<Rightarrow> bool" where
  "hibit v = bit v 31"

lemma byte_and_0x80: "((b :: byte) AND 0x80 \<noteq> 0) = bit b 7"
proof -
  have m: "bit (0x80 :: byte) n \<longleftrightarrow> n = 7" for n
    using bit_exp_iff [of 7 n, where ?'a = "8 word"] by auto
  have "b AND 0x80 = 0 \<longleftrightarrow> (\<forall>n. \<not> bit (b AND 0x80) n)"
    using bit_eqI [of "b AND 0x80" 0] by auto
  then have "b AND 0x80 = 0 \<longleftrightarrow> (\<forall>n. \<not> (bit b n \<and> n = 7))"
    by (simp only: bit_and_iff m)
  then show ?thesis by auto
qed

lemma be32_hibit: "(hd (be32 v) AND 0x80 \<noteq> 0) = hibit v"
  by (simp add: byte_and_0x80 be32_def hibit_def bit_simps)

section \<open>Identifiers with the high bit set\<close>

text \<open>
  Request and survey identifiers are a counter with the high-order bit forced to one; two
  of them are equal only when the counter went round 31 bits.
\<close>

definition mark_id :: "u32 \<Rightarrow> u32" where
  "mark_id v = v OR 0x80000000"

lemma bit_0x80000000: "bit (0x80000000 :: u32) n \<longleftrightarrow> n = 31"
  using bit_exp_iff [of 31 n, where ?'a = "32 word"] by auto

lemma hibit_mark [simp]: "hibit (mark_id v)"
  by (simp add: hibit_def mark_id_def bit_or_iff bit_0x80000000)

lemma mark_id_eq: "mark_id v = mark_id w \<longleftrightarrow> take_bit 31 v = take_bit 31 w"
proof
  assume "mark_id v = mark_id w"
  then have "bit (mark_id v) n = bit (mark_id w) n" for n by simp
  then have "n < 31 \<Longrightarrow> bit v n = bit w n" for n
    unfolding mark_id_def bit_or_iff bit_0x80000000 by (metis less_irrefl)
  then show "take_bit 31 v = take_bit 31 w" 
    by (intro bit_word_eqI) (auto simp: bit_take_bit_iff)
next
  assume "take_bit 31 v = take_bit 31 w"
  then have "bit (take_bit 31 v) n = bit (take_bit 31 w) n" for n by simp
  then have "n < 31 \<Longrightarrow> bit v n = bit w n" for n by (auto simp: bit_take_bit_iff)
  then show "mark_id v = mark_id w"
  proof (intro bit_word_eqI)
    fix k assume "k < LENGTH(32)" and lo: "\<And>n. n < 31 \<Longrightarrow> bit v n = bit w n"
    then have "k < 31 \<or> k = 31" by auto
    with lo [of k] show "bit (mark_id v) k = bit (mark_id w) k"
      unfolding mark_id_def bit_or_iff bit_0x80000000 by auto
  qed
qed

lemma add_mod_inj_le:
  assumes "(a + j) mod M = (a + k) mod (M :: nat)" "j \<le> k" "k < M"
  shows "j = k"
proof -
  have "M dvd (a + k) - (a + j)"
    using mod_eq_dvd_iff_nat [of "a + j" "a + k" M] assms(1,2) by simp
  then have "M dvd k - j" by simp
  then show ?thesis using assms(2,3) nat_dvd_not_less [of "k - j" M] by (cases "j = k") auto
qed

lemma add_mod_inj: "(a + j) mod M = (a + k) mod (M :: nat) \<Longrightarrow> j < M \<Longrightarrow> k < M \<Longrightarrow> j = k"
  using add_mod_inj_le [of a j M k] add_mod_inj_le [of a k M j] by (cases "j \<le> k") auto

lemma mark_id_distinct:
  assumes "mark_id (n + of_nat j) = mark_id (n + of_nat k)" "j < 2 ^ 31" "k < 2 ^ 31"
  shows "j = k"
proof -
  have "take_bit 31 (n + of_nat j) = take_bit 31 (n + of_nat k :: u32)"
    using assms(1) by (simp add: mark_id_eq)
  then have "take_bit 31 (unat (n + of_nat j)) = take_bit 31 (unat (n + of_nat k))"
    using arg_cong [where f = unat] by (simp only: unsigned_take_bit_eq [symmetric])
  then have "unat (n + of_nat j) mod 2 ^ 31 = unat (n + of_nat k) mod 2 ^ 31"
    by (simp only: take_bit_eq_mod)
  moreover have "unat (n + of_nat i) mod 2 ^ 31 = (unat n + i) mod 2 ^ 31" if "i < 2 ^ 31" for i
  proof -
    have "unat (n + of_nat i) = (unat n + i) mod 2 ^ 32"
      using that by (simp add: unat_word_ariths(1) unat_of_nat mod_simps)
    also have "\<dots> mod 2 ^ 31 = (unat n + i) mod 2 ^ 31"
      by (rule mod_mod_cancel) simp
    finally show ?thesis .
  qed
  ultimately have "(unat n + j) mod 2 ^ 31 = (unat n + k) mod 2 ^ 31" using assms(2,3) by simp
  then show ?thesis using assms(2,3) by (rule add_mod_inj)
qed

end
