(* ===== verification/Chan.thy ===== *)
theory Chan
  imports Mangos_Prelude "HOL-Library.Sublist"
begin

text \<open>
  Go channels. A channel is its buffer, its capacity, whether it was closed, and how many
  goroutines are blocked receiving from it: a send to an unbuffered channel can proceed
  exactly when a receiver waits, and then hands the value over directly. The interface the
  protocols rely on is the locale \<open>fifo\<close>, interpreted on the channel operations.
\<close>

section \<open>State and operations\<close>

record 'a chan =
  cbuf :: "'a list"
  ccap :: nat
  cclosed :: bool
  crxwait :: nat

definition make_chan :: "nat \<Rightarrow> 'a chan" where
  "make_chan n = \<lparr>cbuf = [], ccap = n, cclosed = False, crxwait = 0\<rparr>"

definition chan_room :: "'a chan \<Rightarrow> bool" where
  "chan_room c \<longleftrightarrow> length (cbuf c) < ccap c + crxwait c"

definition chan_push :: "'a \<Rightarrow> 'a chan \<Rightarrow> 'a chan" where
  "chan_push x c = c\<lparr>cbuf := cbuf c @ [x]\<rparr>"

text \<open>A send on a closed channel panics; on an open channel without room it blocks.\<close>

definition chan_send :: "'a \<Rightarrow> 'a chan \<Rightarrow> 'a chan run" where
  "chan_send x c = (if cclosed c then Panic else if chan_room c then Ret (chan_push x c) else Block)"

text \<open>In a select, the send arm is ready when the send would not block (it may panic).\<close>

definition chan_send_ready :: "'a chan \<Rightarrow> bool" where
  "chan_send_ready c \<longleftrightarrow> cclosed c \<or> chan_room c"

text \<open>
  A receive takes the oldest value; on a drained closed channel it yields the zero value
  (\<open>None\<close>). A receiver that was blocked is not blocked any more.
\<close>

definition chan_pop :: "'a chan \<Rightarrow> 'a chan" where
  "chan_pop c = c\<lparr>cbuf := tl (cbuf c), crxwait := crxwait c - 1\<rparr>"

definition chan_recv :: "'a chan \<Rightarrow> ('a option \<times> 'a chan) run" where
  "chan_recv c = (case cbuf c of
       x # xs \<Rightarrow> Ret (Some x, chan_pop c)
     | [] \<Rightarrow> if cclosed c then Ret (None, c) else Block)"

definition chan_recv_ready :: "'a chan \<Rightarrow> bool" where
  "chan_recv_ready c \<longleftrightarrow> cbuf c \<noteq> [] \<or> cclosed c"

text \<open>A goroutine that finds an open channel empty goes to sleep on it.\<close>

definition chan_sleep :: "'a chan \<Rightarrow> 'a chan" where
  "chan_sleep c = c\<lparr>crxwait := Suc (crxwait c)\<rparr>"

text \<open>Closing wakes every blocked receiver; closing twice panics.\<close>

definition chan_close :: "'a chan \<Rightarrow> 'a chan run" where
  "chan_close c = (if cclosed c then Panic else Ret (c\<lparr>cclosed := True, crxwait := 0\<rparr>))"

section \<open>Basic facts\<close>

lemma make_chan_simps [simp]:
  "cbuf (make_chan n) = []" "ccap (make_chan n) = n"
  "\<not> cclosed (make_chan n)" "crxwait (make_chan n) = 0"
  "chan_room (make_chan n) \<longleftrightarrow> 0 < n"
  by (auto simp: make_chan_def chan_room_def)

lemma chan_push_simps [simp]:
  "cbuf (chan_push x c) = cbuf c @ [x]" "ccap (chan_push x c) = ccap c"
  "cclosed (chan_push x c) = cclosed c" "crxwait (chan_push x c) = crxwait c"
  by (simp_all add: chan_push_def)

lemma chan_pop_simps [simp]:
  "cbuf (chan_pop c) = tl (cbuf c)" "ccap (chan_pop c) = ccap c"
  "cclosed (chan_pop c) = cclosed c" "crxwait (chan_pop c) = crxwait c - 1"
  by (simp_all add: chan_pop_def)

lemma chan_send_Ret: "chan_send x c = Ret c' \<longleftrightarrow> \<not> cclosed c \<and> chan_room c \<and> c' = chan_push x c"
  by (auto simp: chan_send_def)

lemma chan_send_Panic: "chan_send x c = Panic \<longleftrightarrow> cclosed c"
  by (auto simp: chan_send_def)

lemma chan_send_ready_iff: "chan_send_ready c \<longleftrightarrow> chan_send x c \<noteq> Block"
  by (auto simp: chan_send_ready_def chan_send_def)

lemma chan_recv_Ret_Some:
  "chan_recv c = Ret (Some x, c') \<longleftrightarrow> cbuf c \<noteq> [] \<and> x = hd (cbuf c) \<and> c' = chan_pop c"
  by (auto simp: chan_recv_def split: list.splits)

lemma chan_recv_Ret_None: "chan_recv c = Ret (None, c') \<longleftrightarrow> cbuf c = [] \<and> cclosed c \<and> c' = c"
  by (auto simp: chan_recv_def split: list.splits)

lemma chan_recv_not_Panic [simp]: "chan_recv c \<noteq> Panic"
  by (auto simp: chan_recv_def split: list.splits)

lemma chan_recv_ready_iff: "chan_recv_ready c \<longleftrightarrow> chan_recv c \<noteq> Block"
  by (auto simp: chan_recv_ready_def chan_recv_def split: list.splits)

lemma chan_close_Ret: "chan_close c = Ret c' \<longleftrightarrow> \<not> cclosed c \<and> c' = c\<lparr>cclosed := True, crxwait := 0\<rparr>"
  by (auto simp: chan_close_def)

lemma chan_close_Panic: "chan_close c = Panic \<longleftrightarrow> cclosed c"
  by (simp add: chan_close_def)

section \<open>The interface: a bounded first-in first-out queue\<close>

text \<open>
  Offers in sequence, each one dropped when there is no room: what
  \<^verbatim>\<open>select { case q <- m: default: }\<close> does to a queue nobody reads meanwhile.
\<close>

fun offers :: "('q \<Rightarrow> bool) \<Rightarrow> ('a \<Rightarrow> 'q \<Rightarrow> 'q) \<Rightarrow> 'a list \<Rightarrow> 'q \<Rightarrow> 'q" where
  "offers room put [] q = q"
| "offers room put (x # xs) q = offers room put xs (if room q then put x q else q)"

text \<open>Taking until \<open>n\<close> values came out or the queue is empty.\<close>

fun takes :: "('q \<Rightarrow> 'a list) \<Rightarrow> ('q \<Rightarrow> 'q) \<Rightarrow> nat \<Rightarrow> 'q \<Rightarrow> 'a list \<times> 'q" where
  "takes content pop 0 q = ([], q)"
| "takes content pop (Suc n) q =
     (case content q of
        [] \<Rightarrow> ([], q)
      | x # _ \<Rightarrow> (let (ys, q') = takes content pop n (pop q) in (x # ys, q')))"

locale fifo =
  fixes content :: "'q \<Rightarrow> 'a list"
    and room :: "'q \<Rightarrow> bool"
    and put :: "'a \<Rightarrow> 'q \<Rightarrow> 'q"
    and pop :: "'q \<Rightarrow> 'q"
  assumes content_put: "content (put x q) = content q @ [x]"
    and content_pop: "content (pop q) = tl (content q)"
begin

lemma content_offers:
  "\<exists>ys. content (offers room put xs q) = content q @ ys \<and> subseq ys xs"
proof (induction xs arbitrary: q)
  case Nil
  show ?case by simp
next
  case (Cons x xs)
  show ?case
  proof (cases "room q")
    case True
    obtain ys where "content (offers room put xs (put x q)) = content (put x q) @ ys" "subseq ys xs"
      using Cons.IH by blast
    with True show ?thesis by (intro exI [of _ "x # ys"]) (simp add: content_put)
  next
    case False
    obtain ys where "content (offers room put xs q) = content q @ ys" "subseq ys xs"
      using Cons.IH by blast
    with False show ?thesis by (intro exI [of _ ys]) (simp add: list_emb_Cons)
  qed
qed

lemma takes_content: "fst (takes content pop n q) = take n (content q)"
proof (induction n arbitrary: q)
  case 0
  show ?case by simp
next
  case (Suc n)
  show ?case
  proof (cases "content q")
    case Nil
    then show ?thesis by simp
  next
    case (Cons x xs)
    with Suc.IH [of "pop q"] show ?thesis
      by (simp add: content_pop case_prod_beta Let_def)
  qed
qed

lemma content_takes: "content (snd (takes content pop n q)) = drop n (content q)"
proof (induction n arbitrary: q)
  case 0
  show ?case by simp
next
  case (Suc n)
  show ?case
  proof (cases "content q")
    case Nil
    then show ?thesis by simp
  next
    case (Cons x xs)
    with Suc.IH [of "pop q"] show ?thesis
      by (simp add: content_pop case_prod_beta Let_def)
  qed
qed

text \<open>
  What a reader sees of a writer that offers: a part of what was offered, in the order it
  was offered, after what was already queued. Messages are dropped, never reordered or
  duplicated.
\<close>

lemma reader_sees_subseq:
  "\<exists>ys. fst (takes content pop n (offers room put xs q)) = take n (content q @ ys) \<and> subseq ys xs"
  using content_offers [of xs q] takes_content by metis

end

interpretation chq: fifo cbuf chan_room chan_push chan_pop
  by unfold_locales simp_all

text \<open>The capacity bound of a channel: the buffer never holds more than there was room for.\<close>

definition chan_ok :: "'a chan \<Rightarrow> bool" where
  "chan_ok c \<longleftrightarrow> length (cbuf c) \<le> ccap c + crxwait c"

lemma chan_ok_make [simp]: "chan_ok (make_chan n)"
  by (simp add: chan_ok_def)

lemma chan_ok_send: "chan_ok c \<Longrightarrow> chan_send x c = Ret c' \<Longrightarrow> chan_ok c'"
  by (auto simp: chan_send_Ret chan_ok_def chan_room_def)

lemma chan_ok_recv: "chan_ok c \<Longrightarrow> chan_recv c = Ret (r, c') \<Longrightarrow> chan_ok c'"
  by (auto simp: chan_recv_def chan_ok_def split: list.splits if_splits)

lemma chan_ok_sleep: "chan_ok c \<Longrightarrow> chan_ok (chan_sleep c)"
  by (simp add: chan_ok_def chan_sleep_def)

end
