(* ===== verification/Go_Heap.thy ===== *)
theory Go_Heap
  imports Chan
begin

text \<open>
  The part of the Go heap the model tracks: messages (message.go), channels and pipes
  (pipe.go), each reached through a reference, and the goroutines started so far. Every
  state record of the development extends \<open>heap\<close>.
\<close>

section \<open>State\<close>

text \<open>
  \<^verbatim>\<open>type Message\<close>. \<open>hdr = None\<close> is a nil Header slice, which \<^verbatim>\<open>rep.SendHook\<close> tells
  from an empty one. The private buffers \<^verbatim>\<open>bbuf\<close> and \<^verbatim>\<open>hbuf\<close> are always empty slices;
  what matters of them is the capacity of \<^verbatim>\<open>bbuf\<close>, which is \<open>bsize\<close>.
\<close>

record message =
  hdr :: "bytes option"
  body :: bytes
  port :: "pref option"
  bsize :: nat
  refcnt :: int
  expire :: "inst option"

text \<open>
  \<^verbatim>\<open>type pipe\<close>, with the state of the transport's \<^verbatim>\<open>Pipe\<close> under it (\<open>p_open\<close>,
  \<^verbatim>\<open>IsOpen()\<close>). The endpoint handed to a protocol is the pipe itself.
\<close>

record pipe =
  p_id :: u32
  p_closing :: bool
  p_closeq :: bool
  p_listener :: "nat option"
  p_dialer :: "nat option"
  p_sock :: bool
  p_open :: bool

text \<open>The goroutines the code starts with \<^verbatim>\<open>go\<close>, and the one each belongs to.\<close>

datatype goroutine =
    GSender | GReceiver pref | GPeerSender cref | GPipeSender pref | GNullRecv pref
  | GResender | GDialer nat | GServe nat | GForward nat nat

record heap =
  msgs :: "mref \<Rightarrow> message"
  nextm :: mref
  mpool :: "mref list"
  chans :: "cref \<Rightarrow> mref chan"
  nextc :: cref
  ptab :: "pref \<Rightarrow> pipe"
  nextp :: pref
  byid :: "u32 \<rightharpoonup> pref"
  nextid :: u32
  gos :: "goroutine list"

definition hdr_bytes :: "message \<Rightarrow> bytes" where
  "hdr_bytes m = (case hdr m of None \<Rightarrow> [] | Some b \<Rightarrow> b)"

text \<open>\<^verbatim>\<open>append(s, b...)\<close> on a possibly nil slice: appending nothing to nil gives nil.\<close>

definition slice_append :: "bytes option \<Rightarrow> bytes \<Rightarrow> bytes option" where
  "slice_append s b = (case s of None \<Rightarrow> if b = [] then None else Some b | Some a \<Rightarrow> Some (a @ b))"

definition slice_bytes :: "bytes option \<Rightarrow> bytes" where
  "slice_bytes s = (case s of None \<Rightarrow> [] | Some b \<Rightarrow> b)"

lemma slice_simps [simp]:
  "slice_bytes None = []" "slice_bytes (Some b) = b"
  "slice_bytes (slice_append s b) = slice_bytes s @ b"
  "slice_append (Some a) b = Some (a @ b)"
  by (auto simp: slice_bytes_def slice_append_def split: option.splits)

lemma hdr_bytes_slice: "hdr_bytes m = slice_bytes (hdr m)"
  by (simp add: hdr_bytes_def slice_bytes_def)

section \<open>Messages: reading and writing through a reference\<close>

definition upd_msg :: "mref \<Rightarrow> (message \<Rightarrow> message) \<Rightarrow> 'a heap_scheme \<Rightarrow> 'a heap_scheme" where
  [msg_eff]: "upd_msg r f s = s\<lparr>msgs := (msgs s)(r := f (msgs s r))\<rparr>"

definition set_hdr :: "mref \<Rightarrow> bytes option \<Rightarrow> 'a heap_scheme \<Rightarrow> 'a heap_scheme" where
  [msg_eff]: "set_hdr r h s = s\<lparr>msgs := (msgs s)(r := (msgs s r)\<lparr>hdr := h\<rparr>)\<rparr>"

definition set_body :: "mref \<Rightarrow> bytes \<Rightarrow> 'a heap_scheme \<Rightarrow> 'a heap_scheme" where
  [msg_eff]: "set_body r b s = s\<lparr>msgs := (msgs s)(r := (msgs s r)\<lparr>body := b\<rparr>)\<rparr>"

text \<open>\<^verbatim>\<open>m.Header = append(m.Header, b...)\<close>\<close>

definition append_hdr :: "mref \<Rightarrow> bytes \<Rightarrow> 'a heap_scheme \<Rightarrow> 'a heap_scheme" where
  "append_hdr r b s = set_hdr r (slice_append (hdr (msgs s r)) b) s"

text \<open>\<^verbatim>\<open>m.Header = append(m.Header, m.Body[:4]...); m.Body = m.Body[4:]\<close>\<close>

definition move4 :: "mref \<Rightarrow> 'a heap_scheme \<Rightarrow> 'a heap_scheme" where
  "move4 r s = set_body r (drop 4 (body (msgs s r))) (append_hdr r (take 4 (body (msgs s r))) s)"

text \<open>\<^verbatim>\<open>m.Header = m.Header[4:]\<close> (guarded by a length test at every use)\<close>

definition drop_hdr4 :: "mref \<Rightarrow> 'a heap_scheme \<Rightarrow> 'a heap_scheme" where
  "drop_hdr4 r s = set_hdr r (Some (drop 4 (hdr_bytes (msgs s r)))) s"

text \<open>
  The effect equations: each operation is one update of the message store, so the record
  simplifier reads any other field of any extension of \<open>heap\<close> through it.
\<close>

lemma append_hdr_eff [msg_eff]:
  "append_hdr r b s =
     s\<lparr>msgs := (msgs s)(r := (msgs s r)\<lparr>hdr := slice_append (hdr (msgs s r)) b\<rparr>)\<rparr>"
  by (simp add: append_hdr_def set_hdr_def)

lemma move4_eff [msg_eff]:
  "move4 r s =
     s\<lparr>msgs := (msgs s)(r := (msgs s r)\<lparr>hdr := slice_append (hdr (msgs s r)) (take 4 (body (msgs s r))),
                                      body := drop 4 (body (msgs s r))\<rparr>)\<rparr>"
  by (simp add: move4_def append_hdr_eff set_body_def)

lemma drop_hdr4_eff [msg_eff]:
  "drop_hdr4 r s = s\<lparr>msgs := (msgs s)(r := (msgs s r)\<lparr>hdr := Some (drop 4 (hdr_bytes (msgs s r)))\<rparr>)\<rparr>"
  by (simp add: drop_hdr4_def set_hdr_def)

definition spawn :: "goroutine \<Rightarrow> 'a heap_scheme \<Rightarrow> 'a heap_scheme" where
  [msg_eff]: "spawn g s = s\<lparr>gos := gos s @ [g]\<rparr>"

section \<open>Channels through a reference\<close>

definition upd_chan :: "cref \<Rightarrow> mref chan \<Rightarrow> 'a heap_scheme \<Rightarrow> 'a heap_scheme" where
  [chan_eff]: "upd_chan q c s = s\<lparr>chans := (chans s)(q := c)\<rparr>"

definition new_chan :: "nat \<Rightarrow> 'a heap_scheme \<Rightarrow> cref \<times> 'a heap_scheme" where
  [chan_eff]: "new_chan n s = (nextc s, s\<lparr>chans := (chans s)(nextc s := make_chan n), nextc := Suc (nextc s)\<rparr>)"

definition ch_send :: "cref \<Rightarrow> mref \<Rightarrow> 'a heap_scheme \<Rightarrow> 'a heap_scheme run" where
  "ch_send q m s = run_bind (chan_send m (chans s q)) (\<lambda>c. Ret (upd_chan q c s))"

definition ch_recv :: "cref \<Rightarrow> 'a heap_scheme \<Rightarrow> (mref option \<times> 'a heap_scheme) run" where
  "ch_recv q s = run_bind (chan_recv (chans s q)) (\<lambda>(x, c). Ret (x, upd_chan q c s))"

definition ch_close :: "cref \<Rightarrow> 'a heap_scheme \<Rightarrow> 'a heap_scheme run" where
  "ch_close q s = run_bind (chan_close (chans s q)) (\<lambda>c. Ret (upd_chan q c s))"

definition send_ready :: "cref \<Rightarrow> 'a heap_scheme \<Rightarrow> bool" where
  "send_ready q s = chan_send_ready (chans s q)"

definition recv_ready :: "cref \<Rightarrow> 'a heap_scheme \<Rightarrow> bool" where
  "recv_ready q s = chan_recv_ready (chans s q)"

text \<open>The effect of a successful send and of a close on the heap.\<close>

definition push_on :: "cref \<Rightarrow> mref \<Rightarrow> 'a heap_scheme \<Rightarrow> 'a heap_scheme" where
  [chan_eff]: "push_on q m s = s\<lparr>chans := (chans s)(q := chan_push m (chans s q))\<rparr>"

definition pop_on :: "cref \<Rightarrow> 'a heap_scheme \<Rightarrow> 'a heap_scheme" where
  [chan_eff]: "pop_on q s = s\<lparr>chans := (chans s)(q := chan_pop (chans s q))\<rparr>"

definition close_on :: "cref \<Rightarrow> 'a heap_scheme \<Rightarrow> 'a heap_scheme" where
  [chan_eff]: "close_on q s = s\<lparr>chans := (chans s)(q := (chans s q)\<lparr>cclosed := True, crxwait := 0\<rparr>)\<rparr>"

lemma ch_send_cases:
  "ch_send q m s =
     (if cclosed (chans s q) then Panic
      else if chan_room (chans s q) then Ret (push_on q m s) else Block)"
  by (simp add: ch_send_def chan_send_def push_on_def upd_chan_def)

lemma ch_close_cases:
  "ch_close q s = (if cclosed (chans s q) then Panic else Ret (close_on q s))"
  by (simp add: ch_close_def chan_close_def close_on_def upd_chan_def)

lemma ch_recv_cases:
  "ch_recv q s =
     (case cbuf (chans s q) of
        x # xs \<Rightarrow> Ret (Some x, pop_on q s)
      | [] \<Rightarrow> if cclosed (chans s q) then Ret (None, s) else Block)"
  by (auto simp: ch_recv_def chan_recv_def upd_chan_def pop_on_def split: list.splits)

lemma send_ready_iff:
  "send_ready q s \<longleftrightarrow> cclosed (chans s q) \<or> chan_room (chans s q)"
  by (simp add: send_ready_def chan_send_ready_def)

lemma recv_ready_iff:
  "recv_ready q s \<longleftrightarrow> cbuf (chans s q) \<noteq> [] \<or> cclosed (chans s q)"
  by (simp add: recv_ready_def chan_recv_ready_def)

lemma ch_recv_ready: "recv_ready q s \<Longrightarrow> ch_recv q s \<noteq> Block"
  by (auto simp: ch_recv_cases recv_ready_iff split: list.splits)

lemmas chan_cases = ch_send_cases ch_close_cases ch_recv_cases send_ready_iff recv_ready_iff

end
