(* ===== verification/Message.thy ===== *)
theory Message
  imports Go_Heap
begin

text \<open>
  message.go: messages with a reference count, and the cache of free messages by body size.
  The cache is one list of references; a message belongs to the \<^verbatim>\<open>sync.Pool\<close> of its
  \<open>bsize\<close>. Which message a pool hands out is the run-time's choice (\<open>pick\<close>), and it may
  always make a new one.
\<close>

section \<open>Operations\<close>

definition messageCache :: "nat list" where
  "messageCache = [64, 128, 256, 512, 1024, 4096, 8192, 65536]"

definition newMsg :: "nat \<Rightarrow> message" where
  "newMsg sz = \<lparr>hdr = None, body = [], port = None, bsize = sz, refcnt = 0, expire = None\<rparr>"

definition alloc_msg :: "message \<Rightarrow> 'a heap_scheme \<Rightarrow> mref \<times> 'a heap_scheme" where
  "alloc_msg m s = (nextm s, s\<lparr>msgs := (msgs s)(nextm s := m), nextm := Suc (nextm s)\<rparr>)"

text \<open>\<^verbatim>\<open>pool.Get()\<close> on the pool of size class \<open>mb\<close>\<close>

definition pool_get :: "mref \<Rightarrow> nat \<Rightarrow> 'a heap_scheme \<Rightarrow> mref \<times> 'a heap_scheme" where
  "pool_get pick mb s =
     (if pick \<in> set (mpool s) \<and> bsize (msgs s pick) = mb
      then (pick, s\<lparr>mpool := remove1 pick (mpool s)\<rparr>)
      else alloc_msg (newMsg mb) s)"

definition msg_class :: "nat \<Rightarrow> nat option" where
  "msg_class sz = find (\<lambda>mb. sz < mb) messageCache"

definition NewMessage :: "mref \<Rightarrow> nat \<Rightarrow> 'a heap_scheme \<Rightarrow> mref \<times> 'a heap_scheme" where
  "NewMessage pick sz s =
     (let (r, s1) = (case msg_class sz of
                       Some mb \<Rightarrow> pool_get pick mb s
                     | None \<Rightarrow> alloc_msg (newMsg sz) s)
      in (r, upd_msg r (\<lambda>m. m\<lparr>refcnt := 1, body := [], hdr := Some []\<rparr>) s1))"

definition Free :: "mref \<Rightarrow> 'a heap_scheme \<Rightarrow> 'a heap_scheme" where
  "Free r s =
     (let v = refcnt (msgs s r) - 1;
          s1 = upd_msg r (\<lambda>m. m\<lparr>refcnt := v\<rparr>) s
      in if 0 < v then s1
         else if bsize (msgs s1 r) \<in> set messageCache then s1\<lparr>mpool := r # mpool s1\<rparr>
         else s1)"

definition Dup :: "mref \<Rightarrow> 'a heap_scheme \<Rightarrow> 'a heap_scheme" where
  [msg_eff]: "Dup r s = upd_msg r (\<lambda>m. m\<lparr>refcnt := refcnt m + 1\<rparr>) s"

text \<open>\<open>now\<close> is what \<^verbatim>\<open>time.Now()\<close> returns at the call.\<close>

definition Expired :: "inst \<Rightarrow> message \<Rightarrow> bool" where
  "Expired now m = (case expire m of None \<Rightarrow> False | Some t \<Rightarrow> \<not> now < t)"

section \<open>Effects\<close>

lemma newMsg_simps [simp]:
  "hdr (newMsg sz) = None" "body (newMsg sz) = []" "port (newMsg sz) = None"
  "bsize (newMsg sz) = sz" "refcnt (newMsg sz) = 0" "expire (newMsg sz) = None"
  by (simp_all add: newMsg_def)

lemma Free_eff [msg_eff]:
  "Free r s =
     s\<lparr>msgs := (msgs s)(r := (msgs s r)\<lparr>refcnt := refcnt (msgs s r) - 1\<rparr>),
       mpool := (if refcnt (msgs s r) \<le> 1 \<and> bsize (msgs s r) \<in> set messageCache
                 then r # mpool s else mpool s)\<rparr>"
  by (simp add: Free_def upd_msg_def Let_def)

lemma Free_keeps: "1 < refcnt (msgs s r) \<Longrightarrow>
    Free r s = s\<lparr>msgs := (msgs s)(r := (msgs s r)\<lparr>refcnt := refcnt (msgs s r) - 1\<rparr>)\<rparr>"
  by (simp add: Free_eff)

lemma msg_class_Some: "msg_class sz = Some mb \<Longrightarrow> sz < mb \<and> mb \<in> set messageCache"
  by (auto simp: msg_class_def find_Some_iff)

lemma NewMessage_unfold:
  "NewMessage pick sz s =
     (case msg_class sz of
        Some mb \<Rightarrow>
          (if pick \<in> set (mpool s) \<and> bsize (msgs s pick) = mb
           then (pick, s\<lparr>mpool := remove1 pick (mpool s),
                         msgs := (msgs s)(pick := (msgs s pick)\<lparr>refcnt := 1, body := [], hdr := Some []\<rparr>)\<rparr>)
           else (nextm s, s\<lparr>nextm := Suc (nextm s),
                            msgs := (msgs s)(nextm s := (newMsg mb)\<lparr>refcnt := 1, hdr := Some []\<rparr>)\<rparr>))
      | None \<Rightarrow> (nextm s, s\<lparr>nextm := Suc (nextm s),
                            msgs := (msgs s)(nextm s := (newMsg sz)\<lparr>refcnt := 1, hdr := Some []\<rparr>)\<rparr>))"
  by (simp add: NewMessage_def pool_get_def alloc_msg_def upd_msg_def newMsg_def split: option.split)

section \<open>The cache invariant: no live message is in the cache\<close>

definition pool_ok :: "'a heap_scheme \<Rightarrow> bool" where
  "pool_ok s \<longleftrightarrow> distinct (mpool s) \<and>
     (\<forall>r \<in> set (mpool s). r < nextm s \<and> refcnt (msgs s r) \<le> 0 \<and> bsize (msgs s r) \<in> set messageCache)"

definition live :: "'a heap_scheme \<Rightarrow> mref \<Rightarrow> bool" where
  "live s r \<longleftrightarrow> r < nextm s \<and> 1 \<le> refcnt (msgs s r)"

lemma live_not_pooled: "pool_ok s \<Longrightarrow> live s r \<Longrightarrow> r \<notin> set (mpool s)"
  by (auto simp: pool_ok_def live_def)

lemma pool_ok_cong:
  "pool_ok s \<Longrightarrow> mpool s' = mpool s \<Longrightarrow> nextm s \<le> nextm s' \<Longrightarrow>
   (\<And>r. r \<in> set (mpool s) \<Longrightarrow> refcnt (msgs s' r) \<le> 0 \<and> bsize (msgs s' r) = bsize (msgs s r)) \<Longrightarrow>
   pool_ok s'"
  by (fastforce simp: pool_ok_def)

lemma NewMessage_pool_ok: "pool_ok s \<Longrightarrow> pool_ok (snd (NewMessage pick sz s))"
  by (auto simp: NewMessage_unfold pool_ok_def distinct_remove1 split: option.splits
           dest: notin_set_remove1 in_set_remove1 [THEN iffD1, rotated])

lemma NewMessage_fields:
  assumes "NewMessage pick sz s = (r, s')"
  shows "refcnt (msgs s' r) = 1" and "body (msgs s' r) = []" and "hdr (msgs s' r) = Some []"
  using assms by (auto simp: NewMessage_unfold split: option.splits if_splits)

lemma NewMessage_fresh:
  assumes "NewMessage pick sz s = (r, s')" "pool_ok s"
  shows "\<not> live s r" and "live s' r"
  using assms by (auto simp: NewMessage_unfold live_def pool_ok_def split: option.splits if_splits)

lemma NewMessage_frame:
  assumes "NewMessage pick sz s = (r, s')" "r' \<noteq> r"
  shows "msgs s' r' = msgs s r'"
  using assms by (auto simp: NewMessage_unfold split: option.splits if_splits)

lemma NewMessage_capacity: "NewMessage pick sz s = (r, s') \<Longrightarrow> sz \<le> bsize (msgs s' r)"
  by (auto simp: NewMessage_unfold newMsg_def dest!: msg_class_Some split: option.splits if_splits)

lemma Dup_pool_ok: "pool_ok s \<Longrightarrow> r \<notin> set (mpool s) \<Longrightarrow> pool_ok (Dup r s)"
  by (rule pool_ok_cong [of s]) (auto simp: msg_eff pool_ok_def)

lemma Free_pool_ok: "pool_ok s \<Longrightarrow> live s r \<Longrightarrow> pool_ok (Free r s)"
  using live_not_pooled [of s r] by (auto simp: pool_ok_def live_def Free_eff)

lemma Free_Dup: "1 \<le> refcnt (msgs s r) \<Longrightarrow> Free r (Dup r s) = s"
  by (simp add: Free_eff Dup_def upd_msg_def)

section \<open>Any use of the cache\<close>

text \<open>
  Messages are allocated, shared and released in any order; \<open>Dup\<close> and \<open>Free\<close> are called by
  someone who holds a reference.
\<close>

datatype msg_op = MNew mref nat | MDup mref | MFree mref

fun msg_do :: "msg_op \<Rightarrow> 'a heap_scheme \<Rightarrow> 'a heap_scheme run" where
  "msg_do (MNew pick sz) s = Ret (snd (NewMessage pick sz s))"
| "msg_do (MDup r) s = (if live s r then Ret (Dup r s) else Block)"
| "msg_do (MFree r) s = (if live s r then Ret (Free r s) else Block)"

lemma msg_do_pool_ok: "pool_ok s \<Longrightarrow> msg_do e s = Ret s' \<Longrightarrow> pool_ok s'"
  using live_not_pooled [of s]
  by (cases e) (auto simp: NewMessage_pool_ok Dup_pool_ok Free_pool_ok split: if_splits)

lemma msg_run_pool_ok:
  "pool_ok s \<Longrightarrow> run_events msg_do es s = Ret s' \<Longrightarrow> pool_ok s'"
  by (induction es arbitrary: s) (auto simp: run_bind_Ret_iff dest: msg_do_pool_ok)

end
