(* ===== verification/Waiter.thy ===== *)
theory Waiter
  imports Message
begin

text \<open>
  waiter.go (the counter a protocol's Shutdown waits on) and util.go (mkTimer,
  DrainChannel). A wait is a loop that sleeps and looks again; what it sees at each
  wake-up is the environment's, so the loops read it from a list. \<open>None\<close> is a loop that
  still waits when the list ends.
\<close>

section \<open>Waiter\<close>

record waiter =
  w_cnt :: int

definition w_Init :: "waiter \<Rightarrow> waiter" where
  "w_Init w = w\<lparr>w_cnt := 0\<rparr>"

definition w_Add :: "waiter \<Rightarrow> waiter" where
  "w_Add w = w\<lparr>w_cnt := w_cnt w + 1\<rparr>"

text \<open>Done also says whether it broadcasts to the waiters.\<close>

definition w_Done :: "waiter \<Rightarrow> (waiter \<times> bool) run" where
  "w_Done w =
     (let w' = w\<lparr>w_cnt := w_cnt w - 1\<rparr>
      in if w_cnt w' < 0 then Panic else Ret (w', w_cnt w' = 0))"

text \<open>\<open>w_Wait cnt wakes\<close>: the count on entry, then the count seen at each wake-up.\<close>

fun w_Wait :: "int \<Rightarrow> int list \<Rightarrow> unit option" where
  "w_Wait cnt [] = (if cnt = 0 then Some () else None)"
| "w_Wait cnt (c # rest) = (if cnt = 0 then Some () else w_Wait c rest)"

text \<open>
  Each wake-up of a timed wait comes with what \<^verbatim>\<open>CondTimed.WaitRelTimeout\<close> returned: true
  when it was signalled before its timer fired.
\<close>

fun w_WaitRelTimeout :: "int \<Rightarrow> (bool \<times> int) list \<Rightarrow> bool option" where
  "w_WaitRelTimeout cnt [] = (if cnt = 0 then Some True else None)"
| "w_WaitRelTimeout cnt ((signalled, c) # rest) =
     (if cnt = 0 then Some True
      else if \<not> signalled then Some (c = 0) else w_WaitRelTimeout c rest)"

text \<open>The absolute wait: the relative time left, which is never negative.\<close>

definition cv_WaitAbsTimeout :: "inst \<Rightarrow> inst \<Rightarrow> dur" where
  "cv_WaitAbsTimeout when now = (if now < when then when - now else 0)"

fun w_WaitAbsTimeout :: "int \<Rightarrow> inst \<Rightarrow> (inst \<times> bool \<times> int) list \<Rightarrow> (bool \<times> dur list) option" where
  "w_WaitAbsTimeout cnt t [] = (if cnt = 0 then Some (True, []) else None)"
| "w_WaitAbsTimeout cnt t ((now, signalled, c) # rest) =
     (if cnt = 0 then Some (True, [])
      else let d = cv_WaitAbsTimeout t now
           in if \<not> signalled then Some (c = 0, [d])
              else map_option (\<lambda>(b, ds). (b, d # ds)) (w_WaitAbsTimeout c t rest))"

lemma w_Done_Add: "w_cnt w \<ge> 0 \<Longrightarrow> w_Done (w_Add w) = Ret (w, w_cnt w = 0)"
  by (simp add: w_Done_def w_Add_def)

lemma w_Done_Panic: "w_Done w = Panic \<longleftrightarrow> w_cnt w \<le> 0"
  by (auto simp: w_Done_def Let_def)

lemma w_Wait_iff: "w_Wait cnt wakes = Some u \<longleftrightarrow> 0 \<in> set (cnt # wakes)"
  by (induction wakes arbitrary: cnt) auto

text \<open>A timed wait that returns true saw a zero count.\<close>

lemma w_WaitRelTimeout_True:
  "w_WaitRelTimeout cnt wakes = Some True \<Longrightarrow> 0 \<in> set (cnt # map snd wakes)"
  by (induction cnt wakes rule: w_WaitRelTimeout.induct) (auto split: if_splits)

text \<open>One whose timer fires, or that sees a zero count, returns.\<close>

lemma w_WaitRelTimeout_returns:
  "(\<exists>x \<in> set wakes. \<not> fst x) \<Longrightarrow> w_WaitRelTimeout cnt wakes \<noteq> None"
  by (induction cnt wakes rule: w_WaitRelTimeout.induct) auto

text \<open>The absolute wait decides as the relative one does.\<close>

lemma w_WaitAbs_Rel:
  "map_option fst (w_WaitAbsTimeout cnt t wakes) = w_WaitRelTimeout cnt (map snd wakes)"
  by (induction cnt t wakes rule: w_WaitAbsTimeout.induct)
     (auto simp: Let_def option.map_comp comp_def case_prod_beta)

lemma cv_WaitAbsTimeout_nonneg: "0 \<le> cv_WaitAbsTimeout t now"
  by (simp add: cv_WaitAbsTimeout_def)

section \<open>util.go\<close>

text \<open>\<open>mkTimer d now\<close>: the instant the timer fires, or \<open>None\<close> for the nil channel.\<close>

definition mkTimer :: "dur \<Rightarrow> inst \<Rightarrow> inst option" where
  "mkTimer deadline now = (if deadline = 0 then None else Some (now + deadline))"

definition timer_ready :: "inst option \<Rightarrow> inst \<Rightarrow> bool" where
  "timer_ready t now = (case t of None \<Rightarrow> False | Some i \<Rightarrow> i \<le> now)"

definition ms10 :: dur where
  "ms10 = 10000000"

text \<open>
  DrainChannel polls. Each observation is the length of the channel and the clock at one
  look; the result is whether the channel drained, and how long each sleep was.
\<close>

fun DrainChannel :: "inst \<Rightarrow> (nat \<times> inst) list \<Rightarrow> (bool \<times> dur list) option" where
  "DrainChannel lim [] = None"
| "DrainChannel lim ((len, now) # obs) =
     (if len = 0 then Some (True, [])
      else if lim < now then Some (False, [])
      else let d = lim - now; d' = (if ms10 < d then ms10 else d)
           in map_option (\<lambda>(b, ds). (b, d' # ds)) (DrainChannel lim obs))"

lemma DrainChannel_sleeps:
  "DrainChannel e obs = Some (b, ds) \<Longrightarrow> d \<in> set ds \<Longrightarrow> 0 \<le> d \<and> d \<le> ms10"
  by (induction e obs arbitrary: b ds rule: DrainChannel.induct)
     (auto simp: ms10_def Let_def split: if_splits)

lemma DrainChannel_returns:
  "x \<in> set obs \<Longrightarrow> fst x = 0 \<or> e < snd x \<Longrightarrow> DrainChannel e obs \<noteq> None"
  by (induction obs) (auto simp: Let_def split_paired_all)

lemma DrainChannel_result:
  "DrainChannel e obs = Some (b, ds) \<Longrightarrow>
     length ds < length obs \<and> (b \<longleftrightarrow> fst (obs ! length ds) = 0) \<and>
     (\<forall>i < length ds. fst (obs ! i) \<noteq> 0 \<and> snd (obs ! i) \<le> e)"
proof (induction e obs arbitrary: b ds rule: DrainChannel.induct)
  case (1 e)
  then show ?case by simp
next
  case (2 e len now obs)
  show ?case
  proof (cases "len = 0 \<or> e < now")
    case True
    with "2.prems" show ?thesis by (auto split: if_splits)
  next
    case False
    with "2.prems" obtain d ds' where ds: "ds = d # ds'" "DrainChannel e obs = Some (b, ds')"
      by (auto simp: Let_def split: if_splits)
    have IH: "length ds' < length obs \<and> (b \<longleftrightarrow> fst (obs ! length ds') = 0) \<and>
        (\<forall>i < length ds'. fst (obs ! i) \<noteq> 0 \<and> snd (obs ! i) \<le> e)"
      using "2.IH" [OF _ _ refl refl ds(2)] False by auto
    with ds False show ?thesis by (auto simp: nth_Cons split: nat.split)
  qed
qed

end
