(* ===== verification/Protocol.thy ===== *)
theory Protocol
  imports Waiter
begin

text \<open>
  protocol.go: the protocol numbers and names, which protocols may peer, the interface
  \<^verbatim>\<open>Protocol\<close> as a record of operations (Go's method table), and \<^verbatim>\<open>NullRecv\<close>.
\<close>

section \<open>Protocol numbers\<close>

definition ProtoPair :: u16 where "ProtoPair = 1 * 16"
definition ProtoPub :: u16 where "ProtoPub = 2 * 16"
definition ProtoSub :: u16 where "ProtoSub = 2 * 16 + 1"
definition ProtoReq :: u16 where "ProtoReq = 3 * 16"
definition ProtoRep :: u16 where "ProtoRep = 3 * 16 + 1"
definition ProtoPush :: u16 where "ProtoPush = 5 * 16"
definition ProtoPull :: u16 where "ProtoPull = 5 * 16 + 1"
definition ProtoSurveyor :: u16 where "ProtoSurveyor = 6 * 16 + 2"
definition ProtoRespondent :: u16 where "ProtoRespondent = 6 * 16 + 3"
definition ProtoBus :: u16 where "ProtoBus = 7 * 16"
definition ProtoStar :: u16 where "ProtoStar = 100 * 16"

lemmas proto_numbers = ProtoPair_def ProtoPub_def ProtoSub_def ProtoReq_def ProtoRep_def
  ProtoPush_def ProtoPull_def ProtoSurveyor_def ProtoRespondent_def ProtoBus_def ProtoStar_def

text \<open>A Go map lookup yields the zero value (the empty string) for a missing key.\<close>

definition ProtocolName :: "u16 \<Rightarrow> string" where
  "ProtocolName number =
     (case map_of
        [(ProtoPair, ''pair''), (ProtoPub, ''pub''), (ProtoSub, ''sub''), (ProtoReq, ''req''),
         (ProtoRep, ''rep''), (ProtoPush, ''push''), (ProtoPull, ''pull''),
         (ProtoSurveyor, ''surveyor''), (ProtoRespondent, ''respondent''), (ProtoBus, ''bus'')]
        number of
        None \<Rightarrow> '''' | Some n \<Rightarrow> n)"

section \<open>The interface\<close>

text \<open>
  The methods of a protocol on the state \<open>'s\<close> of its socket. \<open>op_Shutdown\<close> gets the order
  in which the run-time iterates over the map of peers. The hooks are optional interfaces.
\<close>

record 's protocol_ops =
  op_Init :: "'s \<Rightarrow> 's"
  op_Shutdown :: "u32 list \<Rightarrow> 's \<Rightarrow> 's run"
  op_AddEndpoint :: "pref \<Rightarrow> 's \<Rightarrow> 's run"
  op_RemoveEndpoint :: "pref \<Rightarrow> 's \<Rightarrow> 's run"
  op_Number :: u16
  op_Name :: string
  op_PeerNumber :: u16
  op_PeerName :: string
  op_GetOption :: "string \<Rightarrow> 's \<Rightarrow> err + goval"
  op_SetOption :: "string \<Rightarrow> goval \<Rightarrow> 's \<Rightarrow> err option \<times> 's"
  op_RecvHook :: "(mref \<Rightarrow> 's \<Rightarrow> (bool \<times> 's) run) option"
  op_SendHook :: "(mref \<Rightarrow> 's \<Rightarrow> (bool \<times> 's) run) option"

definition ValidPeers :: "'a protocol_ops \<Rightarrow> 'b protocol_ops \<Rightarrow> bool" where
  "ValidPeers p1 p2 =
     (if op_Number p1 \<noteq> op_PeerNumber p2 then False
      else if op_Number p2 \<noteq> op_PeerNumber p1 then False
      else True)"

lemma ValidPeers_iff:
  "ValidPeers p1 p2 \<longleftrightarrow> op_Number p1 = op_PeerNumber p2 \<and> op_Number p2 = op_PeerNumber p1"
  by (simp add: ValidPeers_def)

text \<open>
  One round of NullRecv's loop, after \<^verbatim>\<open>ep.RecvMsg\<close> returned \<open>m\<close> (\<open>None\<close> is the nil
  message of a dropped connection).
\<close>

definition NullRecv :: "mref option \<Rightarrow> 'a heap_scheme \<Rightarrow> ctl \<times> 'a heap_scheme" where
  "NullRecv m s = (case m of None \<Rightarrow> (Exit, s) | Some r \<Rightarrow> (Loop, Free r s))"

end
