(* ===== verification/Sock.thy ===== *)
theory Sock
  imports Protocol
begin

text \<open>
  The socket's state (\<^verbatim>\<open>type socket\<close> of core.go) and the view of it that protocols get
  (\<^verbatim>\<open>ProtocolSocket\<close>). A protocol's own state extends the record \<open>socket\<close>.
\<close>

section \<open>State\<close>

text \<open>\<^verbatim>\<open>type dialer\<close> and \<^verbatim>\<open>type listener\<close>; \<open>d_tran\<close> and \<open>l_tran\<close> name the transport's object.\<close>

record dialer =
  d_tran :: nat
  d_addr :: string
  d_closed :: bool
  d_active :: bool
  d_closeq :: bool

record listener =
  l_tran :: nat
  l_addr :: string

text \<open>\<^verbatim>\<open>type PortAction\<close>; a port hook is a user callback that decides on a port.\<close>

datatype PortAction = PortActionAdd | PortActionRemove

type_synonym porthook = "PortAction \<Rightarrow> pref \<Rightarrow> bool"

record socket = heap +
  uwq :: cref
  uwqLen :: int
  urq :: cref
  urqLen :: int
  closeq :: bool
  recverrq :: "unit chan"
  closing :: bool
  active :: bool
  bestEffort :: bool
  recverr :: "err option"
  senderr :: "err option"
  rdeadline :: dur
  wdeadline :: dur
  reconntime :: dur
  reconnmax :: dur
  linger :: dur
  maxRxSize :: int
  pipes :: "pref set option"
  listeners :: "nat list"
  dtab :: "nat \<Rightarrow> dialer"
  nextd :: nat
  ltab :: "nat \<Rightarrow> listener"
  nextl :: nat
  transports :: "string \<rightharpoonup> nat"
  porthook :: "porthook option"
  hookcalls :: "(PortAction \<times> pref) list"

text \<open>\<open>hookcalls\<close> is a history variable: the calls of the port hook, oldest first.\<close>

definition defaultQLen :: int where "defaultQLen = 128"
definition defaultMaxRxSize :: int where "defaultMaxRxSize = 1024 * 1024"

section \<open>ProtocolSocket\<close>

definition SendChannel :: "'a socket_scheme \<Rightarrow> cref" where "SendChannel s = uwq s"
definition RecvChannel :: "'a socket_scheme \<Rightarrow> cref" where "RecvChannel s = urq s"
definition CloseChannel :: "'a socket_scheme \<Rightarrow> bool" where "CloseChannel s = closeq s"

definition SetSendError :: "err option \<Rightarrow> 'a socket_scheme \<Rightarrow> 'a socket_scheme" where
  "SetSendError e s = s\<lparr>senderr := e\<rparr>"

text \<open>The wake-up of a blocked receiver never blocks and is lost when nobody waits.\<close>

definition SetRecvError :: "err option \<Rightarrow> 'a socket_scheme \<Rightarrow> 'a socket_scheme" where
  "SetRecvError e s =
     (let s1 = s\<lparr>recverr := e\<rparr>
      in if chan_room (recverrq s1) then s1\<lparr>recverrq := chan_push () (recverrq s1)\<rparr> else s1)"

lemma SetRecvError_eff:
  "SetRecvError e s =
     s\<lparr>recverr := e,
       recverrq := (if chan_room (recverrq s) then chan_push () (recverrq s) else recverrq s)\<rparr>"
  by (simp add: SetRecvError_def Let_def)

named_theorems sock_eff "effects of the ProtocolSocket operations"

declare SetSendError_def [sock_eff] SetRecvError_eff [sock_eff] SendChannel_def [sock_eff]
  RecvChannel_def [sock_eff] CloseChannel_def [sock_eff]

section \<open>Shared pieces of the protocols' loops\<close>

text \<open>
  The top of a sender loop: wait for a message on the send channel \<open>sq\<close> or for the close
  of the socket. A nil message (the old channel was closed by a change of the queue length)
  makes the loop fetch the new channel and go round.
\<close>

datatype top_arm = TMsg | TClose

datatype 's top = TopMsg mref 's | TopRefetch 's | TopClosed

definition top_recv :: "top_arm \<Rightarrow> cref \<Rightarrow> 'a socket_scheme \<Rightarrow> 'a socket_scheme top run" where
  "top_recv pick sq s =
     (case go_select [(TMsg, recv_ready sq s), (TClose, closeq s)] None pick of
        None \<Rightarrow> Block
      | Some TClose \<Rightarrow> Ret TopClosed
      | Some TMsg \<Rightarrow>
          run_bind (ch_recv sq s) (\<lambda>(m, s1).
            Ret (case m of None \<Rightarrow> TopRefetch s1 | Some r \<Rightarrow> TopMsg r s1)))"

text \<open>
  \<^verbatim>\<open>select { case rq <- m: case <-cq: ... }\<close> at the bottom of a receiver: \<open>Ret True\<close> when
  the message went up, \<open>Ret False\<close> when the socket is closed.
\<close>

datatype up_arm = UUp | UClose

definition up_send :: "up_arm \<Rightarrow> cref \<Rightarrow> mref \<Rightarrow> 'a socket_scheme \<Rightarrow> (bool \<times> 'a socket_scheme) run" where
  "up_send pick rq m s =
     (case go_select [(UUp, send_ready rq s), (UClose, closeq s)] None pick of
        None \<Rightarrow> Block
      | Some UClose \<Rightarrow> Ret (False, s)
      | Some UUp \<Rightarrow> run_bind (ch_send rq m s) (\<lambda>s1. Ret (True, s1)))"

text \<open>The same with a default: \<open>None\<close> is the default arm (no room, the message is dropped).\<close>

definition up_try :: "up_arm \<Rightarrow> cref \<Rightarrow> mref \<Rightarrow> 'a socket_scheme \<Rightarrow> (bool option \<times> 'a socket_scheme) run" where
  "up_try pick rq m s =
     (case go_select [(Some UUp, send_ready rq s), (Some UClose, closeq s)] (Some None) (Some pick) of
        None \<Rightarrow> Block
      | Some None \<Rightarrow> Ret (None, s)
      | Some (Some UClose) \<Rightarrow> Ret (Some False, s)
      | Some (Some UUp) \<Rightarrow> run_bind (ch_send rq m s) (\<lambda>s1. Ret (Some True, s1)))"

text \<open>\<^verbatim>\<open>select { case q <- m: default: m.Free() }\<close>\<close>

definition offer :: "cref \<Rightarrow> mref \<Rightarrow> 'a heap_scheme \<Rightarrow> 'a heap_scheme run" where
  "offer q m s = (if send_ready q s then ch_send q m s else Ret (Free m s))"

text \<open>
  The body of a peer's sender goroutine: take the next message from the peer's queue, stop
  when the queue is closed, hand the message to the endpoint, and on an error free it and
  stop. \<open>send\<close> is the endpoint's \<^verbatim>\<open>SendMsg\<close>.
\<close>

definition peer_sender ::
  "(mref \<Rightarrow> 'a heap_scheme \<Rightarrow> (err option \<times> 'a heap_scheme) run) \<Rightarrow> cref \<Rightarrow> 'a heap_scheme \<Rightarrow>
   (ctl \<times> 'a heap_scheme) run" where
  "peer_sender send q s =
     run_bind (ch_recv q s) (\<lambda>(m, s1).
       case m of
         None \<Rightarrow> Ret (Exit, s1)
       | Some r \<Rightarrow>
           run_bind (send r s1) (\<lambda>(e, s2).
             Ret (if e \<noteq> None then (Exit, Free r s2) else (Loop, s2))))"

section \<open>Facts about the shared pieces\<close>

lemma top_recv_Ret:
  "top_recv pick sq s = Ret t \<Longrightarrow>
     (t = TopClosed \<and> closeq s) \<or>
     (\<exists>x xs. cbuf (chans s sq) = x # xs \<and> t = TopMsg x (pop_on sq s)) \<or>
     (cbuf (chans s sq) = [] \<and> cclosed (chans s sq) \<and> t = TopRefetch s)"
  by (auto simp: top_recv_def go_select_def chan_cases Let_def
           split: option.splits top_arm.splits if_splits list.splits)

lemma top_recv_not_Panic [simp]: "top_recv pick sq s \<noteq> Panic"
  by (auto simp: top_recv_def chan_cases
           split: option.splits top_arm.splits if_splits list.splits)

lemma up_send_cases:
  assumes "\<not> cclosed (chans s rq)"
  shows "up_send pick rq m s =
    (if chan_room (chans s rq) \<and> (pick = UUp \<or> \<not> closeq s) then Ret (True, push_on rq m s)
     else if closeq s then Ret (False, s) else Block)"
  using assms by (cases pick) (auto simp: up_send_def go_select_def chan_cases Let_def)

lemma up_try_cases:
  assumes "\<not> cclosed (chans s rq)"
  shows "up_try pick rq m s =
    (if chan_room (chans s rq) \<and> (pick = UUp \<or> \<not> closeq s) then Ret (Some True, push_on rq m s)
     else if closeq s then Ret (Some False, s) else Ret (None, s))"
  using assms by (cases pick) (auto simp: up_try_def go_select_def chan_cases Let_def)

lemma offer_cases:
  "offer q m s =
     (if cclosed (chans s q) then Panic
      else if chan_room (chans s q) then Ret (push_on q m s) else Ret (Free m s))"
  by (simp add: offer_def chan_cases)

end
