(* ===== verification/PeerQ.thy ===== *)
theory PeerQ
  imports Sock
begin

text \<open>
  What the protocols with one queue per peer (rep, surveyor, respondent, bus, star, pub)
  have in common: the broadcast loop over the peers' queues, the order of an iteration
  over a Go map, and the table of peers, whose interface is the locale \<open>peer_table\<close>.
\<close>

section \<open>Iterating over a map of peers\<close>

text \<open>
  Go iterates over a map in an order the run-time chooses; an order is a list of the keys.
  \<open>peer_list ord P\<close> are the entries in that order.
\<close>

definition map_order :: "u32 list \<Rightarrow> (u32 \<rightharpoonup> 'v) \<Rightarrow> bool" where
  "map_order ord P \<longleftrightarrow> distinct ord \<and> set ord = dom P"

fun peer_list :: "u32 list \<Rightarrow> (u32 \<rightharpoonup> 'v) \<Rightarrow> (u32 \<times> 'v) list" where
  "peer_list [] P = []"
| "peer_list (i # ord) P =
     (case P i of None \<Rightarrow> peer_list ord P | Some v \<Rightarrow> (i, v) # peer_list ord P)"

lemma set_peer_list: "set (peer_list ord P) = {(i, v). i \<in> set ord \<and> P i = Some v}"
  by (induction ord) (auto split: option.splits)

lemma peer_list_order: "map_order ord P \<Longrightarrow> set (peer_list ord P) = {(i, v). P i = Some v}"
  by (auto simp: set_peer_list map_order_def)

lemma map_fst_peer_list: "map fst (peer_list ord P) = filter (\<lambda>i. P i \<noteq> None) ord"
  by (induction ord) (auto split: option.splits)

lemma map_order_fst: "map_order ord P \<Longrightarrow> map fst (peer_list ord P) = ord"
  by (auto simp: map_fst_peer_list map_order_def intro!: filter_True)

lemma distinct_peer_list: "distinct ord \<Longrightarrow> distinct (peer_list ord P)"
  by (induction ord) (auto simp: set_peer_list split: option.splits)

lemma distinct_snd_peer_list:
  "distinct ord \<Longrightarrow> inj_on P (dom P) \<Longrightarrow> distinct (map snd (filter f (peer_list ord P)))"
proof (induction ord)
  case Nil
  show ?case by simp
next
  case (Cons i ord)
  show ?case
  proof (cases "P i")
    case None
    with Cons show ?thesis by simp
  next
    case (Some v)
    have "v \<notin> snd ` set (peer_list ord P)"
    proof
      assume "v \<in> snd ` set (peer_list ord P)"
      then obtain j where "j \<in> set ord" "P j = Some v" by (auto simp: set_peer_list)
      moreover with Some Cons.prems(2) have "j = i" by (metis domI inj_onD)
      ultimately show False using Cons.prems(1) by simp
    qed
    with Some Cons show ?thesis by auto
  qed
qed

section \<open>The broadcast loop\<close>

text \<open>
  \<^verbatim>\<open>for _, pe := range peers { m := m.Dup(); select { case pe.q <- m: default: m.Free() } }\<close>
\<close>

fun bcast :: "cref list \<Rightarrow> mref \<Rightarrow> 'a heap_scheme \<Rightarrow> 'a heap_scheme run" where
  "bcast [] m s = Ret s"
| "bcast (q # qs) m s = run_bind (offer q m (Dup m s)) (bcast qs m)"

definition bcast_got :: "cref list \<Rightarrow> 'a heap_scheme \<Rightarrow> cref list" where
  "bcast_got qs s = filter (\<lambda>q. chan_room (chans s q)) qs"

text \<open>
  On open and distinct queues the loop does not panic; every queue with room gets the
  message once, no other channel changes, and the reference count grows by exactly the
  number of queues that hold the message now.
\<close>

lemma bcast_result:
  assumes "distinct qs" "\<forall>q \<in> set qs. \<not> cclosed (chans s q)" "1 \<le> refcnt (msgs s m)"
  shows "bcast qs m s = Ret (s\<lparr>
           chans := (\<lambda>q. if q \<in> set (bcast_got qs s) then chan_push m (chans s q) else chans s q),
           msgs := (msgs s)(m := (msgs s m)\<lparr>refcnt := refcnt (msgs s m) + int (length (bcast_got qs s))\<rparr>)\<rparr>)"
  using assms
proof (induction qs arbitrary: s)
  case Nil
  show ?case by (simp add: bcast_got_def)
next
  case (Cons q qs)
  show ?case
  proof (cases "chan_room (chans s q)")
    case True
    define s1 where "s1 = push_on q m (Dup m s)"
    have off: "offer q m (Dup m s) = Ret s1"
      using True Cons.prems by (simp add: offer_cases s1_def msg_eff)
    have got: "bcast_got qs s1 = bcast_got qs s"
      using Cons.prems(1) by (auto simp: bcast_got_def s1_def msg_eff chan_eff intro!: filter_cong)
    have IH: "bcast qs m s1 = Ret (s1\<lparr>
           chans := (\<lambda>q. if q \<in> set (bcast_got qs s1) then chan_push m (chans s1 q) else chans s1 q),
           msgs := (msgs s1)(m := (msgs s1 m)\<lparr>refcnt := refcnt (msgs s1 m) + int (length (bcast_got qs s1))\<rparr>)\<rparr>)"
      using Cons.prems by (intro Cons.IH) (auto simp: s1_def msg_eff chan_eff)
    have g: "bcast_got (q # qs) s = q # bcast_got qs s"
      using True by (simp add: bcast_got_def)
    have qn: "q \<notin> set (bcast_got qs s)"
      using Cons.prems(1) by (auto simp: bcast_got_def)
    show ?thesis
      unfolding bcast.simps off run_bind.simps IH got g
      using qn by (auto simp: s1_def msg_eff chan_eff fun_eq_iff intro!: arg_cong2 [where f = "\<lambda>a b. s\<lparr>chans := a, msgs := b\<rparr>"])
  next
    case False
    have off: "offer q m (Dup m s) = Ret s"
      using False Cons.prems by (simp add: offer_cases Free_Dup) (simp add: msg_eff)
    have g: "bcast_got (q # qs) s = bcast_got qs s"
      using False by (simp add: bcast_got_def)
    from Cons.prems have "bcast qs m s = Ret (s\<lparr>
           chans := (\<lambda>q. if q \<in> set (bcast_got qs s) then chan_push m (chans s q) else chans s q),
           msgs := (msgs s)(m := (msgs s m)\<lparr>refcnt := refcnt (msgs s m) + int (length (bcast_got qs s))\<rparr>)\<rparr>)"
      by (intro Cons.IH) auto
    then show ?thesis
      unfolding bcast.simps off run_bind.simps g .
  qed
qed

section \<open>The table of peers\<close>

text \<open>
  \<open>peers_ok P R s\<close>: the queues of the table \<open>P\<close> are allocated, open, pairwise different
  and different from the reserved channels \<open>R\<close> (the socket's own queues).
\<close>

definition peers_ok :: "(u32 \<rightharpoonup> cref) \<Rightarrow> cref set \<Rightarrow> 'a heap_scheme \<Rightarrow> bool" where
  "peers_ok P R s \<longleftrightarrow> finite (dom P) \<and> inj_on P (dom P) \<and> (\<forall>q \<in> R. q < nextc s) \<and>
     (\<forall>i q. P i = Some q \<longrightarrow> q < nextc s \<and> \<not> cclosed (chans s q) \<and> q \<notin> R)"

lemma peers_ok_cong:
  assumes "peers_ok P R s" "nextc s \<le> nextc s'"
    and "\<And>i q. P i = Some q \<Longrightarrow> cclosed (chans s' q) = cclosed (chans s q)"
  shows "peers_ok P R s'"
proof -
  have "q < nextc s' \<and> \<not> cclosed (chans s' q) \<and> q \<notin> R" if "P i = Some q" for i q
  proof -
    from assms(1) that have "q < nextc s" "\<not> cclosed (chans s q)" "q \<notin> R"
      unfolding peers_ok_def by blast+
    with assms(2) assms(3) [OF that] show ?thesis by simp
  qed
  moreover have "\<forall>q \<in> R. q < nextc s'"
    using assms(1,2) by (auto simp: peers_ok_def)
  ultimately show ?thesis using assms(1) by (simp add: peers_ok_def)
qed

lemma peers_okD: "peers_ok P R s \<Longrightarrow> P i = Some q \<Longrightarrow> \<not> cclosed (chans s q) \<and> q < nextc s \<and> q \<notin> R"
  by (auto simp: peers_ok_def)

lemma peers_ok_inj: "peers_ok P R s \<Longrightarrow> P i = Some q \<Longrightarrow> P j = Some q \<Longrightarrow> i = j"
  unfolding peers_ok_def by (metis domI inj_onD)

lemma peers_ok_add:
  assumes "peers_ok P R s" "nextc s' = Suc (nextc s)"
    and "chans s' = (chans s)(nextc s := make_chan n)"
  shows "peers_ok (P(i \<mapsto> nextc s)) R s'"
proof -
  have new: "P j \<noteq> Some (nextc s)" for j
    using assms(1) by (auto simp: peers_ok_def)
  have "inj_on (P(i \<mapsto> nextc s)) (dom (P(i \<mapsto> nextc s)))"
  proof (rule inj_onI)
    fix k j assume "k \<in> dom (P(i \<mapsto> nextc s))" "j \<in> dom (P(i \<mapsto> nextc s))"
      and "(P(i \<mapsto> nextc s)) k = (P(i \<mapsto> nextc s)) j"
    then show "k = j"
      using assms(1) new [of k] new [of j] by (auto simp: peers_ok_def inj_on_def split: if_splits)
  qed
  with assms show ?thesis by (auto simp: peers_ok_def less_Suc_eq)
qed

lemma peers_ok_rem:
  assumes "peers_ok P R s" "P i = Some q" "nextc s' = nextc s" "chans s' = chans (close_on q s)"
  shows "peers_ok (P(i := None)) R s'"
proof -
  have other: "k = i" if "P k = Some q" for k
    using peers_ok_inj [OF assms(1) that assms(2)] .
  have ent: "r < nextc s' \<and> \<not> cclosed (chans s' r) \<and> r \<notin> R" if "(P(i := None)) k = Some r" for k r
  proof -
    from that have "k \<noteq> i" and k: "P k = Some r" by (auto split: if_splits)
    with other have "r \<noteq> q" by auto
    with peers_okD [OF assms(1) k] assms(3,4) show ?thesis by (simp add: chan_eff)
  qed
  have "inj_on (P(i := None)) (dom (P(i := None)))"
  proof (rule inj_onI)
    fix k j assume "k \<in> dom (P(i := None))" "j \<in> dom (P(i := None))"
      and "(P(i := None)) k = (P(i := None)) j"
    then obtain r where "P k = Some r" "P j = Some r" by (auto split: if_splits)
    then show "k = j" using peers_ok_inj [OF assms(1)] by blast
  qed
  moreover have "finite (dom (P(i := None)))"
    using assms(1) by (auto simp: peers_ok_def)
  moreover have "\<forall>r \<in> R. r < nextc s'"
    using assms(1,3) by (simp add: peers_ok_def)
  ultimately show ?thesis
    unfolding peers_ok_def using ent by blast
qed

datatype peer_event = PeerAdd pref | PeerRem pref

fun peer_run ::
  "(pref \<Rightarrow> 's \<Rightarrow> 's) \<Rightarrow> (pref \<Rightarrow> 's \<Rightarrow> 's run) \<Rightarrow> peer_event list \<Rightarrow> 's \<Rightarrow> 's run" where
  "peer_run add rem [] s = Ret s"
| "peer_run add rem (PeerAdd p # es) s = peer_run add rem es (add p s)"
| "peer_run add rem (PeerRem p # es) s = run_bind (rem p s) (peer_run add rem es)"

locale peer_table =
  fixes peers :: "'a heap_scheme \<Rightarrow> u32 \<rightharpoonup> cref"
    and resv :: "'a heap_scheme \<Rightarrow> cref set"
    and qcap :: "'a heap_scheme \<Rightarrow> nat"
    and add :: "pref \<Rightarrow> 'a heap_scheme \<Rightarrow> 'a heap_scheme"
    and rem :: "pref \<Rightarrow> 'a heap_scheme \<Rightarrow> 'a heap_scheme run"
  assumes peers_add: "peers (add p s) = (peers s)(p_id (ptab s p) \<mapsto> nextc s)"
    and chans_add: "chans (add p s) = (chans s)(nextc s := make_chan (qcap s))"
    and nextc_add: "nextc (add p s) = Suc (nextc s)"
    and resv_add: "resv (add p s) = resv s"
    and rem_absent: "peers s (p_id (ptab s p)) = None \<Longrightarrow>
        \<exists>s'. rem p s = Ret s' \<and> peers s' = peers s \<and> chans s' = chans s \<and>
             nextc s' = nextc s \<and> resv s' = resv s"
    and rem_present: "peers s (p_id (ptab s p)) = Some q \<Longrightarrow> \<not> cclosed (chans s q) \<Longrightarrow>
        \<exists>s'. rem p s = Ret s' \<and> peers s' = (peers s)(p_id (ptab s p) := None) \<and>
             chans s' = chans (close_on q s) \<and> nextc s' = nextc s \<and> resv s' = resv s"
begin

lemma add_ok: "peers_ok (peers s) (resv s) s \<Longrightarrow> peers_ok (peers (add p s)) (resv (add p s)) (add p s)"
  unfolding peers_add resv_add by (rule peers_ok_add) (simp_all add: chans_add nextc_add)

lemma rem_ok:
  assumes "peers_ok (peers s) (resv s) s"
  shows "\<exists>s'. rem p s = Ret s' \<and> peers_ok (peers s') (resv s') s'"
proof (cases "peers s (p_id (ptab s p))")
  case None
  then obtain s' where "rem p s = Ret s'" "peers s' = peers s" "chans s' = chans s"
      "nextc s' = nextc s" "resv s' = resv s"
    using rem_absent by blast
  with assms show ?thesis using peers_ok_cong [of "peers s" "resv s" s s'] by auto
next
  case (Some q)
  with assms have "\<not> cclosed (chans s q)" using peers_okD by blast
  with Some obtain s' where s': "rem p s = Ret s'" "peers s' = (peers s)(p_id (ptab s p) := None)"
      "chans s' = chans (close_on q s)" "nextc s' = nextc s" "resv s' = resv s"
    using rem_present by blast
  with peers_ok_rem [OF assms Some] show ?thesis by auto
qed

text \<open>
  Peers come and go in any order, known or not, twice or not: no queue is closed twice and
  the table only ever holds open queues.
\<close>

lemma peer_run_ok:
  "peers_ok (peers s) (resv s) s \<Longrightarrow>
   \<exists>s'. peer_run add rem es s = Ret s' \<and> peers_ok (peers s') (resv s') s'"
proof (induction es arbitrary: s)
  case Nil
  then show ?case by simp
next
  case (Cons e es)
  show ?case
  proof (cases e)
    case (PeerAdd p)
    with Cons add_ok show ?thesis by simp
  next
    case (PeerRem p)
    with Cons rem_ok [OF Cons.prems, of p] show ?thesis by auto
  qed
qed

end

section \<open>Closing every queue (Shutdown)\<close>

text \<open>
  \<^verbatim>\<open>for id, peer := range peers { delete(peers, id); DrainChannel(peer.q, expire); close(peer.q) }\<close>
  on the captured map. The drain only waits; while it does, the peers' senders may run.
\<close>

fun close_all :: "cref list \<Rightarrow> 'a heap_scheme \<Rightarrow> 'a heap_scheme run" where
  "close_all [] s = Ret s"
| "close_all (q # qs) s = run_bind (ch_close q s) (close_all qs)"

lemma close_all_result:
  "distinct qs \<Longrightarrow> \<forall>q \<in> set qs. \<not> cclosed (chans s q) \<Longrightarrow>
   close_all qs s = Ret (s\<lparr>chans := (\<lambda>q. if q \<in> set qs
     then (chans s q)\<lparr>cclosed := True, crxwait := 0\<rparr> else chans s q)\<rparr>)"
proof (induction qs arbitrary: s)
  case Nil
  show ?case by simp
next
  case (Cons q qs)
  have "close_all qs (close_on q s) = Ret (close_on q s\<lparr>chans := (\<lambda>q'. if q' \<in> set qs
     then (chans (close_on q s) q')\<lparr>cclosed := True, crxwait := 0\<rparr> else chans (close_on q s) q')\<rparr>)"
    using Cons.prems by (intro Cons.IH) (auto simp: chan_eff)
  with Cons.prems show ?case
    by (auto simp: ch_close_cases chan_eff fun_eq_iff intro!: arg_cong [where f = "\<lambda>a. s\<lparr>chans := a\<rparr>"])
qed

text \<open>
  The queues of a table of records \<open>E\<close> with the queue field \<open>qf\<close>, in the order of an
  iteration: pairwise different, open, and none of them reserved.
\<close>

lemma peer_queues_ok:
  assumes "peers_ok (map_option qf \<circ> E) R s" "distinct ord"
  shows "distinct (map (qf \<circ> snd) (peer_list ord E))"
    and "\<forall>q \<in> set (map (qf \<circ> snd) (peer_list ord E)). \<not> cclosed (chans s q) \<and> q \<notin> R"
proof -
  show "\<forall>q \<in> set (map (qf \<circ> snd) (peer_list ord E)). \<not> cclosed (chans s q) \<and> q \<notin> R"
  proof
    fix q assume "q \<in> set (map (qf \<circ> snd) (peer_list ord E))"
    then obtain i e where "E i = Some e" "q = qf e" by (auto simp: set_peer_list)
    then show "\<not> cclosed (chans s q) \<and> q \<notin> R"
      using peers_okD [OF assms(1), of i q] by simp
  qed
  show "distinct (map (qf \<circ> snd) (peer_list ord E))"
    unfolding distinct_map
  proof
    show "distinct (peer_list ord E)" using assms(2) by (rule distinct_peer_list)
    show "inj_on (qf \<circ> snd) (set (peer_list ord E))"
    proof (rule inj_onI)
      fix x y assume "x \<in> set (peer_list ord E)" "y \<in> set (peer_list ord E)"
        and eq: "(qf \<circ> snd) x = (qf \<circ> snd) y"
      then have x: "E (fst x) = Some (snd x)" and y: "E (fst y) = Some (snd y)"
        by (auto simp: set_peer_list)
      with eq have "fst x = fst y"
        using peers_ok_inj [OF assms(1), of "fst x" "qf (snd x)" "fst y"] by simp
      with x y show "x = y" by (simp add: prod_eq_iff)
    qed
  qed
qed

lemma peers_ok_empty: "peers_ok P R s \<Longrightarrow> nextc s \<le> nextc s' \<Longrightarrow> peers_ok (map_option qf \<circ> Map.empty) R s'"
  by (auto simp: peers_ok_def)

end
