(* ===== verification/Pipe.thy ===== *)
theory Pipe
  imports PeerQ
begin

text \<open>
  pipe.go: the wrapper the core puts around a transport's pipe, the global table of pipe
  identifiers, and \<^verbatim>\<open>addPipe\<close>/\<^verbatim>\<open>remPipe\<close> of core.go. The transport's own operations are
  parameters.
\<close>

section \<open>Pipe identifiers\<close>

text \<open>
  The loop of \<^verbatim>\<open>newPipe\<close>: the low 31 bits of the counter, skipping zero and the
  identifiers in use. It returns the identifier and the advanced counter.
\<close>

partial_function (option) newPipe_loop :: "(u32 \<rightharpoonup> pref) \<Rightarrow> u32 \<Rightarrow> (u32 \<times> u32) option" where
  "newPipe_loop used nid =
     (let i = nid AND 0x7fffffff
      in if i \<noteq> 0 \<and> used i = None then Some (i, nid + 1)
         else newPipe_loop used (nid + 1))"

declare newPipe_loop.simps [code]

definition newPipe :: "'a heap_scheme \<Rightarrow> (pref \<times> 'a heap_scheme) option" where
  "newPipe s =
     map_option (\<lambda>(i, nid).
       (nextp s, s\<lparr>ptab := (ptab s)(nextp s := \<lparr>p_id = i, p_closing = False, p_closeq = False,
                     p_listener = None, p_dialer = None, p_sock = False, p_open = True\<rparr>),
                   nextp := Suc (nextp s),
                   byid := (byid s)(i \<mapsto> nextp s), nextid := nid\<rparr>))
       (newPipe_loop (byid s) (nextid s))"

definition GetID :: "'a heap_scheme \<Rightarrow> pref \<Rightarrow> u32" where
  "GetID s p = p_id (ptab s p)"

definition upd_pipe :: "pref \<Rightarrow> (pipe \<Rightarrow> pipe) \<Rightarrow> 'a heap_scheme \<Rightarrow> 'a heap_scheme" where
  "upd_pipe p f s = s\<lparr>ptab := (ptab s)(p := f (ptab s p))\<rparr>"

section \<open>remPipe, Close, addPipe\<close>

text \<open>
  \<open>rem\<close> is the protocol's \<^verbatim>\<open>RemoveEndpoint\<close>, the one method of the protocol that closing a
  pipe calls.
\<close>

definition remPipe ::
  "(pref \<Rightarrow> 'a socket_scheme \<Rightarrow> 'a socket_scheme run) \<Rightarrow> pref \<Rightarrow> 'a socket_scheme \<Rightarrow> 'a socket_scheme run" where
  "remPipe rem p s =
     run_bind (rem p s) (\<lambda>s1. Ret (s1\<lparr>pipes := map_option (\<lambda>A. A - {p}) (pipes s1)\<rparr>))"

definition ep_Close ::
  "(pref \<Rightarrow> 'a socket_scheme \<Rightarrow> 'a socket_scheme run) \<Rightarrow> pref \<Rightarrow> 'a socket_scheme \<Rightarrow> 'a socket_scheme run" where
  "ep_Close rem p s =
     (let sock = p_sock (ptab s p);
          hook = (if sock then porthook s else None)
      in if p_closing (ptab s p) then Ret s
         else
           let s1 = upd_pipe p (\<lambda>x. x\<lparr>p_closing := True, p_closeq := True\<rparr>) s
           in run_bind (if sock then remPipe rem p s1 else Ret s1) (\<lambda>s2.
                let s3 = upd_pipe p (\<lambda>x. x\<lparr>p_open := False\<rparr>) s2;
                    s4 = s3\<lparr>byid := (byid s3)(p_id (ptab s3 p) := None)\<rparr>
                in Ret (if hook \<noteq> None
                        then s4\<lparr>hookcalls := hookcalls s4 @ [(PortActionRemove, p)]\<rparr> else s4)))"

definition pipe_Close :: "'a socket_scheme protocol_ops \<Rightarrow> pref \<Rightarrow> 'a socket_scheme \<Rightarrow> 'a socket_scheme run" where
  "pipe_Close proto = ep_Close (op_RemoveEndpoint proto)"

text \<open>
  \<open>addPipe\<close> returns the pipe, or nil when it was refused. \<open>d\<close> and \<open>l\<close> are the dialer and
  the listener it came from.
\<close>

definition addPipe ::
  "'a socket_scheme protocol_ops \<Rightarrow> nat option \<Rightarrow> nat option \<Rightarrow> 'a socket_scheme \<Rightarrow>
   (pref option \<times> 'a socket_scheme) run" where
  "addPipe proto d l s =
     (case newPipe s of
        None \<Rightarrow> Block
      | Some (p, s0) \<Rightarrow>
          let s1 = upd_pipe p (\<lambda>x. x\<lparr>p_dialer := d, p_listener := l\<rparr>) s0;
              refuse = (\<lambda>t. run_bind (pipe_Close proto p t) (\<lambda>t'. Ret (None, t')))
          in if l = None \<and> d = None then refuse s1
             else
               let (ok, s2) = (case porthook s1 of
                     None \<Rightarrow> (True, s1)
                   | Some fn \<Rightarrow> (fn PortActionAdd p,
                                 s1\<lparr>hookcalls := hookcalls s1 @ [(PortActionAdd, p)]\<rparr>))
               in if \<not> ok then refuse s2
                  else (case pipes s2 of
                          None \<Rightarrow> refuse s2
                        | Some A \<Rightarrow>
                            let s3 = upd_pipe p (\<lambda>x. x\<lparr>p_sock := True\<rparr>) s2;
                                s4 = s3\<lparr>pipes := Some (insert p A)\<rparr>
                            in run_bind (op_AddEndpoint proto p s4) (\<lambda>s5. Ret (Some p, s5))))"

section \<open>Sending and receiving through the pipe\<close>

text \<open>\<open>tsend\<close> is the transport's \<^verbatim>\<open>Pipe.Send\<close>; a failed send closes the pipe.\<close>

definition pipe_SendMsg ::
  "'a socket_scheme protocol_ops \<Rightarrow> (mref \<Rightarrow> 'a socket_scheme \<Rightarrow> err option \<times> 'a socket_scheme) \<Rightarrow>
   pref \<Rightarrow> mref \<Rightarrow> 'a socket_scheme \<Rightarrow> (err option \<times> 'a socket_scheme) run" where
  "pipe_SendMsg proto tsend p m s =
     (case tsend m s of
        (None, s1) \<Rightarrow> Ret (None, s1)
      | (Some e, s1) \<Rightarrow> run_bind (pipe_Close proto p s1) (\<lambda>s2. Ret (Some e, s2)))"

text \<open>\<open>r\<close> is what the transport's \<^verbatim>\<open>Pipe.Recv\<close> returned.\<close>

definition pipe_RecvMsg ::
  "'a socket_scheme protocol_ops \<Rightarrow> err + mref \<Rightarrow> pref \<Rightarrow> 'a socket_scheme \<Rightarrow>
   (mref option \<times> 'a socket_scheme) run" where
  "pipe_RecvMsg proto r p s =
     (case r of
        Inl e \<Rightarrow> run_bind (pipe_Close proto p s) (\<lambda>s1. Ret (None, s1))
      | Inr m \<Rightarrow> Ret (Some m, upd_msg m (\<lambda>x. x\<lparr>port := Some p\<rparr>) s))"

definition IsClient :: "pipe \<Rightarrow> bool" where "IsClient p \<longleftrightarrow> p_dialer p \<noteq> None"
definition IsServer :: "pipe \<Rightarrow> bool" where "IsServer p \<longleftrightarrow> p_listener p \<noteq> None"

text \<open>\<open>laddr\<close> is the transport listener's \<^verbatim>\<open>Address()\<close>.\<close>

definition pipe_Address :: "(nat \<Rightarrow> string) \<Rightarrow> 'a socket_scheme \<Rightarrow> pref \<Rightarrow> string" where
  "pipe_Address laddr s p =
     (case p_listener (ptab s p) of
        Some l \<Rightarrow> laddr l
      | None \<Rightarrow> (case p_dialer (ptab s p) of Some d \<Rightarrow> d_addr (dtab s d) | None \<Rightarrow> ''''))"

text \<open>What a pipe tells of itself; \<open>tget\<close>, \<open>tlocal\<close> and \<open>tremote\<close> are methods of the transport's pipe.\<close>

definition pipe_GetProp :: "(pref \<Rightarrow> string \<Rightarrow> err + goval) \<Rightarrow> pref \<Rightarrow> string \<Rightarrow> err + goval" where
  "pipe_GetProp tget p name = tget p name"

definition pipe_IsOpen :: "'a heap_scheme \<Rightarrow> pref \<Rightarrow> bool" where
  "pipe_IsOpen s p = p_open (ptab s p)"

definition pipe_LocalProtocol :: "(pref \<Rightarrow> u16) \<Rightarrow> pref \<Rightarrow> u16" where
  "pipe_LocalProtocol tlocal p = tlocal p"

definition pipe_RemoteProtocol :: "(pref \<Rightarrow> u16) \<Rightarrow> pref \<Rightarrow> u16" where
  "pipe_RemoteProtocol tremote p = tremote p"

definition pipe_Dialer :: "'a heap_scheme \<Rightarrow> pref \<Rightarrow> nat option" where
  "pipe_Dialer s p = p_dialer (ptab s p)"

definition pipe_Listener :: "'a heap_scheme \<Rightarrow> pref \<Rightarrow> nat option" where
  "pipe_Listener s p = p_listener (ptab s p)"

section \<open>The identifier loop terminates and yields a fresh 31-bit identifier\<close>

lemma newPipe_loop_Some:
  assumes "newPipe_loop used nid = Some (i, nid')"
  shows "i \<noteq> 0 \<and> used i = None \<and> i AND 0x7fffffff = i"
proof -
  have "fst (i, nid') \<noteq> 0 \<and> used (fst (i, nid')) = None \<and> fst (i, nid') AND 0x7fffffff = fst (i, nid')"
  proof (rule newPipe_loop.raw_induct
      [where P = "\<lambda>u nid r. fst r \<noteq> 0 \<and> u (fst r) = None \<and> fst r AND 0x7fffffff = fst r", OF _ assms])
    fix f :: "(u32 \<rightharpoonup> pref) \<Rightarrow> u32 \<Rightarrow> (u32 \<times> u32) option" and u nid r
    assume IH: "\<And>u nid r. f u nid = Some r \<Longrightarrow>
        fst r \<noteq> 0 \<and> u (fst r) = None \<and> fst r AND 0x7fffffff = fst r"
      and eq: "(let i = nid AND 0x7fffffff
           in if i \<noteq> 0 \<and> u i = None then Some (i, nid + 1) else f u (nid + 1)) = Some r"
    show "fst r \<noteq> 0 \<and> u (fst r) = None \<and> fst r AND 0x7fffffff = fst r"
    proof (cases "nid AND 0x7fffffff \<noteq> 0 \<and> u (nid AND 0x7fffffff) = None")
      case True
      with eq show ?thesis by (auto simp: Let_def and.assoc)
    next
      case False
      with eq have "f u (nid + 1) = Some r" by (auto simp: Let_def)
      then show ?thesis by (rule IH)
    qed
  qed
  then show ?thesis by simp
qed

lemma newPipe_loop_steps:
  "(nid + of_nat k) AND 0x7fffffff \<noteq> 0 \<Longrightarrow> used ((nid + of_nat k) AND 0x7fffffff) = None \<Longrightarrow>
   newPipe_loop used nid \<noteq> None"
proof (induction k arbitrary: nid)
  case 0
  then show ?case by (subst newPipe_loop.simps) (simp add: Let_def)
next
  case (Suc k)
  have "newPipe_loop used (nid + 1) \<noteq> None"
    using Suc.prems by (intro Suc.IH) (simp_all add: ac_simps)
  then show ?case by (subst newPipe_loop.simps) (simp add: Let_def)
qed

lemma mask31: "(x :: u32) AND 0x7fffffff = take_bit 31 x"
  by (simp add: take_bit_eq_mask mask_numeral)

lemma id_covers: "i AND (0x7fffffff :: u32) = i \<Longrightarrow> \<exists>k. (nid + of_nat k) AND 0x7fffffff = i"
  by (intro exI [of _ "unat (i - nid)"]) simp

text \<open>As long as one of the \<open>2 ^ 31 - 1\<close> identifiers is free the loop ends.\<close>

lemma newPipe_loop_terminates:
  assumes "i \<noteq> 0" "i AND 0x7fffffff = i" "used i = None"
  shows "\<exists>i' nid'. newPipe_loop used nid = Some (i', nid')"
proof -
  from id_covers [OF assms(2)] obtain k where "(nid + of_nat k) AND 0x7fffffff = i" by blast
  with newPipe_loop_steps [of nid k used] assms(1,3) show ?thesis by auto
qed

lemma id31_no_hibit: "i AND (0x7fffffff :: u32) = i \<Longrightarrow> \<not> hibit i"
proof -
  assume "i AND 0x7fffffff = i"
  then have "i = take_bit 31 i" by (simp add: mask31)
  then have "bit i 31 = bit (take_bit 31 i) 31" by metis
  then show ?thesis by (simp add: hibit_def bit_take_bit_iff)
qed

section \<open>The table of pipes\<close>

text \<open>
  Every identifier in the table belongs to an allocated pipe that carries it and is not
  closing; the identifiers are nonzero and 31 bits wide. So two pipes in the table never
  share an identifier.
\<close>

definition ids_ok :: "'a heap_scheme \<Rightarrow> bool" where
  "ids_ok s \<longleftrightarrow> (\<forall>i p. byid s i = Some p \<longrightarrow>
     p < nextp s \<and> p_id (ptab s p) = i \<and> i \<noteq> 0 \<and> \<not> hibit i)"

lemma newPipe_ids_ok:
  assumes "ids_ok s" "newPipe s = Some (p, s')"
  shows "ids_ok s'" and "byid s' (GetID s' p) = Some p" and "byid s (GetID s' p) = None"
    and "GetID s' p \<noteq> 0" and "\<not> hibit (GetID s' p)"
proof -
  from assms(2) obtain i nid where l: "newPipe_loop (byid s) (nextid s) = Some (i, nid)"
    and s': "p = nextp s" "s' = s\<lparr>ptab := (ptab s)(nextp s := \<lparr>p_id = i, p_closing = False, p_closeq = False,
                     p_listener = None, p_dialer = None, p_sock = False, p_open = True\<rparr>),
                   nextp := Suc (nextp s),
                   byid := (byid s)(i \<mapsto> nextp s), nextid := nid\<rparr>"
    by (auto simp: newPipe_def)
  note L = newPipe_loop_Some [OF l]
  have h: "\<not> hibit i" using L id31_no_hibit by blast
  show "ids_ok s'"
    unfolding ids_ok_def
  proof (intro allI impI)
    fix j q assume "byid s' j = Some q"
    then show "q < nextp s' \<and> p_id (ptab s' q) = j \<and> j \<noteq> 0 \<and> \<not> hibit j"
      using assms(1) L h s' by (cases "j = i") (auto simp: ids_ok_def less_SucI)
  qed
  show "byid s' (GetID s' p) = Some p" "byid s (GetID s' p) = None"
    "GetID s' p \<noteq> 0" "\<not> hibit (GetID s' p)"
    using L h s' by (simp_all add: GetID_def)
qed

lemma ids_unique: "ids_ok s \<Longrightarrow> byid s i = Some p \<Longrightarrow> byid s j = Some q \<Longrightarrow>
    GetID s p = GetID s q \<Longrightarrow> p = q"
  unfolding ids_ok_def GetID_def by (metis option.inject)

end
