(* ===== verification/Core.thy ===== *)
theory Core
  imports Pipe
begin

text \<open>
  core.go, the upper half of a socket: creating it, sending and receiving, its options and
  closing it. A blocking call is a step that is enabled when the call can go on; the clock
  readings, and which ready arm a select takes, are arguments. The contract of a protocol's
  option methods is the locale \<open>protocol_impl\<close>; every protocol interprets it.
\<close>

section \<open>newSocket\<close>

definition newSocket :: "'a socket_scheme protocol_ops \<Rightarrow> 'a socket_scheme \<Rightarrow> 'a socket_scheme" where
  "newSocket proto s =
     (let (q1, s1) = new_chan (nat defaultQLen) s;
          (q2, s2) = new_chan (nat defaultQLen) s1
      in op_Init proto (s2\<lparr>
           uwqLen := defaultQLen, urqLen := defaultQLen, uwq := q1, urq := q2,
           closeq := False, recverrq := make_chan 0,
           closing := False, active := False, bestEffort := False,
           recverr := None, senderr := None,
           rdeadline := 0, wdeadline := 0,
           reconntime := 100 * 1000000, reconnmax := 0,
           linger := 1000000000, maxRxSize := defaultMaxRxSize,
           pipes := Some {}, listeners := [], transports := Map.empty,
           porthook := None\<rparr>))"

section \<open>Sending\<close>

text \<open>
  \<^verbatim>\<open>SendMsg\<close> up to its final select: \<open>Some r\<close> when it returns \<open>r\<close> before (an error, or the
  hook dropped the message), \<open>None\<close> when it goes on. \<open>now\<close> is the clock when the expiry is set.
\<close>

definition SendMsg_start ::
  "'a socket_scheme protocol_ops \<Rightarrow> inst \<Rightarrow> mref \<Rightarrow> 'a socket_scheme \<Rightarrow>
   (err option option \<times> 'a socket_scheme) run" where
  "SendMsg_start proto now m s =
     (case senderr s of
        Some e \<Rightarrow> Ret (Some (Some e), s)
      | None \<Rightarrow>
          run_bind (case op_SendHook proto of None \<Rightarrow> Ret (True, s) | Some hook \<Rightarrow> hook m s) (\<lambda>(ok, s1).
            if \<not> ok then Ret (Some None, Free m s1)
            else Ret (None, upd_msg m (\<lambda>x. x\<lparr>expire :=
                   (if wdeadline s1 \<noteq> 0 then Some (now + wdeadline s1) else None)\<rparr>) s1)))"

datatype send_arm = STimeout | SClosed | SSend | SDefault

definition SendMsg_select ::
  "inst \<Rightarrow> inst \<Rightarrow> send_arm \<Rightarrow> mref \<Rightarrow> 'a socket_scheme \<Rightarrow> (err option \<times> 'a socket_scheme) run" where
  "SendMsg_select now t pick m s =
     (let arms = (if \<not> bestEffort s
                  then [(STimeout, timer_ready (mkTimer (wdeadline s) now) t),
                        (SClosed, closeq s), (SSend, send_ready (uwq s) s)]
                  else [(SClosed, closeq s), (SSend, send_ready (uwq s) s)])
      in case go_select arms (if bestEffort s then Some SDefault else None) pick of
           None \<Rightarrow> Block
         | Some STimeout \<Rightarrow> Ret (Some ErrSendTimeout, s)
         | Some SClosed \<Rightarrow> Ret (Some ErrClosed, s)
         | Some SSend \<Rightarrow> run_bind (ch_send (uwq s) m s) (\<lambda>s1. Ret (None, s1))
         | Some SDefault \<Rightarrow> Ret (None, Free m s))"

text \<open>The whole call: \<open>now\<close> at the start, \<open>t\<close> when the select is decided.\<close>

definition SendMsg ::
  "'a socket_scheme protocol_ops \<Rightarrow> inst \<Rightarrow> inst \<Rightarrow> send_arm \<Rightarrow> mref \<Rightarrow> 'a socket_scheme \<Rightarrow>
   (err option \<times> 'a socket_scheme) run" where
  "SendMsg proto now t pick m s =
     run_bind (SendMsg_start proto now m s) (\<lambda>(r, s1).
       case r of Some e \<Rightarrow> Ret (e, s1) | None \<Rightarrow> SendMsg_select now t pick m s1)"

definition Send ::
  "'a socket_scheme protocol_ops \<Rightarrow> mref \<Rightarrow> inst \<Rightarrow> inst \<Rightarrow> send_arm \<Rightarrow> bytes \<Rightarrow> 'a socket_scheme \<Rightarrow>
   (err option \<times> 'a socket_scheme) run" where
  "Send proto fresh now t pick b s =
     (let (m, s1) = NewMessage fresh (length b) s
      in SendMsg proto now t pick m (set_body m (body (msgs s1 m) @ b) s1))"

section \<open>Receiving\<close>

datatype recv_arm = RTimeout | RMsg | RClosed | RErr

datatype recv_res = RDone "err + mref" | RAgain

text \<open>
  One round of \<^verbatim>\<open>RecvMsg\<close>'s loop; \<open>tmr\<close> is the timer made when the call began. The
  channel \<^verbatim>\<open>urq\<close> is never closed; a nil message from it would be dereferenced.
\<close>

definition RecvMsg_iter ::
  "'a socket_scheme protocol_ops \<Rightarrow> inst option \<Rightarrow> inst \<Rightarrow> recv_arm \<Rightarrow> 'a socket_scheme \<Rightarrow>
   (recv_res \<times> 'a socket_scheme) run" where
  "RecvMsg_iter proto tmr t pick s =
     (case recverr s of
        Some e \<Rightarrow> Ret (RDone (Inl e), s)
      | None \<Rightarrow>
         (case go_select [(RTimeout, timer_ready tmr t), (RMsg, recv_ready (urq s) s),
                          (RClosed, closeq s), (RErr, chan_recv_ready (recverrq s))] None pick of
            None \<Rightarrow> Block
          | Some RTimeout \<Rightarrow> Ret (RDone (Inl ErrRecvTimeout), s)
          | Some RMsg \<Rightarrow>
              run_bind (ch_recv (urq s) s) (\<lambda>(m, s1).
                case m of
                  None \<Rightarrow> Panic
                | Some r \<Rightarrow>
                    (case op_RecvHook proto of
                       None \<Rightarrow> Ret (RDone (Inr r), s1)
                     | Some hook \<Rightarrow>
                         run_bind (hook r s1) (\<lambda>(ok, s2).
                           Ret (if ok then (RDone (Inr r), s2) else (RAgain, Free r s2)))))
          | Some RClosed \<Rightarrow> Ret (RDone (Inl ErrClosed), s)
          | Some RErr \<Rightarrow> Ret (RAgain, s\<lparr>recverrq := chan_pop (recverrq s)\<rparr>)))"

text \<open>The loop: one clock reading and one choice for each round.\<close>

fun RecvMsg_loop ::
  "'a socket_scheme protocol_ops \<Rightarrow> inst option \<Rightarrow> (inst \<times> recv_arm) list \<Rightarrow> 'a socket_scheme \<Rightarrow>
   ((err + mref) \<times> 'a socket_scheme) run" where
  "RecvMsg_loop proto tmr [] s = Block"
| "RecvMsg_loop proto tmr ((t, pick) # rounds) s =
     run_bind (RecvMsg_iter proto tmr t pick s) (\<lambda>(r, s1).
       case r of RDone x \<Rightarrow> Ret (x, s1) | RAgain \<Rightarrow> RecvMsg_loop proto tmr rounds s1)"

definition RecvMsg ::
  "'a socket_scheme protocol_ops \<Rightarrow> inst \<Rightarrow> (inst \<times> recv_arm) list \<Rightarrow> 'a socket_scheme \<Rightarrow>
   ((err + mref) \<times> 'a socket_scheme) run" where
  "RecvMsg proto now rounds s = RecvMsg_loop proto (mkTimer (rdeadline s) now) rounds s"

definition Recv ::
  "'a socket_scheme protocol_ops \<Rightarrow> inst \<Rightarrow> (inst \<times> recv_arm) list \<Rightarrow> 'a socket_scheme \<Rightarrow>
   ((err + bytes) \<times> 'a socket_scheme) run" where
  "Recv proto now rounds s =
     run_bind (RecvMsg proto now rounds s) (\<lambda>(r, s1).
       case r of
         Inl e \<Rightarrow> Ret (Inl e, s1)
       | Inr m \<Rightarrow> Ret (Inr (body (msgs s1 m)), Free m s1))"

section \<open>Options\<close>

definition sock_SetOption ::
  "'a socket_scheme protocol_ops \<Rightarrow> string \<Rightarrow> goval \<Rightarrow> 'a socket_scheme \<Rightarrow>
   (err option \<times> 'a socket_scheme) run" where
  "sock_SetOption proto name v s =
     (let (e, s1) = op_SetOption proto name v s;
          matched = (e = None)
      in if e \<noteq> None \<and> e \<noteq> Some ErrBadOption then Ret (e, s1)
         else if name = OptionRecvDeadline then
           (case v of VDur d \<Rightarrow> Ret (None, s1\<lparr>rdeadline := d\<rparr>) | _ \<Rightarrow> Panic)
         else if name = OptionSendDeadline then
           (case v of VDur d \<Rightarrow> Ret (None, s1\<lparr>wdeadline := d\<rparr>) | _ \<Rightarrow> Panic)
         else if name = OptionLinger then
           (case v of VDur d \<Rightarrow> Ret (None, s1\<lparr>linger := d\<rparr>) | _ \<Rightarrow> Panic)
         else if name = OptionWriteQLen then
           (if active s1 then Ret (Some ErrBadOption, s1)
            else case v of
                   VInt n \<Rightarrow>
                     if n < 0 then Ret (Some ErrBadValue, s1)
                     else let owq = uwq s1;
                              (q, s2) = new_chan (nat n) (s1\<lparr>uwqLen := n\<rparr>)
                          in run_bind (ch_close owq (s2\<lparr>uwq := q\<rparr>)) (\<lambda>s3. Ret (None, s3))
                 | _ \<Rightarrow> Panic)
         else if name = OptionReadQLen then
           (if active s1 then Ret (Some ErrBadOption, s1)
            else case v of
                   VInt n \<Rightarrow>
                     if n < 0 then Ret (Some ErrBadValue, s1)
                     else let (q, s2) = new_chan (nat n) (s1\<lparr>urqLen := n\<rparr>)
                          in Ret (None, s2\<lparr>urq := q\<rparr>)
                 | _ \<Rightarrow> Panic)
         else if name = OptionMaxRecvSize then
           (case v of
              VInt n \<Rightarrow> if n < 0 then Ret (Some ErrBadValue, s1) else Ret (None, s1\<lparr>maxRxSize := n\<rparr>)
            | _ \<Rightarrow> Ret (Some ErrBadValue, s1))
         else if name = OptionReconnectTime then
           (case v of VDur d \<Rightarrow> Ret (None, s1\<lparr>reconntime := d\<rparr>) | _ \<Rightarrow> Panic)
         else if name = OptionMaxReconnectTime then
           (case v of VDur d \<Rightarrow> Ret (None, s1\<lparr>reconnmax := d\<rparr>) | _ \<Rightarrow> Panic)
         else if name = OptionBestEffort then
           (case v of VBool b \<Rightarrow> Ret (None, s1\<lparr>bestEffort := b\<rparr>) | _ \<Rightarrow> Panic)
         else Ret (if matched then None else Some ErrBadOption, s1))"

text \<open>\<open>get\<close> is the protocol's \<^verbatim>\<open>GetOption\<close>.\<close>

definition core_GetOption ::
  "(string \<Rightarrow> 'a socket_scheme \<Rightarrow> err + goval) \<Rightarrow> string \<Rightarrow> 'a socket_scheme \<Rightarrow> err + goval" where
  "core_GetOption get name s =
     (case get name s of
        Inr v \<Rightarrow> Inr v
      | Inl e \<Rightarrow>
          if e \<noteq> ErrBadOption then Inl e
          else if name = OptionRecvDeadline then Inr (VDur (rdeadline s))
          else if name = OptionSendDeadline then Inr (VDur (wdeadline s))
          else if name = OptionLinger then Inr (VDur (linger s))
          else if name = OptionWriteQLen then Inr (VInt (uwqLen s))
          else if name = OptionReadQLen then Inr (VInt (urqLen s))
          else if name = OptionMaxRecvSize then Inr (VInt (maxRxSize s))
          else if name = OptionReconnectTime then Inr (VDur (reconntime s))
          else if name = OptionMaxReconnectTime then Inr (VDur (reconnmax s))
          else Inl ErrBadOption)"

definition sock_GetOption ::
  "'a socket_scheme protocol_ops \<Rightarrow> string \<Rightarrow> 'a socket_scheme \<Rightarrow> err + goval" where
  "sock_GetOption proto = core_GetOption (op_GetOption proto)"

text \<open>
  The depth of a peer's queue as bus, star and pub choose it when an endpoint is added:
  the write queue length of the socket (never negative), or 16.
\<close>

definition peer_depth ::
  "(string \<Rightarrow> 'a socket_scheme \<Rightarrow> err + goval) \<Rightarrow> 'a socket_scheme \<Rightarrow> nat" where
  "peer_depth get s =
     (case core_GetOption get OptionWriteQLen s of Inr (VInt i) \<Rightarrow> nat i | _ \<Rightarrow> 16)"

lemma peer_depth_core: "get OptionWriteQLen s = Inl ErrBadOption \<Longrightarrow> peer_depth get s = nat (uwqLen s)"
  by (simp add: peer_depth_def core_GetOption_def option_name)

definition SetPortHook :: "porthook option \<Rightarrow> 'a socket_scheme \<Rightarrow> porthook option \<times> 'a socket_scheme" where
  "SetPortHook newhook s = (porthook s, s\<lparr>porthook := newhook\<rparr>)"

section \<open>Close\<close>

text \<open>
  \<open>lclose\<close> is the transport's \<^verbatim>\<open>PipeListener.Close\<close>; \<open>ord\<close> and \<open>pord\<close> are the orders of
  the two map iterations. The drains only wait.
\<close>

fun close_pipes :: "'a socket_scheme protocol_ops \<Rightarrow> pref list \<Rightarrow> 'a socket_scheme \<Rightarrow> 'a socket_scheme run" where
  "close_pipes proto [] s = Ret s"
| "close_pipes proto (p # ps) s = run_bind (pipe_Close proto p s) (close_pipes proto ps)"

definition sock_Close ::
  "'a socket_scheme protocol_ops \<Rightarrow> (nat \<Rightarrow> 'a socket_scheme \<Rightarrow> 'a socket_scheme) \<Rightarrow>
   u32 list \<Rightarrow> pref list \<Rightarrow> 'a socket_scheme \<Rightarrow> (err option \<times> 'a socket_scheme) run" where
  "sock_Close proto lclose ord pord s =
     (if closing s then Ret (Some ErrClosed, s)
      else if closeq s then Panic
      else
        let s1 = s\<lparr>closing := True, closeq := True\<rparr>;
            s2 = fold (\<lambda>l t. lclose (l_tran (ltab t l)) t) (listeners s1) s1;
            ps = pipes s2;
            s3 = s2\<lparr>pipes := None\<rparr>
        in run_bind (op_Shutdown proto ord s3) (\<lambda>s4.
             run_bind (close_pipes proto (filter (\<lambda>p. case ps of None \<Rightarrow> False | Some A \<Rightarrow> p \<in> A) pord) s4) (\<lambda>s5.
               Ret (None, s5))))"

section \<open>Facts about sending and receiving\<close>

lemma go_select_dflt_not_None: "go_select arms (Some d) pick \<noteq> None"
  by (simp add: go_select_def Let_def)

lemma SendMsg_select_bestEffort:
  "bestEffort s \<Longrightarrow> \<not> cclosed (chans s (uwq s)) \<Longrightarrow>
   SendMsg_select now t pick m s =
     (if chan_room (chans s (uwq s)) \<and> (pick = SSend \<or> \<not> closeq s) then Ret (None, push_on (uwq s) m s)
      else if closeq s then Ret (Some ErrClosed, s)
      else Ret (None, Free m s))"
  by (cases pick) (auto simp: SendMsg_select_def go_select_def chan_cases Let_def)

lemma SendMsg_select_blocking:
  assumes "\<not> bestEffort s" "\<not> cclosed (chans s (uwq s))" "SendMsg_select now t pick m s = Ret (e, s')"
  shows "(e = None \<and> chan_room (chans s (uwq s)) \<and> s' = push_on (uwq s) m s) \<or>
         (e = Some ErrSendTimeout \<and> wdeadline s \<noteq> 0 \<and> now + wdeadline s \<le> t \<and> s' = s) \<or>
         (e = Some ErrClosed \<and> closeq s \<and> s' = s)"
  using assms
  by (auto simp: SendMsg_select_def go_select_def chan_cases timer_ready_def mkTimer_def Let_def
           split: if_splits send_arm.splits option.splits)

lemma SendMsg_senderr: "senderr s = Some e \<Longrightarrow> SendMsg proto now t pick m s = Ret (Some e, s)"
  by (simp add: SendMsg_def SendMsg_start_def)

lemma RecvMsg_recverr:
  "recverr s = Some e \<Longrightarrow> RecvMsg proto now (x # rounds) s = Ret (Inl e, s)"
  by (cases x) (simp add: RecvMsg_def RecvMsg_iter_def)

section \<open>The contract of a protocol's options\<close>

definition core_options :: "string list" where
  "core_options = [OptionRecvDeadline, OptionSendDeadline, OptionLinger, OptionWriteQLen,
     OptionReadQLen, OptionMaxRecvSize, OptionReconnectTime, OptionMaxReconnectTime]"

text \<open>What the option methods of a protocol must leave alone.\<close>

definition sock_cfg :: "'a socket_scheme \<Rightarrow> _" where
  "sock_cfg s = (active s, closing s, closeq s, bestEffort s, (uwq s, uwqLen s, urq s, urqLen s),
     (chans s, nextc s, msgs s), (rdeadline s, wdeadline s, linger s),
     (reconntime s, reconnmax s, maxRxSize s), pipes s)"

definition wrong_type :: "string \<Rightarrow> goval \<Rightarrow> bool" where
  "wrong_type name v \<longleftrightarrow>
     (name \<in> {OptionRecvDeadline, OptionSendDeadline, OptionLinger, OptionReconnectTime,
              OptionMaxReconnectTime} \<and> (\<forall>d. v \<noteq> VDur d)) \<or>
     (name \<in> {OptionWriteQLen, OptionReadQLen} \<and> (\<forall>n. v \<noteq> VInt n)) \<or>
     (name = OptionBestEffort \<and> (\<forall>b. v \<noteq> VBool b))"

lemma wrong_type_code [code]:
  "wrong_type name v \<longleftrightarrow>
     (name \<in> {OptionRecvDeadline, OptionSendDeadline, OptionLinger, OptionReconnectTime,
              OptionMaxReconnectTime} \<and> (case v of VDur d \<Rightarrow> False | _ \<Rightarrow> True)) \<or>
     (name \<in> {OptionWriteQLen, OptionReadQLen} \<and> (case v of VInt n \<Rightarrow> False | _ \<Rightarrow> True)) \<or>
     (name = OptionBestEffort \<and> (case v of VBool b \<Rightarrow> False | _ \<Rightarrow> True))"
  by (cases v) (auto simp: wrong_type_def)

locale protocol_impl =
  fixes proto :: "'a socket_scheme protocol_ops"
  assumes set_core: "n \<in> set (OptionBestEffort # core_options) \<Longrightarrow>
      op_SetOption proto n v s = (Some ErrBadOption, s)"
    and get_core: "n \<in> set (OptionBestEffort # core_options) \<Longrightarrow>
      op_GetOption proto n s = Inl ErrBadOption"
    and set_errs: "fst (op_SetOption proto n v s) \<in> {None, Some ErrBadOption, Some ErrBadValue}"
    and set_bad: "op_SetOption proto n v s = (Some ErrBadOption, s') \<Longrightarrow> s' = s"
    and set_frame: "sock_cfg (snd (op_SetOption proto n v s)) = sock_cfg s"
    and get_errs: "op_GetOption proto n s = Inl e \<Longrightarrow> e = ErrBadOption"
    and raw_get: "op_GetOption proto OptionRaw (snd (op_SetOption proto OptionRaw (VBool b) s)) = Inr (VBool b)"
    and raw_set: "fst (op_SetOption proto OptionRaw v s) =
      (case v of VBool b \<Rightarrow> None | _ \<Rightarrow> Some ErrBadValue)"
begin

text \<open>A core option that was set is the option that is read back.\<close>

lemma set_get_core:
  assumes "n \<in> set core_options" "sock_SetOption proto n v s = Ret (None, s')"
  shows "sock_GetOption proto n s' = Inr v"
proof -
  have sc: "op_SetOption proto n v s = (Some ErrBadOption, s)"
    and gc: "op_GetOption proto n s' = Inl ErrBadOption"
    using assms(1) set_core [of n v s] get_core [of n s'] by auto
  from assms(1) consider "n = OptionRecvDeadline" | "n = OptionSendDeadline" | "n = OptionLinger"
    | "n = OptionWriteQLen" | "n = OptionReadQLen" | "n = OptionMaxRecvSize"
    | "n = OptionReconnectTime" | "n = OptionMaxReconnectTime"
    by (auto simp: core_options_def)
  then show ?thesis
    by cases (use assms(2) sc gc in \<open>auto simp: sock_SetOption_def sock_GetOption_def core_GetOption_def option_name
        new_chan_def chan_cases close_on_def run_bind_Ret_iff Let_def split: goval.splits if_splits\<close>)
qed

text \<open>Switching raw mode succeeds and is seen by GetOption.\<close>

lemma set_raw:
  "sock_SetOption proto OptionRaw (VBool b) s = Ret (None, snd (op_SetOption proto OptionRaw (VBool b) s))"
  using raw_set [of "VBool b" s]
  by (cases "op_SetOption proto OptionRaw (VBool b) s") (simp add: sock_SetOption_def option_name)

lemma get_raw:
  "sock_SetOption proto OptionRaw (VBool b) s = Ret (None, s') \<Longrightarrow> sock_GetOption proto OptionRaw s' = Inr (VBool b)"
  using raw_get [of b s] by (auto simp: set_raw sock_GetOption_def core_GetOption_def)

text \<open>An option neither the protocol nor the core knows is refused and changes nothing.\<close>

lemma unknown_option:
  assumes "op_SetOption proto n v s = (Some ErrBadOption, s')" "n \<notin> set (OptionBestEffort # core_options)"
  shows "sock_SetOption proto n v s = Ret (Some ErrBadOption, s)"
  using assms set_bad [OF assms(1)] by (simp add: sock_SetOption_def core_options_def)

text \<open>The queue lengths are frozen once the socket has dialed or listened.\<close>

lemma qlen_frozen:
  assumes "active s" "n = OptionWriteQLen \<or> n = OptionReadQLen"
  shows "sock_SetOption proto n v s = Ret (Some ErrBadOption, s)"
proof -
  have "op_SetOption proto n v s = (Some ErrBadOption, s)"
    using assms(2) set_core [of n v s] by (auto simp: core_options_def)
  with assms show ?thesis by (auto simp: sock_SetOption_def option_name)
qed

text \<open>
  The one-value type assertions: a value of the wrong dynamic type panics, except for the
  queue lengths of an active socket, which are refused before the value is looked at.
\<close>

lemma wrong_type_panics:
  assumes "wrong_type n v" "\<not> active s"
  shows "sock_SetOption proto n v s = Panic"
proof -
  have "n \<in> set (OptionBestEffort # core_options)"
    using assms(1) by (auto simp: wrong_type_def core_options_def)
  note op = set_core [OF this, of v s]
  from assms(1) consider
      "n \<in> {OptionRecvDeadline, OptionSendDeadline, OptionLinger, OptionReconnectTime, OptionMaxReconnectTime}"
      "\<And>d. v \<noteq> VDur d"
    | "n \<in> {OptionWriteQLen, OptionReadQLen}" "\<And>i. v \<noteq> VInt i"
    | "n = OptionBestEffort" "\<And>b. v \<noteq> VBool b"
    unfolding wrong_type_def by blast
  then show ?thesis
    by cases (use op assms(2) in \<open>auto simp: sock_SetOption_def option_name split: goval.split\<close>)
qed

lemma wrong_deadline_panics:
  assumes "n = OptionRecvDeadline \<or> n = OptionSendDeadline \<or> n = OptionLinger" "\<And>d. v \<noteq> VDur d"
  shows "sock_SetOption proto n v s = Panic"
proof -
  have nd: "(case v of VDur d \<Rightarrow> f d | _ \<Rightarrow> Panic) = Panic" for f :: "dur \<Rightarrow> (err option \<times> 'a socket_scheme) run"
    using assms(2) by (cases v) auto
  from assms(1) show ?thesis
  proof (elim disjE)
    assume n: "n = OptionRecvDeadline"
    then have "op_SetOption proto n v s = (Some ErrBadOption, s)"
      by (intro set_core) (simp add: core_options_def)
    then show ?thesis unfolding sock_SetOption_def by (simp add: n nd)
  next
    assume n: "n = OptionSendDeadline"
    then have "op_SetOption proto n v s = (Some ErrBadOption, s)"
      by (intro set_core) (simp add: core_options_def)
    then show ?thesis unfolding sock_SetOption_def by (simp add: n nd)
  next
    assume n: "n = OptionLinger"
    then have "op_SetOption proto n v s = (Some ErrBadOption, s)"
      by (intro set_core) (simp add: core_options_def)
    then show ?thesis unfolding sock_SetOption_def by (simp add: n nd)
  qed
qed

lemma right_type_no_panic:
  assumes "\<not> wrong_type n v" "\<not> cclosed (chans s (uwq s))" "uwq s < nextc s"
  shows "sock_SetOption proto n v s \<noteq> Panic"
proof -
  obtain e s1 where es: "op_SetOption proto n v s = (e, s1)" by fastforce
  from set_frame [of n v s] es have fr: "chans s1 = chans s" "uwq s1 = uwq s" "nextc s1 = nextc s"
    by (simp_all add: sock_cfg_def)
  show ?thesis
    using assms es fr
    by (cases v) (auto simp: sock_SetOption_def wrong_type_def new_chan_def chan_cases)
qed

end

section \<open>A socket to start from\<close>

text \<open>
  The state before anything happened: Go's zero values, an empty heap, and \<open>x\<close> for the
  fields of the protocol.
\<close>

definition socket0 :: "'a \<Rightarrow> 'a socket_scheme" where
  "socket0 x = \<lparr>msgs = (\<lambda>_. newMsg 0), nextm = 0, mpool = [], chans = (\<lambda>_. make_chan 0), nextc = 0,
     ptab = (\<lambda>_. \<lparr>p_id = 0, p_closing = False, p_closeq = False, p_listener = None,
       p_dialer = None, p_sock = False, p_open = False\<rparr>),
     nextp = 0, byid = Map.empty, nextid = 0, gos = [],
     uwq = 0, uwqLen = 0, urq = 0, urqLen = 0, closeq = False, recverrq = make_chan 0,
     closing = False, active = False, bestEffort = False, recverr = None, senderr = None,
     rdeadline = 0, wdeadline = 0, reconntime = 0, reconnmax = 0, linger = 0, maxRxSize = 0,
     pipes = None, listeners = [],
     dtab = (\<lambda>_. \<lparr>d_tran = 0, d_addr = [], d_closed = False, d_active = False, d_closeq = False\<rparr>),
     nextd = 0, ltab = (\<lambda>_. \<lparr>l_tran = 0, l_addr = []\<rparr>), nextl = 0,
     transports = Map.empty, porthook = None, hookcalls = [], \<dots> = x\<rparr>"

section \<open>Closing\<close>

lemma sock_Close_twice:
  assumes "closing s"
  shows "sock_Close proto lclose ord pord s = Ret (Some ErrClosed, s)"
  using assms by (simp add: sock_Close_def)

end
