(* ===== verification/Backtrace.thy ===== *)
theory Backtrace
  imports Core
begin

text \<open>
  The backtrace of a request: the hops a message went through, as 32-bit words, ended by a
  word with the high-order bit set (the request or survey identifier). rep and respondent
  move it from the body to the header in the same loop; \<open>bt_parse\<close> is what that loop
  computes, as a function of the body alone.
\<close>

section \<open>The loop of the receivers\<close>

text \<open>
  \<open>(True, s')\<close>: the whole backtrace is in the header; \<open>(False, s')\<close>: too many hops or a
  short body, and the message was freed.
\<close>

function backtrace_loop :: "int \<Rightarrow> int \<Rightarrow> mref \<Rightarrow> 'a heap_scheme \<Rightarrow> bool \<times> 'a heap_scheme" where
  "backtrace_loop ttl hops m s =
     (if ttl \<le> hops then (False, Free m s)
      else if length (body (msgs s m)) < 4 then (False, Free m s)
      else
        let s1 = move4 m s;
            h = hdr_bytes (msgs s1 m)
        in if (h ! (length h - 4)) AND 0x80 \<noteq> 0 then (True, s1)
           else backtrace_loop ttl (hops + 1) m s1)"
  by pat_completeness auto
termination
  by (relation "measure (\<lambda>(ttl, hops, m, s). length (body (msgs s m)))") (auto simp: move4_eff)

declare backtrace_loop.simps [simp del]

section \<open>The reference: splitting a body\<close>

fun bt_parse :: "int \<Rightarrow> int \<Rightarrow> bytes \<Rightarrow> (bytes \<times> bytes) option" where
  "bt_parse ttl hops (a # b # c # d # rest) =
     (if ttl \<le> hops then None
      else if a AND 0x80 \<noteq> 0 then Some ([a, b, c, d], rest)
      else map_option (\<lambda>(bt, r). ([a, b, c, d] @ bt, r)) (bt_parse ttl (hops + 1) rest))"
| "bt_parse ttl hops _ = None"

lemma hdr_bytes_move4:
  assumes "body (msgs s m) = a # b # c # d # rest"
  shows "hdr_bytes (msgs (move4 m s) m) = hdr_bytes (msgs s m) @ [a, b, c, d]"
    and "body (msgs (move4 m s) m) = rest"
  using assms by (simp_all add: move4_eff hdr_bytes_slice)

lemma move4_4:
  assumes "hdr (msgs s m) = Some h" "body (msgs s m) = a # b # c # d # rest"
  shows "move4 m s = s\<lparr>msgs := (msgs s)(m := (msgs s m)\<lparr>hdr := Some (h @ [a, b, c, d]), body := rest\<rparr>)\<rparr>"
  using assms by (simp add: move4_eff)

lemma backtrace_loop_parse:
  assumes "hdr (msgs s m) = Some h"
  shows "case bt_parse ttl hops (body (msgs s m)) of
           Some (bt, rest) \<Rightarrow> backtrace_loop ttl hops m s =
             (True, s\<lparr>msgs := (msgs s)(m := (msgs s m)\<lparr>hdr := Some (h @ bt), body := rest\<rparr>)\<rparr>)
         | None \<Rightarrow> \<exists>h' b'. backtrace_loop ttl hops m s =
             (False, Free m (s\<lparr>msgs := (msgs s)(m := (msgs s m)\<lparr>hdr := Some h', body := b'\<rparr>)\<rparr>))"
  using assms
proof (induction "length (body (msgs s m))" arbitrary: s h hops rule: less_induct)
  case less
  have same: "s = s\<lparr>msgs := (msgs s)(m := (msgs s m)\<lparr>hdr := Some h, body := body (msgs s m)\<rparr>)\<rparr>"
  proof -
    have "(msgs s m)\<lparr>hdr := Some h, body := body (msgs s m)\<rparr> = msgs s m"
      using less.prems by (cases "msgs s m") simp
    then show ?thesis by simp
  qed
  show ?case
  proof (cases "ttl \<le> hops \<or> length (body (msgs s m)) < 4")
    case True
    then have "bt_parse ttl hops (body (msgs s m)) = None"
      by (cases "(ttl, hops, body (msgs s m))" rule: bt_parse.cases) auto
    moreover have "backtrace_loop ttl hops m s = (False, Free m s)"
      using True by (subst backtrace_loop.simps) auto
    moreover have "\<exists>h' b'. Free m s =
        Free m (s\<lparr>msgs := (msgs s)(m := (msgs s m)\<lparr>hdr := Some h', body := b'\<rparr>)\<rparr>)"
      by (intro exI) (rule arg_cong [OF same])
    ultimately show ?thesis by simp
  next
    case False
    then obtain a b c d rest where bd: "body (msgs s m) = a # b # c # d # rest"
      by (cases "body (msgs s m)" rule: be_Uint32.cases) auto
    define s1 where "s1 = move4 m s"
    have s1: "s1 = s\<lparr>msgs := (msgs s)(m := (msgs s m)\<lparr>hdr := Some (h @ [a, b, c, d]), body := rest\<rparr>)\<rparr>"
      using move4_4 [OF less.prems bd] by (simp add: s1_def)
    have hb: "hdr_bytes (msgs s1 m) = h @ [a, b, c, d]" by (simp add: s1 hdr_bytes_def)
    have step: "backtrace_loop ttl hops m s =
        (if a AND 0x80 \<noteq> 0 then (True, s1) else backtrace_loop ttl (hops + 1) m s1)"
      using False hb by (subst backtrace_loop.simps) (simp add: s1_def [symmetric] Let_def nth_append)
    show ?thesis
    proof (cases "a AND 0x80 \<noteq> 0")
      case True
      with step False bd s1 show ?thesis by simp
    next
      case nb: False
      have IH: "case bt_parse ttl (hops + 1) (body (msgs s1 m)) of
           Some (bt, rest) \<Rightarrow> backtrace_loop ttl (hops + 1) m s1 =
             (True, s1\<lparr>msgs := (msgs s1)(m := (msgs s1 m)\<lparr>hdr := Some ((h @ [a, b, c, d]) @ bt), body := rest\<rparr>)\<rparr>)
         | None \<Rightarrow> \<exists>h' b'. backtrace_loop ttl (hops + 1) m s1 =
             (False, Free m (s1\<lparr>msgs := (msgs s1)(m := (msgs s1 m)\<lparr>hdr := Some h', body := b'\<rparr>)\<rparr>))"
        by (rule less.hyps) (simp_all add: s1 bd)
      have b1: "body (msgs s1 m) = rest" by (simp add: s1)
      show ?thesis
      proof (cases "bt_parse ttl (hops + 1) rest")
        case None
        with IH b1 step nb bd False show ?thesis by (auto simp: s1)
      next
        case (Some r)
        with IH b1 step nb bd False show ?thesis by (auto simp: s1 split: prod.splits)
      qed
    qed
  qed
qed

section \<open>What parses\<close>

definition path_bytes :: "u32 list \<Rightarrow> bytes" where
  "path_bytes ids = concat (map be32 ids)"

lemma path_bytes_simps [simp]:
  "path_bytes [] = []" "path_bytes (i # ids) = be32 i @ path_bytes ids"
  "path_bytes (xs @ ys) = path_bytes xs @ path_bytes ys"
  by (simp_all add: path_bytes_def)

lemma bt_parse_be32:
  "bt_parse ttl hops (be32 v @ rest) =
     (if ttl \<le> hops then None
      else if hibit v then Some (be32 v, rest)
      else map_option (\<lambda>(bt, r). (be32 v @ bt, r)) (bt_parse ttl (hops + 1) rest))"
proof -
  obtain a b c d where e: "be32 v = [a, b, c, d]" by (simp add: be32_def)
  have "(a AND 0x80 \<noteq> 0) = hibit v" using be32_hibit [of v] e by simp
  with e show ?thesis by auto
qed

text \<open>
  A path of hop identifiers (high bit clear) and the closing identifier (high bit set) is
  split off exactly when it fits the hop limit.
\<close>

lemma bt_parse_path:
  "\<forall>i \<in> set ids. \<not> hibit i \<Longrightarrow> hibit v \<Longrightarrow>
   bt_parse ttl hops (path_bytes ids @ be32 v @ rest) =
     (if hops + int (length ids) < ttl then Some (path_bytes ids @ be32 v, rest) else None)"
proof (induction ids arbitrary: hops)
  case Nil
  then show ?case by (simp add: bt_parse_be32)
next
  case (Cons i ids)
  then show ?case by (auto simp: bt_parse_be32)
qed

lemma bt_parse_Some:
  "bt_parse ttl hops bs = Some (bt, rest) \<Longrightarrow>
     bs = bt @ rest \<and> 4 \<le> length bt \<and> int (length bt) \<le> 4 * (ttl - hops)"
proof (induction ttl hops bs arbitrary: bt rule: bt_parse.induct)
  case (1 ttl hops a b c d r)
  show ?case
  proof (cases "a AND 0x80 \<noteq> 0")
    case True
    with "1.prems" show ?thesis by (auto split: if_splits)
  next
    case False
    with "1.prems" obtain bt' where "bt = [a, b, c, d] @ bt'" "\<not> ttl \<le> hops"
        "bt_parse ttl (hops + 1) r = Some (bt', rest)"
      by (auto split: if_splits)
    with "1.IH" [of bt'] False show ?thesis by auto
  qed
qed auto

end
