(* ===== verification/Peer_Sys.thy ===== *)
theory Peer_Sys
  imports Backtrace
begin

text \<open>
  A running socket of a protocol that keeps one queue for each peer (rep, surveyor, bus,
  star, pub): the loop of its sender goroutine, and all its goroutines together as a system
  of events. The locale \<open>peer_sys\<close> lists what a protocol's own operations must do for no
  goroutine ever to panic, whatever the interleaving; each of these protocols interprets it.
\<close>

section \<open>The loop of the top sender\<close>

text \<open>
  One round of the \<^verbatim>\<open>sender\<close> goroutine; \<open>sq\<close> is the send channel it holds, \<open>fin\<close> its
  deferred \<^verbatim>\<open>w.Done()\<close>, \<open>handle\<close> what it does with a message.
\<close>

definition sender_loop ::
  "('a socket_scheme \<Rightarrow> 'a socket_scheme run) \<Rightarrow> (mref \<Rightarrow> 'a socket_scheme \<Rightarrow> 'a socket_scheme run) \<Rightarrow>
   top_arm \<Rightarrow> cref \<Rightarrow> 'a socket_scheme \<Rightarrow> ((ctl \<times> cref) \<times> 'a socket_scheme) run" where
  "sender_loop fin handle pick sq s =
     run_bind (top_recv pick sq s) (\<lambda>t.
       case t of
         TopClosed \<Rightarrow> run_bind (fin s) (\<lambda>s1. Ret ((Exit, sq), s1))
       | TopRefetch s1 \<Rightarrow> Ret ((Loop, SendChannel s1), s1)
       | TopMsg m s1 \<Rightarrow> run_bind (handle m s1) (\<lambda>s2. Ret ((Loop, sq), s2)))"

section \<open>Quiet steps\<close>

text \<open>
  A step that only sends, receives and frees: it touches no closed flag, allocates no
  channel, and leaves the protocol's own state alone.
\<close>

definition quiet :: "'a socket_scheme \<Rightarrow> 'a socket_scheme \<Rightarrow> bool" where
  "quiet s s' \<longleftrightarrow> socket.more s' = socket.more s \<and> nextc s' = nextc s \<and>
     uwq s' = uwq s \<and> urq s' = urq s \<and> (\<forall>q. cclosed (chans s' q) = cclosed (chans s q))"

lemma quiet_simps [simp]:
  "quiet s s" "quiet s (Free m s)" "quiet s (Dup m s)" "quiet s (push_on q m s)" "quiet s (pop_on q s)"
  "quiet s (s\<lparr>msgs := f\<rparr>)" "quiet s (Free r (s\<lparr>msgs := f\<rparr>))" "quiet s (push_on q m (s\<lparr>msgs := f\<rparr>))"
  "quiet s (Free r (pop_on q s))"
  by (auto simp: quiet_def msg_eff chan_eff)

lemma quiet_trans [trans]: "quiet s t \<Longrightarrow> quiet t u \<Longrightarrow> quiet s u"
  by (simp add: quiet_def)

lemma quiet_Free: "quiet s t \<Longrightarrow> quiet s (Free m t)"
  by (erule quiet_trans) simp

lemma backtrace_loop_quiet: "quiet s (snd (backtrace_loop ttl hops m s))"
proof (induction ttl hops m s rule: backtrace_loop.induct)
  case (1 ttl hops m s)
  then show ?case
    by (subst backtrace_loop.simps) (auto simp: Let_def quiet_def msg_eff)
qed

lemma offer_quiet: "\<not> cclosed (chans s q) \<Longrightarrow> \<exists>s'. offer q m s = Ret s' \<and> quiet s s'"
  by (simp add: offer_cases)

lemma bcast_quiet:
  "\<forall>q \<in> set qs. \<not> cclosed (chans s q) \<Longrightarrow> \<exists>s'. bcast qs m s = Ret s' \<and> quiet s s'"
proof (induction qs arbitrary: s)
  case Nil
  show ?case by simp
next
  case (Cons q qs)
  have "\<not> cclosed (chans (Dup m s) q)" using Cons.prems by (simp add: msg_eff)
  then obtain s1 where s1: "offer q m (Dup m s) = Ret s1" "quiet (Dup m s) s1"
    using offer_quiet by blast
  have q1: "quiet s s1" by (rule quiet_trans [OF _ s1(2)]) simp
  then have "\<forall>q \<in> set qs. \<not> cclosed (chans s1 q)" using Cons.prems by (simp add: quiet_def)
  then obtain s2 where "bcast qs m s1 = Ret s2" "quiet s1 s2" using Cons.IH by blast
  with s1(1) quiet_trans [OF q1] show ?case by auto
qed

lemma up_send_quiet:
  "\<not> cclosed (chans s rq) \<Longrightarrow> up_send pick rq m s \<noteq> Panic \<and>
   (\<forall>b s'. up_send pick rq m s = Ret (b, s') \<longrightarrow> quiet s s')"
  by (simp add: up_send_cases)

lemma up_try_quiet:
  "\<not> cclosed (chans s rq) \<Longrightarrow> \<exists>b s'. up_try pick rq m s = Ret (b, s') \<and> quiet s s'"
  by (simp add: up_try_cases)

section \<open>The system of goroutines\<close>

text \<open>
  A configuration: the send channel the sender goroutine holds (\<open>None\<close> once it left), and
  the state. An event is one step of one goroutine or one call of the core. \<open>EPeer q e\<close> is
  the sender of the peer with queue \<open>q\<close>, whose endpoint answers \<open>e\<close>; \<open>'p\<close> is what a receiver
  knows of its endpoint. The lists are the orders in which the run-time iterates over the
  map of peers. The receivers hold the receive channel that was current when they started,
  which cannot change afterwards: a socket with a peer is active.
\<close>

datatype 'p sys_event =
    ESender "u32 list" top_arm
  | EReceiver "u32 list" up_arm 'p "mref option"
  | EPeer cref "err option"
  | EAdd pref
  | ERem pref
  | EShutdown "u32 list"

fun sys_step ::
  "'a socket_scheme protocol_ops \<Rightarrow>
   (u32 list \<Rightarrow> top_arm \<Rightarrow> cref \<Rightarrow> 'a socket_scheme \<Rightarrow> ((ctl \<times> cref) \<times> 'a socket_scheme) run) \<Rightarrow>
   (u32 list \<Rightarrow> up_arm \<Rightarrow> cref \<Rightarrow> 'p \<Rightarrow> mref option \<Rightarrow> 'a socket_scheme \<Rightarrow> (ctl \<times> 'a socket_scheme) run) \<Rightarrow>
   'p sys_event \<Rightarrow> cref option \<times> 'a socket_scheme \<Rightarrow> (cref option \<times> 'a socket_scheme) run" where
  "sys_step ops snder rcver (ESender ord pick) (None, s) = Block"
| "sys_step ops snder rcver (ESender ord pick) (Some sq, s) =
     run_bind (snder ord pick sq s) (\<lambda>((c, sq'), s'). Ret (if c = Exit then None else Some sq', s'))"
| "sys_step ops snder rcver (EReceiver ord pick ep m) (sd, s) =
     run_bind (rcver ord pick (urq s) ep m s) (\<lambda>(c, s'). Ret (sd, s'))"
| "sys_step ops snder rcver (EPeer q e) (sd, s) =
     run_bind (peer_sender (\<lambda>m t. Ret (e, t)) q s) (\<lambda>(c, s'). Ret (sd, s'))"
| "sys_step ops snder rcver (EAdd ep) (sd, s) =
     run_bind (op_AddEndpoint ops ep s) (\<lambda>s'. Ret (sd, s'))"
| "sys_step ops snder rcver (ERem ep) (sd, s) =
     run_bind (op_RemoveEndpoint ops ep s) (\<lambda>s'. Ret (sd, s'))"
| "sys_step ops snder rcver (EShutdown ord) (sd, s) =
     (if distinct ord then run_bind (op_Shutdown ops ord s) (\<lambda>s'. Ret (sd, s')) else Block)"

section \<open>The contract\<close>

definition resv :: "'a socket_scheme \<Rightarrow> cref set" where
  "resv s = {uwq s, urq s}"

lemma peers_ok_quiet:
  assumes "peers_ok P (resv s) s" "quiet s s'"
  shows "peers_ok P (resv s') s'" and "cclosed (chans s' (urq s')) = cclosed (chans s (urq s))"
proof -
  from assms(2) have q: "nextc s' = nextc s" "uwq s' = uwq s" "urq s' = urq s" "\<And>q. cclosed (chans s' q) = cclosed (chans s q)"
    by (simp_all add: quiet_def)
  have "peers_ok P (resv s) s'" using assms(1) by (rule peers_ok_cong) (simp_all add: q)
  with q show "peers_ok P (resv s') s'" by (simp add: resv_def)
  from q show "cclosed (chans s' (urq s')) = cclosed (chans s (urq s))" by simp
qed

text \<open>
  The invariant: the queues of the table are open and distinct, the receive queue is open,
  and a sender that still runs is counted by the waiter.
\<close>

definition sys_inv ::
  "('a socket_scheme \<Rightarrow> u32 \<rightharpoonup> cref) \<Rightarrow> ('a socket_scheme \<Rightarrow> int) \<Rightarrow> cref option \<times> 'a socket_scheme \<Rightarrow> bool" where
  "sys_inv peers wcnt c \<longleftrightarrow> peers_ok (peers (snd c)) (resv (snd c)) (snd c) \<and>
     \<not> cclosed (chans (snd c) (urq (snd c))) \<and> (fst c \<noteq> None \<longrightarrow> 1 \<le> wcnt (snd c))"

locale peer_sys = peer_table peers resv qcap add rem
  for peers :: "'a socket_scheme \<Rightarrow> u32 \<rightharpoonup> cref"
    and qcap :: "'a socket_scheme \<Rightarrow> nat"
    and add :: "pref \<Rightarrow> 'a socket_scheme \<Rightarrow> 'a socket_scheme"
    and rem :: "pref \<Rightarrow> 'a socket_scheme \<Rightarrow> 'a socket_scheme run" +
  fixes ops :: "'a socket_scheme protocol_ops"
    and wcnt :: "'a socket_scheme \<Rightarrow> int"
    and fin :: "'a socket_scheme \<Rightarrow> 'a socket_scheme run"
    and handle :: "u32 list \<Rightarrow> mref \<Rightarrow> 'a socket_scheme \<Rightarrow> 'a socket_scheme run"
    and rcver :: "u32 list \<Rightarrow> up_arm \<Rightarrow> cref \<Rightarrow> 'p \<Rightarrow> mref option \<Rightarrow> 'a socket_scheme \<Rightarrow> (ctl \<times> 'a socket_scheme) run"
  assumes add_op: "op_AddEndpoint ops p s = Ret (add p s)"
    and rem_op: "op_RemoveEndpoint ops p s = rem p s"
    and add_keeps: "urq (add p s) = urq s" "uwq (add p s) = uwq s" "wcnt (add p s) = wcnt s"
    and rem_keeps: "rem p s = Ret s' \<Longrightarrow> urq s' = urq s \<and> uwq s' = uwq s \<and> wcnt s' = wcnt s"
    and own_state: "socket.more s' = socket.more s \<Longrightarrow> peers s' = peers s \<and> wcnt s' = wcnt s"
    and fin_ok: "1 \<le> wcnt s \<Longrightarrow> \<exists>s'. fin s = Ret s' \<and> peers s' = peers s \<and> chans s' = chans s \<and>
        nextc s' = nextc s \<and> urq s' = urq s \<and> uwq s' = uwq s"
    and handle_ok: "peers_ok (peers s) (resv s) s \<Longrightarrow> \<exists>s'. handle ord m s = Ret s' \<and> quiet s s'"
    and rcver_ok: "peers_ok (peers s) (resv s) s \<Longrightarrow> \<not> cclosed (chans s (urq s)) \<Longrightarrow>
        rcver ord pick (urq s) pe mo s \<noteq> Panic \<and>
        (\<forall>c s'. rcver ord pick (urq s) pe mo s = Ret (c, s') \<longrightarrow> quiet s s')"
    and shutdown_ok: "peers_ok (peers s) (resv s) s \<Longrightarrow> distinct ord \<Longrightarrow>
        \<exists>s'. op_Shutdown ops ord s = Ret s' \<and> peers s' = Map.empty \<and> nextc s' = nextc s \<and>
          urq s' = urq s \<and> uwq s' = uwq s \<and> wcnt s' = wcnt s \<and>
          (\<forall>q \<in> resv s. chans s' q = chans s q)"
begin

lemma inv_quiet: "sys_inv peers wcnt (sd, s) \<Longrightarrow> quiet s s' \<Longrightarrow> sys_inv peers wcnt (sd, s')"
  using own_state [of s' s] peers_ok_quiet [of "peers s" s s'] by (simp add: sys_inv_def quiet_def)

lemma sender_inv:
  assumes "sys_inv peers wcnt (sd, s)"
  shows "run_keeps (sys_inv peers wcnt) (sys_step ops (\<lambda>ord. sender_loop fin (handle ord)) rcver (ESender ord pick) (sd, s))"
proof (cases "\<exists>sq t. sd = Some sq \<and> top_recv pick sq s = Ret t")
  case False
  then show ?thesis
    by (cases sd; cases "top_recv pick (the sd) s") (auto simp: sender_loop_def run_keeps_def)
next
  case True
  then obtain sq t where sd: "sd = Some sq" and t: "top_recv pick sq s = Ret t" by blast
  from top_recv_Ret [OF t] consider "t = TopClosed" | "t = TopRefetch s"
    | x where "t = TopMsg x (pop_on sq s)"
    by auto
  then show ?thesis
  proof cases
    case 1
    from assms sd have "1 \<le> wcnt s" by (simp add: sys_inv_def)
    then obtain s' where "fin s = Ret s'" "peers s' = peers s" "chans s' = chans s"
        "nextc s' = nextc s" "urq s' = urq s" "uwq s' = uwq s"
      using fin_ok by blast
    with 1 sd t assms show ?thesis
      by (auto simp: sender_loop_def sys_inv_def resv_def intro: peers_ok_cong [of _ _ s])
  next
    case 2
    then show ?thesis using sd t assms by (auto simp: sender_loop_def sys_inv_def)
  next
    case (3 x)
    have i: "sys_inv peers wcnt (sd, pop_on sq s)" using inv_quiet [OF assms] by simp
    then obtain s' where s': "handle ord x (pop_on sq s) = Ret s'" "quiet (pop_on sq s) s'"
      using handle_ok [of "pop_on sq s" ord x] by (auto simp: sys_inv_def)
    have "sys_inv peers wcnt (sd, s')" using i s'(2) by (rule inv_quiet)
    with s'(1) 3 sd t show ?thesis by (simp add: sender_loop_def sys_inv_def)
  qed
qed

lemma peer_inv:
  assumes "sys_inv peers wcnt (sd, s)"
  shows "run_keeps (sys_inv peers wcnt) (sys_step ops (\<lambda>ord. sender_loop fin (handle ord)) rcver (EPeer q e) (sd, s))"
proof -
  have "sys_inv peers wcnt (sd, pop_on q s)" "sys_inv peers wcnt (sd, Free r (pop_on q s))" for r
    using inv_quiet [OF assms] by simp_all
  with assms show ?thesis by (auto simp: peer_sender_def ch_recv_cases split: list.splits)
qed

lemma add_inv:
  assumes "sys_inv peers wcnt (sd, s)"
  shows "sys_inv peers wcnt (sd, add ep s)"
proof -
  have pk: "peers_ok (peers s) (resv s) s" using assms by (simp add: sys_inv_def)
  then have "urq s \<noteq> nextc s" by (auto simp: peers_ok_def resv_def)
  with assms add_ok [OF pk, of ep] show ?thesis
    by (simp add: sys_inv_def chans_add add_keeps)
qed

lemma rem_inv:
  assumes "sys_inv peers wcnt (sd, s)"
  shows "\<exists>s'. rem ep s = Ret s' \<and> sys_inv peers wcnt (sd, s')"
proof -
  have pk: "peers_ok (peers s) (resv s) s" using assms by (simp add: sys_inv_def)
  from rem_ok [OF pk, of ep] obtain s' where s': "rem ep s = Ret s'" "peers_ok (peers s') (resv s') s'"
    by blast
  have "\<not> cclosed (chans s' (urq s))"
  proof (cases "peers s (p_id (ptab s ep))")
    case None
    from rem_absent [OF this] s'(1) assms show ?thesis by (auto simp: sys_inv_def)
  next
    case (Some q)
    have "\<not> cclosed (chans s q)" "urq s \<noteq> q"
      using peers_okD [OF pk Some] by (auto simp: resv_def)
    with rem_present [OF Some] s'(1) assms show ?thesis by (auto simp: sys_inv_def chan_eff)
  qed
  with s' rem_keeps [OF s'(1)] assms show ?thesis by (auto simp: sys_inv_def)
qed

lemma shutdown_inv:
  assumes "sys_inv peers wcnt (sd, s)" "distinct ord"
  shows "\<exists>s'. op_Shutdown ops ord s = Ret s' \<and> sys_inv peers wcnt (sd, s')"
proof -
  have "peers_ok (peers s) (resv s) s" using assms by (simp add: sys_inv_def)
  from shutdown_ok [OF this assms(2)] obtain s' where s': "op_Shutdown ops ord s = Ret s'"
      "peers s' = Map.empty" "nextc s' = nextc s" "urq s' = urq s" "uwq s' = uwq s"
      "wcnt s' = wcnt s" "\<forall>q \<in> resv s. chans s' q = chans s q"
    by blast
  with assms show ?thesis by (auto simp: sys_inv_def resv_def peers_ok_def)
qed

lemma inv_step:
  assumes "sys_inv peers wcnt c"
  shows "run_keeps (sys_inv peers wcnt) (sys_step ops (\<lambda>ord. sender_loop fin (handle ord)) rcver e c)"
proof -
  obtain sd s where c: "c = (sd, s)" by fastforce
  show ?thesis
  proof (cases e)
    case (EReceiver ord pick ep m)
    have "peers_ok (peers s) (resv s) s" "\<not> cclosed (chans s (urq s))"
      using assms c by (auto simp: sys_inv_def)
    from rcver_ok [OF this, of ord pick ep m] EReceiver c assms show ?thesis
      by (cases "rcver ord pick (urq s) ep m s") (auto intro: inv_quiet)
  next
    case (ERem ep)
    with rem_inv [of sd s ep] c assms show ?thesis by (auto simp: rem_op)
  next
    case (EShutdown ord)
    with shutdown_inv [of sd s ord] c assms show ?thesis by (cases "distinct ord") auto
  next
    case (EAdd ep)
    with add_inv [of sd s ep] c assms show ?thesis by (simp add: add_op)
  next
    case (EPeer q er)
    show ?thesis unfolding c EPeer using assms c by (intro peer_inv) simp
  next
    case (ESender ord pick)
    show ?thesis unfolding c ESender using assms c by (intro sender_inv) simp
  qed
qed

text \<open>No goroutine of the system ever panics, whatever the interleaving.\<close>

lemma never_panics:
  assumes "run_reach (sys_step ops (\<lambda>ord. sender_loop fin (handle ord)) rcver) c c'" "sys_inv peers wcnt c"
  shows "sys_step ops (\<lambda>ord. sender_loop fin (handle ord)) rcver e c' \<noteq> Panic"
  using run_keeps_reach(2) [of "sys_inv peers wcnt", OF inv_step assms] by simp

text \<open>The same for any sequence of events, with the invariant.\<close>

lemma events_keep:
  assumes "sys_inv peers wcnt c"
  shows "run_keeps (sys_inv peers wcnt) (run_events (sys_step ops (\<lambda>ord. sender_loop fin (handle ord)) rcver) es c)"
  by (rule run_keeps_events [OF inv_step assms])

text \<open>In every reachable configuration the table of peers holds open, distinct queues.\<close>

lemma reach_peers_ok:
  assumes "run_reach (sys_step ops (\<lambda>ord. sender_loop fin (handle ord)) rcver) c c'" "sys_inv peers wcnt c"
  shows "peers_ok (peers (snd c')) (resv (snd c')) (snd c')"
  using run_keeps_reach(1) [of "sys_inv peers wcnt", OF inv_step assms] by (simp add: sys_inv_def)

end

section \<open>Shutdown over a table of records\<close>

text \<open>What the Shutdown of these protocols does after the wait, for the table \<open>E\<close>.\<close>

lemma close_table:
  assumes "peers_ok (map_option qf \<circ> E) R s" "distinct ord" "chans t = chans s"
  shows "\<exists>f. close_all (map (qf \<circ> snd) (peer_list ord E)) t = Ret (t\<lparr>chans := f\<rparr>) \<and>
    (\<forall>q \<in> R. f q = chans s q)"
proof -
  let ?qs = "map (qf \<circ> snd) (peer_list ord E)"
  have qs: "distinct ?qs" "\<forall>q \<in> set ?qs. \<not> cclosed (chans s q) \<and> q \<notin> R"
    using peer_queues_ok [OF assms(1,2)] by blast+
  have "close_all ?qs t = Ret (t\<lparr>chans := (\<lambda>q. if q \<in> set ?qs
      then (chans t q)\<lparr>cclosed := True, crxwait := 0\<rparr> else chans t q)\<rparr>)"
    using qs assms(3) by (intro close_all_result) auto
  then show ?thesis using qs(2) assms(3) by (intro exI conjI) (assumption, auto)
qed

section \<open>Broadcast over a table of records\<close>

text \<open>
  The queues a broadcast puts its message on: those with room, of the peers of \<open>E\<close> that
  satisfy \<open>P\<close>.
\<close>

definition takers ::
  "('e \<Rightarrow> cref) \<Rightarrow> (u32 \<rightharpoonup> 'e) \<Rightarrow> (u32 \<Rightarrow> 'e \<Rightarrow> bool) \<Rightarrow> 'a heap_scheme \<Rightarrow> cref set" where
  "takers qf E P s = {qf e | i e. E i = Some e \<and> P i e \<and> chan_room (chans s (qf e))}"

lemma takers_absent: "E i = None \<Longrightarrow> takers qf E (\<lambda>j _. j \<noteq> i) s = takers qf E (\<lambda>_ _. True) s"
proof -
  assume a: "E i = None"
  have "E j = Some e \<Longrightarrow> j \<noteq> i" for j e using a by auto
  then show ?thesis unfolding takers_def by blast
qed

text \<open>
  The outcome does not depend on the order of the iteration: every taker gets the message
  once, no other channel changes, and the reference count grows by the number of takers.
\<close>

lemma bcast_table:
  assumes "peers_ok (map_option qf \<circ> E) R s" "map_order ord E" "1 \<le> refcnt (msgs s m)"
    and "chans t = chans s" "refcnt (msgs t m) = refcnt (msgs s m)"
  shows "bcast (map (qf \<circ> snd) (filter (\<lambda>(i, e). P i e) (peer_list ord E))) m t = Ret (t\<lparr>
      chans := (\<lambda>q. if q \<in> takers qf E P s then chan_push m (chans s q) else chans s q),
      msgs := (msgs t)(m := (msgs t m)\<lparr>refcnt := refcnt (msgs s m) + int (card (takers qf E P s))\<rparr>)\<rparr>)"
proof -
  let ?qs = "map (qf \<circ> snd) (filter (\<lambda>(i, e). P i e) (peer_list ord E))"
  have d: "distinct ord" using assms(2) by (simp add: map_order_def)
  have all: "distinct (map (qf \<circ> snd) (peer_list ord E))"
    "\<forall>q \<in> set (map (qf \<circ> snd) (peer_list ord E)). \<not> cclosed (chans s q) \<and> q \<notin> R"
    using peer_queues_ok [OF assms(1) d] by blast+
  then have ds: "distinct ?qs" by (auto simp: distinct_map intro: inj_on_subset)
  have got: "set (bcast_got ?qs t) = takers qf E P s"
    using assms(4) peer_list_order [OF assms(2)]
    by (auto simp: bcast_got_def takers_def image_iff)
  have "length (bcast_got ?qs t) = card (takers qf E P s)"
    using ds got distinct_card [of "bcast_got ?qs t"] by (simp add: bcast_got_def)
  moreover have "\<forall>q \<in> set ?qs. \<not> cclosed (chans t q)" using all(2) assms(4) by auto
  ultimately show ?thesis
    using bcast_result [OF ds, of t m] got assms(3-5) by (simp add: fun_eq_iff)
qed

end
