(* ===== verification/Refs.thy ===== *)
theory Refs
  imports Peer_Sys "HOL-Library.Multiset"
begin

text \<open>
  Who holds a message: the references to messages that lie in channels, and those a
  goroutine has taken out and not yet passed on. The reference count that message.go keeps
  must never be below their number, or a message would go back to the cache while it is
  still used. The rules of this theory say what each primitive does to the references held;
  the locale \<open>mem_sys\<close> carries them to a whole socket with its application and transports.
\<close>

section \<open>References held\<close>

text \<open>\<open>counted M s\<close>: each reference in \<open>M\<close> is to an allocated message and counted in it.\<close>

definition counted :: "mref multiset \<Rightarrow> 'a heap_scheme \<Rightarrow> bool" where
  "counted M s \<longleftrightarrow> (\<forall>m. 0 < count M m \<longrightarrow> m < nextm s \<and> int (count M m) \<le> refcnt (msgs s m))"

lemma counted_mono: "counted M s \<Longrightarrow> (\<And>m. count N m \<le> count M m) \<Longrightarrow> counted N s"
  unfolding counted_def by (meson dual_order.strict_trans1 of_nat_le_iff order_trans)

lemma counted_cong: "msgs s' = msgs s \<Longrightarrow> nextm s' = nextm s \<Longrightarrow> counted M s' = counted M s"
  by (simp add: counted_def)

lemma counted_live: "counted M s \<Longrightarrow> m \<in># M \<Longrightarrow> live s m"
  unfolding counted_def live_def
  by (metis count_greater_zero_iff of_nat_0_less_iff int_one_le_iff_zero_less order_trans)

text \<open>The references in the channels allocated so far.\<close>

definition refs :: "'a heap_scheme \<Rightarrow> mref multiset" where
  "refs s = (\<Sum>q<nextc s. mset (cbuf (chans s q)))"

lemma refs_cong: "chans s' = chans s \<Longrightarrow> nextc s' = nextc s \<Longrightarrow> refs s' = refs s"
  by (simp add: refs_def)

lemma refs_upd:
  assumes "q < nextc s" "chans s' = (chans s)(q := c)" "nextc s' = nextc s"
  shows "refs s' + mset (cbuf (chans s q)) = refs s + mset (cbuf c)"
proof -
  let ?A = "{..<nextc s} - {q}"
  have q: "q \<in> {..<nextc s}" using assms(1) by simp
  have "(\<Sum>p\<in>?A. mset (cbuf (chans s' p))) = (\<Sum>p\<in>?A. mset (cbuf (chans s p)))"
    using assms(2) by (intro sum.cong) auto
  then show ?thesis
    unfolding refs_def assms(3) sum.remove [OF finite_lessThan q]
    by (simp add: assms(2) ac_simps)
qed

lemma refs_member: "q < nextc s \<Longrightarrow> m \<in> set (cbuf (chans s q)) \<Longrightarrow> m \<in># refs s"
  unfolding refs_def by (subst set_mset_sum) auto

lemma refs_push: "q < nextc s \<Longrightarrow> refs (push_on q m s) = add_mset m (refs s)"
  using refs_upd [of q s "push_on q m s" "chan_push m (chans s q)"] by (simp add: push_on_def)

lemma refs_pop:
  assumes "q < nextc s" "cbuf (chans s q) = m # ms"
  shows "refs s = add_mset m (refs (pop_on q s))"
  using refs_upd [of q s "pop_on q s" "chan_pop (chans s q)"] assms by (simp add: pop_on_def)

section \<open>The invariant\<close>

text \<open>
  \<open>mem_ok F s\<close>: the references in channels and those of \<open>F\<close>, in the hands of the goroutine
  that runs, are all counted, and nothing that is referenced is in the cache. Channels that
  do not exist yet are empty.
\<close>

definition mem_ok :: "mref multiset \<Rightarrow> 'a heap_scheme \<Rightarrow> bool" where
  "mem_ok F s \<longleftrightarrow> pool_ok s \<and> (\<forall>q \<ge> nextc s. cbuf (chans s q) = []) \<and> counted (refs s + F) s"

lemma mem_ok_D:
  assumes "mem_ok F s"
  shows "pool_ok s" and "\<And>q. cbuf (chans s q) \<noteq> [] \<Longrightarrow> q < nextc s" and "counted (refs s + F) s"
  using assms by (auto simp: mem_ok_def not_less [symmetric])

lemma mem_ok_held: "mem_ok (add_mset m F) s \<Longrightarrow> live s m \<and> m \<notin> set (mpool s)"
  using counted_live [of "refs s + add_mset m F" s m] live_not_pooled [of s m] by (simp add: mem_ok_def)

lemma mem_ok_queued:
  assumes "mem_ok F s" "m \<in> set (cbuf (chans s q))"
  shows "live s m" and "m \<notin> set (mpool s)" and "int (count (refs s) m) \<le> refcnt (msgs s m)"
proof -
  have "q < nextc s" using mem_ok_D(2) [OF assms(1), of q] assms(2) by (cases "cbuf (chans s q)") auto
  then have m: "m \<in># refs s" using assms(2) by (rule refs_member)
  have c: "counted (refs s) s" using mem_ok_D(3) [OF assms(1)] by (rule counted_mono) simp
  from c m show "live s m" by (rule counted_live)
  with mem_ok_D(1) [OF assms(1)] show "m \<notin> set (mpool s)" by (rule live_not_pooled)
  from c m show "int (count (refs s) m) \<le> refcnt (msgs s m)" by (simp add: counted_def)
qed

lemma mem_ok_drop: "mem_ok (add_mset m F) s \<Longrightarrow> mem_ok F s"
  by (auto simp: mem_ok_def intro: counted_mono)

text \<open>A step that touches neither the content of channels, nor counts, nor the cache.\<close>

definition same_refs :: "'a heap_scheme \<Rightarrow> 'a heap_scheme \<Rightarrow> bool" where
  "same_refs s s' \<longleftrightarrow> (\<forall>q. cbuf (chans s' q) = cbuf (chans s q)) \<and> nextc s' = nextc s \<and>
     nextm s' = nextm s \<and> mpool s' = mpool s \<and>
     (\<forall>m. refcnt (msgs s' m) = refcnt (msgs s m) \<and> bsize (msgs s' m) = bsize (msgs s m))"

lemma mem_ok_same: "same_refs s s' \<Longrightarrow> mem_ok F s' = mem_ok F s"
  by (simp add: same_refs_def mem_ok_def pool_ok_def refs_def counted_def)

lemma same_refs_trans: "same_refs s t \<Longrightarrow> same_refs t u \<Longrightarrow> same_refs s u"
  by (simp add: same_refs_def)

text \<open>Writing the header, the body, the port or the expiry of a message.\<close>

lemma same_refs_msg [simp]:
  "refcnt x = refcnt (msgs s m) \<Longrightarrow> bsize x = bsize (msgs s m) \<Longrightarrow> same_refs s (s\<lparr>msgs := (msgs s)(m := x)\<rparr>)"
  by (simp add: same_refs_def)

lemma mem_ok_msg:
  "refcnt x = refcnt (msgs s m) \<Longrightarrow> bsize x = bsize (msgs s m) \<Longrightarrow>
   mem_ok F (s\<lparr>msgs := (msgs s)(m := x)\<rparr>) = mem_ok F s"
  by (rule mem_ok_same) simp

lemma mem_ok_write [simp]:
  "mem_ok F (append_hdr m h s) = mem_ok F s" "mem_ok F (set_hdr m ho s) = mem_ok F s"
  "mem_ok F (drop_hdr4 m s) = mem_ok F s" "mem_ok F (set_body m b s) = mem_ok F s"
  "mem_ok F (move4 m s) = mem_ok F s"
  by (simp_all add: msg_eff mem_ok_msg)

section \<open>What the primitives do\<close>

lemma pool_ok_chan [simp]: "pool_ok (s\<lparr>chans := f\<rparr>) = pool_ok s"
  by (simp add: pool_ok_def)

lemma mem_ok_pop:
  assumes "mem_ok F s" "cbuf (chans s q) = m # ms"
  shows "mem_ok (add_mset m F) (pop_on q s)"
proof -
  have q: "q < nextc s" using mem_ok_D(2) [OF assms(1), of q] assms(2) by simp
  have r: "refs (pop_on q s) + add_mset m F = refs s + F" using refs_pop [OF q assms(2)] by simp
  have "counted (refs s + F) (pop_on q s)"
    using mem_ok_D(3) [OF assms(1)] by (simp add: chan_eff cong: counted_cong)
  with assms(1) q show ?thesis unfolding mem_ok_def r by (auto simp: chan_eff)
qed

lemma mem_ok_push:
  assumes "mem_ok (add_mset m F) s" "q < nextc s"
  shows "mem_ok F (push_on q m s)"
proof -
  have r: "refs (push_on q m s) + F = refs s + add_mset m F" using refs_push [OF assms(2)] by simp
  have "counted (refs s + add_mset m F) (push_on q m s)"
    using mem_ok_D(3) [OF assms(1)] by (simp add: chan_eff cong: counted_cong)
  with assms show ?thesis unfolding mem_ok_def r by (auto simp: chan_eff)
qed

lemma mem_ok_Dup:
  assumes "mem_ok (add_mset m F) s"
  shows "mem_ok (add_mset m (add_mset m F)) (Dup m s)"
proof -
  have "m \<notin> set (mpool s)" "pool_ok s" using mem_ok_held [OF assms] mem_ok_D(1) [OF assms] by simp_all
  then have "pool_ok (Dup m s)" by (intro Dup_pool_ok)
  moreover have "refs (Dup m s) = refs s" by (rule refs_cong) (simp_all add: msg_eff)
  ultimately show ?thesis
    using assms by (auto simp: mem_ok_def counted_def msg_eff split: if_splits)
qed

lemma mem_ok_Free:
  assumes "mem_ok (add_mset m F) s"
  shows "mem_ok F (Free m s)"
proof -
  have "live s m" "pool_ok s" using mem_ok_held [OF assms] mem_ok_D(1) [OF assms] by simp_all
  then have "pool_ok (Free m s)" by (intro Free_pool_ok)
  moreover have "refs (Free m s) = refs s" by (rule refs_cong) (simp_all add: msg_eff)
  moreover have "counted (refs s + F) (Free m s)"
    unfolding counted_def
  proof (intro allI impI)
    fix r assume r: "0 < count (refs s + F) r"
    then have "0 < count (refs s + add_mset m F) r" by simp
    then have "r < nextm s \<and> int (count (refs s + add_mset m F) r) \<le> refcnt (msgs s r)"
      using mem_ok_D(3) [OF assms] unfolding counted_def by blast
    then show "r < nextm (Free m s) \<and> int (count (refs s + F) r) \<le> refcnt (msgs (Free m s) r)"
      by (auto simp: Free_eff split: if_splits)
  qed
  ultimately show ?thesis using assms by (auto simp: mem_ok_def msg_eff)
qed

lemma mem_ok_New:
  assumes "NewMessage pick sz s = (m, s')" "mem_ok F s"
  shows "mem_ok (add_mset m F) s'"
proof -
  have f: "chans s' = chans s" "nextc s' = nextc s" "nextm s \<le> nextm s'"
    using assms(1) by (auto simp: NewMessage_unfold split: option.splits if_splits)
  note fresh = NewMessage_fresh [OF assms(1) mem_ok_D(1) [OF assms(2)]]
  have r: "refs s' = refs s" using f by (intro refs_cong)
  have "m \<notin># refs s + F" using counted_live [OF mem_ok_D(3) [OF assms(2)], of m] fresh(1) by blast
  then have m0: "count (refs s + F) m = 0" by (simp add: not_in_iff)
  have "counted (refs s' + add_mset m F) s'"
    unfolding counted_def
  proof (intro allI impI)
    fix x assume x: "0 < count (refs s' + add_mset m F) x"
    show "x < nextm s' \<and> int (count (refs s' + add_mset m F) x) \<le> refcnt (msgs s' x)"
    proof (cases "x = m")
      case True
      with m0 fresh(2) r show ?thesis by (simp add: live_def)
    next
      case False
      with x r have "x < nextm s \<and> int (count (refs s + F) x) \<le> refcnt (msgs s x)"
        using mem_ok_D(3) [OF assms(2), unfolded counted_def, rule_format, of x] by simp
      with False f r NewMessage_frame [OF assms(1) False] show ?thesis by simp
    qed
  qed
  moreover have "pool_ok s'" using NewMessage_pool_ok [OF mem_ok_D(1) [OF assms(2)], of pick sz] assms(1) by simp
  ultimately show ?thesis using assms(2) f by (simp add: mem_ok_def)
qed

text \<open>Channels are made empty, and closing one leaves its content.\<close>

lemma mem_ok_new_chan:
  assumes "mem_ok F s" "chans s' = (chans s)(nextc s := make_chan n)" "nextc s' = Suc (nextc s)"
    and "msgs s' = msgs s" "nextm s' = nextm s" "mpool s' = mpool s"
  shows "mem_ok F s'"
proof -
  have "refs s' = (\<Sum>q<nextc s. mset (cbuf (chans s' q)))" by (simp add: refs_def assms(2,3))
  also have "\<dots> = refs s" unfolding refs_def by (rule sum.cong) (auto simp: assms(2))
  finally show ?thesis using assms by (auto simp: mem_ok_def pool_ok_def counted_def)
qed

section \<open>What the shared pieces of the protocols do\<close>

lemma mem_ok_offer:
  assumes "mem_ok (add_mset m F) s" "q < nextc s" "offer q m s = Ret s'"
  shows "mem_ok F s'" and "nextc s' = nextc s"
  using assms(3) mem_ok_push [OF assms(1,2)] mem_ok_Free [OF assms(1)]
  by (auto simp: offer_cases chan_eff Free_eff split: if_splits)

text \<open>The broadcast hands out references of its own and keeps the one it was given.\<close>

lemma mem_ok_bcast:
  "\<forall>q \<in> set qs. q < nextc s \<Longrightarrow> mem_ok (add_mset m F) s \<Longrightarrow> bcast qs m s = Ret s' \<Longrightarrow>
   mem_ok (add_mset m F) s' \<and> nextc s' = nextc s"
proof (induction qs arbitrary: s)
  case Nil
  then show ?case by simp
next
  case (Cons q qs)
  then obtain s1 where s1: "offer q m (Dup m s) = Ret s1" "bcast qs m s1 = Ret s'"
    by (auto simp: run_bind_Ret_iff)
  have d: "nextc (Dup m s) = nextc s" by (simp add: msg_eff)
  have q: "q < nextc (Dup m s)" using Cons.prems(1) d by simp
  note o = mem_ok_offer [OF mem_ok_Dup [OF Cons.prems(2)] q s1(1)]
  have "\<forall>q \<in> set qs. q < nextc s1" using Cons.prems(1) o(2) d by simp
  from Cons.IH [OF this o(1) s1(2)] show ?case using o(2) d by simp
qed

lemma mem_ok_up_send:
  assumes "mem_ok (add_mset m F) s" "rq < nextc s" "up_send pick rq m s = Ret (b, s')"
    and "\<not> cclosed (chans s rq)"
  shows "mem_ok (if b then F else add_mset m F) s'"
  using assms(3) mem_ok_push [OF assms(1,2)] assms(1) by (auto simp: up_send_cases [OF assms(4)] split: if_splits)

lemma mem_ok_up_try:
  assumes "mem_ok (add_mset m F) s" "rq < nextc s" "up_try pick rq m s = Ret (b, s')"
    and "\<not> cclosed (chans s rq)"
  shows "mem_ok (if b = Some True then F else add_mset m F) s'"
  using assms(3) mem_ok_push [OF assms(1,2)] assms(1) by (auto simp: up_try_cases [OF assms(4)] split: if_splits)

lemma mem_ok_backtrace:
  "mem_ok (add_mset m F) s \<Longrightarrow> backtrace_loop ttl hops m s = (ok, s') \<Longrightarrow>
   mem_ok (if ok then add_mset m F else F) s'"
proof (induction ttl hops m s rule: backtrace_loop.induct)
  case (1 ttl hops m s)
  show ?case
  proof (cases "ttl \<le> hops \<or> length (body (msgs s m)) < 4")
    case True
    then have "backtrace_loop ttl hops m s = (False, Free m s)" by (subst backtrace_loop.simps) auto
    with "1.prems" show ?thesis using mem_ok_Free by auto
  next
    case False
    define h where "h = hdr_bytes (msgs (move4 m s) m)"
    have "backtrace_loop ttl hops m s =
        (if h ! (length h - 4) AND 0x80 \<noteq> 0 then (True, move4 m s) else backtrace_loop ttl (hops + 1) m (move4 m s))"
      using False by (subst backtrace_loop.simps) (simp add: h_def Let_def)
    with "1.prems" "1.IH" [OF _ _ refl refl] False show ?thesis by (auto simp: h_def split: if_splits)
  qed
qed

text \<open>
  The receivers of rep and respondent: the message goes up with its backtrace, or the loop,
  or the receiver when the socket is closed, frees it.
\<close>

lemma mem_ok_take_request:
  assumes "mem_ok (add_mset m F) s" "backtrace_loop ttl hops m s = (ok, s2)"
    and "rq < nextc s" "\<not> cclosed (chans s rq)"
  shows "\<not> ok \<Longrightarrow> mem_ok F s2"
    and "ok \<Longrightarrow> up_send pick rq m s2 = Ret (up, s3) \<Longrightarrow> mem_ok F (if up then s3 else Free m s3)"
proof -
  have m2: "mem_ok (if ok then add_mset m F else F) s2" using assms(1,2) by (rule mem_ok_backtrace)
  then show "\<not> ok \<Longrightarrow> mem_ok F s2" by simp
  have "quiet s s2" using backtrace_loop_quiet [of s ttl hops m] assms(2) by simp
  with assms(3,4) have rq: "rq < nextc s2" "\<not> cclosed (chans s2 rq)" by (simp_all add: quiet_def)
  show "mem_ok F (if up then s3 else Free m s3)" if ok "up_send pick rq m s2 = Ret (up, s3)"
    using mem_ok_up_send [OF _ rq(1) that(2) rq(2), of F] m2 that(1) by (simp add: mem_ok_Free split: if_splits)
qed

lemma same_refs_truncate: "heap.truncate s' = heap.truncate s \<Longrightarrow> same_refs s s'"
  by (simp add: same_refs_def heap.defs)

lemma mem_ok_top_recv:
  "mem_ok F s \<Longrightarrow> top_recv pick sq s = Ret (TopMsg m s1) \<Longrightarrow> mem_ok (add_mset m F) s1"
  by (drule top_recv_Ret) (auto intro: mem_ok_pop)

end
