(* ===== verification/App_Sys.thy ===== *)
theory App_Sys
  imports Refs
begin

text \<open>
  A socket and what uses it: the calls of the application and of the core, which are the same
  for every protocol, and the protocol's own goroutines, which are not. The locale \<open>sock_app\<close>
  says what a protocol must do for no call to panic or to use a message that is in the cache;
  \<open>sock_sys\<close> adds its goroutines.
\<close>

section \<open>Calls\<close>

text \<open>
  The application holds a list of references to messages. It makes, writes, shares and frees
  messages, sends and receives, and sets options; \<open>AActivate\<close> is the first Dial or Listen,
  \<open>AClosing\<close> the first step of Close.
\<close>

datatype app_event =
    ANewMessage mref nat
  | AWrite mref "bytes option" bytes
  | ADupMsg mref
  | AFreeMsg mref
  | ASendMsg inst inst send_arm mref
  | ARecvMsg inst "(inst \<times> recv_arm) list"
  | ASend mref inst inst send_arm bytes
  | ARecv inst "(inst \<times> recv_arm) list"
  | ASetOption string goval
  | AActivate
  | AClosing

type_synonym 'a app_conf = "mref list \<times> 'a socket_scheme"

fun app_step :: "'a socket_scheme protocol_ops \<Rightarrow> app_event \<Rightarrow> 'a app_conf \<Rightarrow> 'a app_conf run" where
  "app_step ops (ANewMessage fresh sz) (H, s) = (let (m, s1) = NewMessage fresh sz s in Ret (m # H, s1))"
| "app_step ops (AWrite m h b) (H, s) =
     (if m \<in> set H then Ret (H, upd_msg m (\<lambda>x. x\<lparr>hdr := h, body := b\<rparr>) s) else Block)"
| "app_step ops (ADupMsg m) (H, s) = (if m \<in> set H then Ret (m # H, Dup m s) else Block)"
| "app_step ops (AFreeMsg m) (H, s) = (if m \<in> set H then Ret (remove1 m H, Free m s) else Block)"
| "app_step ops (ASendMsg now t pick m) (H, s) =
     (if m \<in> set H
      then run_bind (SendMsg ops now t pick m s) (\<lambda>(e, s').
             Ret (if e = None then remove1 m H else H, s'))
      else Block)"
| "app_step ops (ARecvMsg now rounds) (H, s) =
     run_bind (RecvMsg ops now rounds s) (\<lambda>(r, s'). Ret (case r of Inl _ \<Rightarrow> H | Inr m \<Rightarrow> m # H, s'))"
| "app_step ops (ASend fresh now t pick b) (H, s) =
     run_bind (Send ops fresh now t pick b s) (\<lambda>(e, s'). Ret (H, s'))"
| "app_step ops (ARecv now rounds) (H, s) = run_bind (Recv ops now rounds s) (\<lambda>(r, s'). Ret (H, s'))"
| "app_step ops (ASetOption n v) (H, s) =
     (if wrong_type n v then Block else run_bind (sock_SetOption ops n v s) (\<lambda>(e, s'). Ret (H, s')))"
| "app_step ops AActivate (H, s) = Ret (H, s\<lparr>active := True\<rparr>)"
| "app_step ops AClosing (H, s) = Ret (H, s\<lparr>closing := True, closeq := True\<rparr>)"

text \<open>What a transport's \<^verbatim>\<open>Recv\<close> and the pipe's \<^verbatim>\<open>RecvMsg\<close> make of the bytes of a message.\<close>

definition arrival :: "mref \<Rightarrow> pref \<Rightarrow> bytes \<Rightarrow> 'a heap_scheme \<Rightarrow> mref \<times> 'a heap_scheme" where
  "arrival fresh p b s =
     (let (m, s1) = NewMessage fresh (length b) s
      in (m, upd_msg m (\<lambda>x. x\<lparr>body := b, port := Some p\<rparr>) s1))"

text \<open>
  The endpoint's \<^verbatim>\<open>SendMsg\<close>: the transport answers \<open>e\<close> and, when it succeeds, frees the message
  (streams) or does not (in-process, which sends a copy).
\<close>

definition tran_send ::
  "err option \<Rightarrow> bool \<Rightarrow> mref \<Rightarrow> 'a heap_scheme \<Rightarrow> (err option \<times> 'a heap_scheme) run" where
  "tran_send e fr m s = Ret (e, if e = None \<and> fr then Free m s else s)"

section \<open>States\<close>

text \<open>The socket's own queues are two, allocated and open.\<close>

definition base_ok :: "'a socket_scheme \<Rightarrow> bool" where
  "base_ok s \<longleftrightarrow> \<not> cclosed (chans s (uwq s)) \<and> \<not> cclosed (chans s (urq s)) \<and> uwq s \<noteq> urq s \<and>
     uwq s < nextc s \<and> urq s < nextc s"

lemma base_okD:
  assumes "base_ok s"
  shows "\<not> cclosed (chans s (uwq s))" "\<not> cclosed (chans s (urq s))" "uwq s \<noteq> urq s" "urq s \<noteq> uwq s"
    "uwq s < nextc s" "urq s < nextc s"
  using assms by (simp_all add: base_ok_def)

text \<open>
  A step that closes and makes no channel and leaves pipes and the queues' names alone, and
  one that touches only messages and the contents of channels.
\<close>

definition near :: "'a socket_scheme \<Rightarrow> 'a socket_scheme \<Rightarrow> bool" where
  "near s s' \<longleftrightarrow> nextc s' = nextc s \<and> uwq s' = uwq s \<and> urq s' = urq s \<and>
     (\<forall>q. cclosed (chans s' q) = cclosed (chans s q)) \<and> ptab s' = ptab s \<and> nextp s' = nextp s \<and> active s' = active s"

definition calm :: "'a socket_scheme \<Rightarrow> 'a socket_scheme \<Rightarrow> bool" where
  "calm s s' \<longleftrightarrow> near s s' \<and> socket.more s' = socket.more s"

lemma calm_simps [simp]:
  "calm s s" "calm s (Free m s)" "calm s (Dup m s)" "calm s (push_on q m s)" "calm s (pop_on q s)"
  "calm s (s\<lparr>msgs := f\<rparr>)" "calm s (Free r (pop_on q s))" "calm s (upd_msg m g s)" "calm s (append_hdr m h s)"
  "calm s (set_body m b s)" "calm s (move4 m s)"
  by (auto simp: calm_def near_def msg_eff chan_eff)

lemma near_trans [trans]: "near s t \<Longrightarrow> near t u \<Longrightarrow> near s u"
  by (simp add: near_def)

lemma near_base: "near s s' \<Longrightarrow> base_ok s \<Longrightarrow> base_ok s'"
  by (simp add: near_def base_ok_def)

lemma calm_near: "calm s s' \<Longrightarrow> near s s'"
  by (simp add: calm_def)

lemma calm_quiet: "calm s s' \<Longrightarrow> quiet s s'"
  by (simp add: calm_def near_def quiet_def)

lemma calm_trans [trans]: "calm s t \<Longrightarrow> calm t u \<Longrightarrow> calm s u"
  by (auto simp: calm_def intro: near_trans)

lemma calm_base: "calm s s' \<Longrightarrow> base_ok s \<Longrightarrow> base_ok s'"
  by (auto simp: calm_def intro: near_base)

lemma calm_more: "calm s s' \<Longrightarrow> socket.more s' = socket.more s"
  by (simp add: calm_def)

lemma NewMessage_calm: "NewMessage fresh n s = (m, t) \<Longrightarrow> calm s t"
  by (auto simp: NewMessage_unfold calm_def near_def split: option.splits if_splits)

lemma arrival_calm:
  assumes "arrival fresh p b s = (m, s1)" "mem_ok F s"
  shows "mem_ok (add_mset m F) s1" and "calm s s1"
proof -
  obtain t where t: "NewMessage fresh (length b) s = (m, t)" "s1 = upd_msg m (\<lambda>x. x\<lparr>body := b, port := Some p\<rparr>) t"
    using assms(1) by (auto simp: arrival_def split: prod.splits)
  from mem_ok_New [OF t(1) assms(2)] t(2) show "mem_ok (add_mset m F) s1" by (simp add: upd_msg_def mem_ok_msg)
  from NewMessage_calm [OF t(1)] show "calm s s1" unfolding t(2) by (rule calm_trans) simp
qed

lemma tran_send_mem:
  assumes "mem_ok (add_mset m F) s"
  shows "\<exists>s'. tran_send e fr m s = Ret (e, s') \<and> calm s s' \<and> mem_ok (if e = None then F else add_mset m F) s'"
  using assms mem_ok_Free [OF assms] mem_ok_drop [OF assms] by (auto simp: tran_send_def)

text \<open>A table of peers is kept by every step that leaves the channels of peers alone.\<close>

lemma peers_ok_conf:
  assumes "peers_ok P (resv s) s" "nextc s \<le> nextc s'"
    and "\<And>q. q < nextc s \<Longrightarrow> q \<noteq> uwq s \<Longrightarrow> q \<noteq> urq s \<Longrightarrow> cclosed (chans s' q) = cclosed (chans s q)"
    and "resv s' \<subseteq> resv s \<union> {nextc s..<nextc s'}"
  shows "peers_ok P (resv s') s'"
proof -
  have q: "q < nextc s' \<and> \<not> cclosed (chans s' q) \<and> q \<notin> resv s'" if "P i = Some q" for i q
  proof -
    from peers_okD [OF assms(1) that] have q: "\<not> cclosed (chans s q)" "q < nextc s" "q \<notin> resv s" by simp_all
    then have "\<not> cclosed (chans s' q)" using assms(3) by (auto simp: resv_def)
    with q assms(2,4) show ?thesis by auto
  qed
  have "\<forall>q \<in> resv s'. q < nextc s'" using assms(1,2,4) by (fastforce simp: peers_ok_def)
  with q assms(1) show ?thesis by (simp add: peers_ok_def)
qed

lemma peers_ok_near: "peers_ok P (resv s) s \<Longrightarrow> near s s' \<Longrightarrow> peers_ok P (resv s') s'"
  by (rule peers_ok_conf) (auto simp: near_def resv_def)

section \<open>The invariant\<close>

text \<open>
  \<open>I g s\<close> is the protocol's own invariant with its goroutines in state \<open>g\<close>; \<open>held g s\<close> are
  the references that its goroutines and its state hold outside all queues.
\<close>

definition app_inv ::
  "('g \<Rightarrow> 'a socket_scheme \<Rightarrow> bool) \<Rightarrow> ('g \<Rightarrow> 'a socket_scheme \<Rightarrow> mref multiset) \<Rightarrow> 'g \<Rightarrow> 'a app_conf \<Rightarrow> bool" where
  "app_inv I held g = (\<lambda>(H, s). I g s \<and> base_ok s \<and> mem_ok (mset H + held g s) s)"

lemma app_inv_iff: "app_inv I held g (H, s) \<longleftrightarrow> I g s \<and> base_ok s \<and> mem_ok (mset H + held g s) s"
  by (simp add: app_inv_def)

locale sock_app =
  fixes ops :: "'a socket_scheme protocol_ops"
    and I :: "'g \<Rightarrow> 'a socket_scheme \<Rightarrow> bool"
    and held :: "'g \<Rightarrow> 'a socket_scheme \<Rightarrow> mref multiset"
  assumes I_calm: "I g s \<Longrightarrow> calm s s' \<Longrightarrow> I g s'"
    and I_conf: "I g s \<Longrightarrow> socket.more s' = socket.more s \<Longrightarrow> heap.truncate s' = heap.truncate s \<Longrightarrow>
        uwq s' = uwq s \<Longrightarrow> urq s' = urq s \<Longrightarrow> (active s \<longrightarrow> active s') \<Longrightarrow> I g s'"
    and I_wq: "I g s \<Longrightarrow> base_ok s \<Longrightarrow> \<not> active s \<Longrightarrow> I g (close_on (uwq s) (s\<lparr>uwqLen := i,
        chans := (chans s)(nextc s := make_chan k), nextc := Suc (nextc s), uwq := nextc s\<rparr>))"
    and I_rq: "I g s \<Longrightarrow> base_ok s \<Longrightarrow> \<not> active s \<Longrightarrow> I g (s\<lparr>urqLen := i,
        chans := (chans s)(nextc s := make_chan k), nextc := Suc (nextc s), urq := nextc s\<rparr>)"
    and held_more: "socket.more s' = socket.more s \<Longrightarrow> held g s' = held g s"
    and hook_keeps: "op_SendHook ops = Some hook \<or> op_RecvHook ops = Some hook \<Longrightarrow>
        I g s \<Longrightarrow> base_ok s \<Longrightarrow> mem_ok (add_mset m F + held g s) s \<Longrightarrow>
        \<exists>b s'. hook m s = Ret (b, s') \<and> I g s' \<and> base_ok s' \<and> mem_ok (add_mset m F + held g s') s'"
    and set_keeps: "I g s \<Longrightarrow> base_ok s \<Longrightarrow> mem_ok (F + held g s) s \<Longrightarrow> op_SetOption ops n v s = (e, s') \<Longrightarrow>
        I g s' \<and> base_ok s' \<and> mem_ok (F + held g s') s'"
begin

lemma app_calm:
  assumes "app_inv I held g (H, s)" "calm s s'" "mem_ok (mset H' + held g s) s'"
  shows "app_inv I held g (H', s')"
proof -
  have "I g s'" "base_ok s'" "held g s' = held g s"
    using assms(1) I_calm [OF _ assms(2)] calm_base [OF assms(2)] held_more [OF calm_more [OF assms(2)]]
    by (simp_all add: app_inv_iff)
  with assms(3) show ?thesis by (simp add: app_inv_iff)
qed

lemma app_invD:
  assumes "app_inv I held g (H, s)"
  shows "I g s" "base_ok s" "mem_ok (mset H + held g s) s"
  using assms by (simp_all add: app_inv_iff)

lemma app_conf:
  assumes "app_inv I held g (H, s)" "socket.more s' = socket.more s" "heap.truncate s' = heap.truncate s"
    and "uwq s' = uwq s" "urq s' = urq s" "active s \<longrightarrow> active s'"
  shows "app_inv I held g (H, s')"
proof -
  note D = app_invD [OF assms(1)]
  have "base_ok s'" using D(2) assms(3-5) by (auto simp: base_ok_def heap.defs)
  moreover have "mem_ok (mset H + held g s') s'"
    using D(3) mem_ok_same [OF same_refs_truncate [OF assms(3)]] held_more [OF assms(2)] by simp
  ultimately show ?thesis using I_conf [OF D(1) assms(2-6)] by (simp add: app_inv_iff)
qed

lemma app_held:
  assumes "app_inv I held g (H, s)" "m \<in> set H"
  shows "mem_ok (add_mset m (mset (remove1 m H) + held g s)) s"
proof -
  have H: "mset H = add_mset m (mset (remove1 m H))" using assms(2) by simp
  show ?thesis using app_invD(3) [OF assms(1)] unfolding H by simp
qed

text \<open>Sending: the message is the socket's when the call succeeds, and else the caller's.\<close>

lemma select_keeps:
  assumes "app_inv I held g (H, s)" "m \<in> set H"
  shows "run_keeps (\<lambda>(e, s'). app_inv I held g (if e = None then remove1 m H else H, s'))
    (SendMsg_select now t pick m s)"
proof -
  note D = base_okD [OF app_invD(2) [OF assms(1)]] and m = app_held [OF assms]
  have "app_inv I held g (remove1 m H, push_on (uwq s) m s)"
    using app_calm [OF assms(1) _ mem_ok_push [OF m D(5)]] by simp
  moreover have "app_inv I held g (remove1 m H, Free m s)"
    using app_calm [OF assms(1) _ mem_ok_Free [OF m]] by simp
  ultimately show ?thesis
    using assms(1) D(1) by (simp add: SendMsg_select_def ch_send_cases split: option.split send_arm.split)
qed

lemma hook_inv:
  assumes "op_SendHook ops = Some hook \<or> op_RecvHook ops = Some hook"
    and "app_inv I held g (H, s)" "m \<in> set H"
  shows "\<exists>b s'. hook m s = Ret (b, s') \<and> app_inv I held g (H, s')"
proof -
  note D = app_invD [OF assms(2)]
  have H: "mset H = add_mset m (mset (remove1 m H))" using assms(3) by simp
  from hook_keeps [OF assms(1) D(1,2), of m "mset (remove1 m H)"] D(3) show ?thesis
    unfolding app_inv_iff H by blast
qed

lemma send_keeps:
  assumes "app_inv I held g (H, s)" "m \<in> set H"
  shows "run_keeps (\<lambda>(e, s'). app_inv I held g (if e = None then remove1 m H else H, s')) (SendMsg ops now t pick m s)"
proof (cases "senderr s")
  case (Some e)
  with assms show ?thesis by (simp add: SendMsg_senderr)
next
  case None
  obtain ok s1 where hook: "(case op_SendHook ops of None \<Rightarrow> Ret (True, s) | Some hook \<Rightarrow> hook m s) = Ret (ok, s1)"
      and i: "app_inv I held g (H, s1)"
  proof (cases "op_SendHook ops")
    case None
    with assms(1) that show ?thesis by simp
  next
    case (Some hook)
    with that hook_inv [OF _ assms, of hook] show ?thesis by auto
  qed
  show ?thesis
  proof (cases ok)
    case False
    have "app_inv I held g (remove1 m H, Free m s1)"
      using app_calm [OF i _ mem_ok_Free [OF app_held [OF i assms(2)]]] by simp
    with None hook False show ?thesis by (simp add: SendMsg_def SendMsg_start_def)
  next
    case True
    let ?x = "\<lambda>x. x\<lparr>expire := (if wdeadline s1 \<noteq> 0 then Some (now + wdeadline s1) else None)\<rparr>"
    have "mem_ok (mset H + held g s1) (upd_msg m ?x s1)" using app_invD(3) [OF i] by (simp add: upd_msg_def mem_ok_msg)
    from app_calm [OF i _ this] have "app_inv I held g (H, upd_msg m ?x s1)" by simp
    from select_keeps [OF this assms(2)] None hook True show ?thesis by (simp add: SendMsg_def SendMsg_start_def)
  qed
qed

text \<open>Receiving: the message the call returns is the caller's.\<close>

lemma recv_iter_keeps:
  assumes "app_inv I held g (H, s)"
  shows "run_keeps (\<lambda>(r, s'). app_inv I held g ((case r of RDone (Inr m) \<Rightarrow> m # H | _ \<Rightarrow> H), s'))
    (RecvMsg_iter ops tmr t pick s)"
proof -
  note D = base_okD [OF app_invD(2) [OF assms]]
  have err: "app_inv I held g (H, s\<lparr>recverrq := chan_pop (recverrq s)\<rparr>)"
    using assms by (rule app_conf) (simp_all add: heap.defs)
  show ?thesis
  proof (cases "cbuf (chans s (urq s))")
    case Nil
    with D(2) assms err show ?thesis
      by (simp add: RecvMsg_iter_def ch_recv_cases split: option.split recv_arm.split)
  next
    case (Cons m ms)
    let ?s1 = "pop_on (urq s) s"
    have i: "app_inv I held g (m # H, ?s1)"
      using app_calm [OF assms, of ?s1 "m # H"] mem_ok_pop [OF app_invD(3) [OF assms] Cons] by simp
    have hook: "run_keeps (\<lambda>(r, s'). app_inv I held g ((case r of RDone (Inr m) \<Rightarrow> m # H | _ \<Rightarrow> H), s'))
        (run_bind (hook m ?s1) (\<lambda>(ok, s2). Ret (if ok then (RDone (Inr m), s2) else (RAgain, Free m s2))))"
      if "op_RecvHook ops = Some hook" for hook
    proof -
      from hook_inv [OF disjI2 [OF that] i, of m] obtain b s2
        where h: "hook m ?s1 = Ret (b, s2)" and i2: "app_inv I held g (m # H, s2)" by auto
      have "app_inv I held g (H, Free m s2)"
        using app_calm [OF i2, of "Free m s2" H] mem_ok_Free [of m "mset H + held g s2" s2] app_invD(3) [OF i2] by simp
      with h i2 show ?thesis by simp
    qed
    with Cons assms i err show ?thesis
      by (simp add: RecvMsg_iter_def ch_recv_cases split: option.split recv_arm.split)
  qed
qed

lemma recv_keeps:
  assumes "app_inv I held g (H, s)"
  shows "run_keeps (\<lambda>(r, s'). app_inv I held g ((case r of Inr m \<Rightarrow> m # H | Inl e \<Rightarrow> H), s')) (RecvMsg_loop ops tmr rounds s)"
  using assms
proof (induction rounds arbitrary: s)
  case Nil
  show ?case by simp
next
  case (Cons r rounds)
  obtain t pick where r: "r = (t, pick)" by fastforce
  show ?case
    unfolding r RecvMsg_loop.simps
    by (rule run_keeps_bind [OF recv_iter_keeps [OF Cons.prems]]) (auto simp: Cons.IH split: recv_res.splits)
qed

text \<open>Options: a new send queue replaces the old one, which is closed.\<close>

lemma set_qlen:
  assumes "app_inv I held g (H, s)" "\<not> active s"
  shows "app_inv I held g (H, close_on (uwq s) (s\<lparr>uwqLen := i,
      chans := (chans s)(nextc s := make_chan k), nextc := Suc (nextc s), uwq := nextc s\<rparr>))"
    and "app_inv I held g (H, s\<lparr>urqLen := i,
      chans := (chans s)(nextc s := make_chan k), nextc := Suc (nextc s), urq := nextc s\<rparr>)"
proof -
  note D = app_invD [OF assms(1)] and B = base_okD [OF app_invD(2) [OF assms(1)]]
  let ?t = "s\<lparr>uwqLen := i, chans := (chans s)(nextc s := make_chan k), nextc := Suc (nextc s), uwq := nextc s\<rparr>"
  let ?u = "close_on (uwq s) ?t"
  have "mem_ok (mset H + held g s) ?t" by (rule mem_ok_new_chan [OF D(3)]) simp_all
  moreover have "same_refs ?t ?u" by (simp add: same_refs_def close_on_def)
  ultimately have "mem_ok (mset H + held g s) ?u" by (simp only: mem_ok_same)
  moreover have "held g ?u = held g s" by (rule held_more) (simp add: close_on_def)
  moreover have "base_ok ?u" using B by (auto simp: base_ok_def close_on_def)
  ultimately show "app_inv I held g (H, ?u)" using I_wq [OF D(1,2) assms(2)] by (simp add: app_inv_iff)
  let ?v = "s\<lparr>urqLen := i, chans := (chans s)(nextc s := make_chan k), nextc := Suc (nextc s), urq := nextc s\<rparr>"
  have "mem_ok (mset H + held g s) ?v" by (rule mem_ok_new_chan [OF D(3)]) simp_all
  moreover have "held g ?v = held g s" by (rule held_more) simp
  moreover have "base_ok ?v" using B by (auto simp: base_ok_def)
  ultimately show "app_inv I held g (H, ?v)" using I_rq [OF D(1,2) assms(2)] by (simp add: app_inv_iff)
qed

lemma set_field:
  assumes "app_inv I held g (H, s)"
  shows "app_inv I held g (H, s\<lparr>rdeadline := d\<rparr>)" "app_inv I held g (H, s\<lparr>wdeadline := d\<rparr>)"
    "app_inv I held g (H, s\<lparr>linger := d\<rparr>)" "app_inv I held g (H, s\<lparr>maxRxSize := i\<rparr>)"
    "app_inv I held g (H, s\<lparr>reconntime := d\<rparr>)" "app_inv I held g (H, s\<lparr>reconnmax := d\<rparr>)"
    "app_inv I held g (H, s\<lparr>bestEffort := b\<rparr>)" "app_inv I held g (H, s\<lparr>active := True\<rparr>)"
    "app_inv I held g (H, s\<lparr>closing := b, closeq := b\<rparr>)"
  using assms by - (erule app_conf; simp add: heap.defs)+

lemma set_option_keeps:
  assumes "app_inv I held g (H, s)" "\<not> wrong_type n v"
  shows "run_keeps (\<lambda>(e, s'). app_inv I held g (H, s')) (sock_SetOption ops n v s)"
proof -
  obtain e s1 where es: "op_SetOption ops n v s = (e, s1)" by fastforce
  with set_keeps [OF app_invD [OF assms(1)]] have i: "app_inv I held g (H, s1)" by (simp add: app_inv_iff)
  have "\<not> cclosed (chans s1 (uwq s1))" "uwq s1 \<noteq> nextc s1" using base_okD [OF app_invD(2) [OF i]] by simp_all
  with es i assms(2) set_qlen [OF i] set_field [OF i] show ?thesis
    by (cases v) (simp_all add: sock_SetOption_def wrong_type_def new_chan_def ch_close_cases option_name)
qed

text \<open>A step of a goroutine that stays where it is and only moves messages.\<close>

lemma own_calm:
  assumes "I g s" "base_ok s" "run_keeps (\<lambda>(g', s'). g' = g \<and> calm s s' \<and> mem_ok (F + held g s) s') r"
  shows "run_keeps (\<lambda>(g', s'). I g' s' \<and> base_ok s' \<and> mem_ok (F + held g' s') s') r"
proof (rule run_keeps_mono [OF assms(3)], clarify)
  fix s' assume c: "calm s s'" and m: "mem_ok (F + held g s) s'"
  from m have "mem_ok (F + held g s') s'" by (simp only: held_more [OF calm_more [OF c]])
  with I_calm [OF assms(1) c] calm_base [OF c assms(2)] show "I g s' \<and> base_ok s' \<and> mem_ok (F + held g s') s'" by simp
qed

text \<open>Every call.\<close>

lemma app_inv_drop: "app_inv I held g (m # H, s) \<Longrightarrow> app_inv I held g (H, s)"
  using mem_ok_drop [of m "mset H + held g s" s] by (simp add: app_inv_iff)

lemma new_inv:
  assumes "app_inv I held g (H, s)" "NewMessage fresh n s = (m, s1)"
  shows "app_inv I held g (m # H, s1)"
  using app_calm [OF assms(1) NewMessage_calm [OF assms(2)], of "m # H"] mem_ok_New [OF assms(2) app_invD(3) [OF assms(1)]]
  by simp

lemma app_send_bytes:
  assumes "app_inv I held g (H, s)"
  shows "run_keeps (\<lambda>(e, s'). app_inv I held g (H, s')) (Send ops fresh now t pick b s)"
proof -
  obtain m s1 where n: "NewMessage fresh (length b) s = (m, s1)" by fastforce
  let ?s2 = "set_body m (body (msgs s1 m) @ b) s1"
  have i: "app_inv I held g (m # H, s1)" using assms n by (rule new_inv)
  have "app_inv I held g (m # H, ?s2)" using app_calm [OF i, of ?s2 "m # H"] app_invD(3) [OF i] by simp
  from send_keeps [OF this, of m now t pick] have "run_keeps (\<lambda>(e, s'). app_inv I held g (H, s')) (SendMsg ops now t pick m ?s2)"
    by (rule run_keeps_mono [OF _]) (auto dest: app_inv_drop split: if_splits)
  then show ?thesis by (simp add: Send_def n)
qed

lemma app_recv_bytes:
  assumes "app_inv I held g (H, s)"
  shows "run_keeps (\<lambda>(r, s'). app_inv I held g (H, s')) (Recv ops now rounds s)"
  unfolding Recv_def RecvMsg_def
proof (rule run_keeps_bind [OF recv_keeps [OF assms]], clarify)
  fix r s' assume i: "app_inv I held g (case r of Inr m \<Rightarrow> m # H | Inl e \<Rightarrow> H, s')"
  show "run_keeps (\<lambda>(r, s'). app_inv I held g (H, s'))
      (case r of Inl e \<Rightarrow> Ret (Inl e, s') | Inr m \<Rightarrow> Ret (Inr (body (msgs s' m)), Free m s'))"
  proof (cases r)
    case (Inr m)
    with i have i: "app_inv I held g (m # H, s')" by simp
    have "app_inv I held g (H, Free m s')"
      using app_calm [OF i, of "Free m s'" H] mem_ok_Free [of m "mset H + held g s'" s'] app_invD(3) [OF i] by simp
    with Inr show ?thesis by simp
  qed (use i in simp)
qed

lemma app_keeps:
  assumes i: "app_inv I held g (H, s)"
  shows "run_keeps (app_inv I held g) (app_step ops e (H, s))"
proof (cases e)
  case (ANewMessage fresh sz)
  with new_inv [OF i] show ?thesis by (simp split: prod.split)
next
  case (AWrite m h b)
  with app_calm [OF i, of "upd_msg m (\<lambda>x. x\<lparr>hdr := h, body := b\<rparr>) s" H] app_invD(3) [OF i] show ?thesis
    by (simp add: upd_msg_def mem_ok_msg)
next
  case (ADupMsg m)
  with app_calm [OF i, of "Dup m s" "m # H"] mem_ok_Dup [OF app_held [OF i, of m]] show ?thesis by simp
next
  case (AFreeMsg m)
  with app_calm [OF i, of "Free m s" "remove1 m H"] mem_ok_Free [OF app_held [OF i, of m]] show ?thesis by simp
next
  case (ASendMsg now t pick m)
  show ?thesis
  proof (cases "m \<in> set H")
    case True
    show ?thesis unfolding ASendMsg using True
      by simp (rule run_keeps_bind [OF send_keeps [OF i True]], auto)
  qed (simp add: ASendMsg)
next
  case (ARecvMsg now rounds)
  show ?thesis unfolding ARecvMsg app_step.simps RecvMsg_def
    by (rule run_keeps_bind [OF recv_keeps [OF i]]) (auto split: sum.splits)
next
  case (ASend fresh now t pick b)
  show ?thesis unfolding ASend app_step.simps by (rule run_keeps_bind [OF app_send_bytes [OF i]]) auto
next
  case (ARecv now rounds)
  show ?thesis unfolding ARecv app_step.simps by (rule run_keeps_bind [OF app_recv_bytes [OF i]]) auto
next
  case (ASetOption n v)
  show ?thesis
  proof (cases "wrong_type n v")
    case False
    show ?thesis unfolding ASetOption using False
      by simp (rule run_keeps_bind [OF set_option_keeps [OF i False]], auto)
  qed (simp add: ASetOption)
qed (use set_field [OF i] in simp_all)

end

section \<open>With the goroutines\<close>

text \<open>
  A configuration: the state of the protocol's goroutines, the references the application
  holds, and the socket's state. \<open>own e\<close> is a step of a goroutine, or of a part of the core
  that hands an endpoint to the protocol or takes it away.
\<close>

datatype 'e sock_event = Call app_event | Own 'e

fun sock_step ::
  "'a socket_scheme protocol_ops \<Rightarrow> ('e \<Rightarrow> 'g \<Rightarrow> 'a socket_scheme \<Rightarrow> ('g \<times> 'a socket_scheme) run) \<Rightarrow>
   'e sock_event \<Rightarrow> 'g \<times> 'a app_conf \<Rightarrow> ('g \<times> 'a app_conf) run" where
  "sock_step ops own (Call e) (g, c) = run_bind (app_step ops e c) (\<lambda>c'. Ret (g, c'))"
| "sock_step ops own (Own e) (g, H, s) = run_bind (own e g s) (\<lambda>(g', s'). Ret (g', H, s'))"

definition sock_inv ::
  "('g \<Rightarrow> 'a socket_scheme \<Rightarrow> bool) \<Rightarrow> ('g \<Rightarrow> 'a socket_scheme \<Rightarrow> mref multiset) \<Rightarrow> 'g \<times> 'a app_conf \<Rightarrow> bool" where
  "sock_inv I held = (\<lambda>(g, c). app_inv I held g c)"

locale sock_sys = sock_app ops I held
  for ops :: "'a socket_scheme protocol_ops"
    and I :: "'g \<Rightarrow> 'a socket_scheme \<Rightarrow> bool"
    and held :: "'g \<Rightarrow> 'a socket_scheme \<Rightarrow> mref multiset" +
  fixes own :: "'e \<Rightarrow> 'g \<Rightarrow> 'a socket_scheme \<Rightarrow> ('g \<times> 'a socket_scheme) run"
  assumes own_keeps: "I g s \<Longrightarrow> base_ok s \<Longrightarrow> mem_ok (F + held g s) s \<Longrightarrow>
    run_keeps (\<lambda>(g', s'). I g' s' \<and> base_ok s' \<and> mem_ok (F + held g' s') s') (own e g s)"
begin

lemma sock_inv_step:
  assumes "sock_inv I held c"
  shows "run_keeps (sock_inv I held) (sock_step ops own e c)"
proof -
  obtain g H s where c: "c = (g, H, s)" by (cases c)
  with assms have i: "app_inv I held g (H, s)" by (simp add: sock_inv_def)
  show ?thesis
  proof (cases e)
    case (Call a)
    show ?thesis unfolding c Call sock_step.simps
      by (rule run_keeps_bind [OF app_keeps [OF i]]) (simp add: sock_inv_def)
  next
    case (Own a)
    show ?thesis unfolding c Own sock_step.simps
      by (rule run_keeps_bind [OF own_keeps [OF app_invD [OF i]]]) (auto simp: sock_inv_def app_inv_iff)
  qed
qed

lemma sock_events: "sock_inv I held c \<Longrightarrow> run_keeps (sock_inv I held) (run_events (sock_step ops own) es c)"
  by (rule run_keeps_events [OF sock_inv_step])

end

section \<open>A new socket\<close>

lemma mem_ok_socket0 [simp]: "mem_ok {#} (socket0 x)"
  by (simp add: mem_ok_def pool_ok_def counted_def refs_def socket0_def)

text \<open>The core's part of NewSocket makes the two queues; then the protocol's Init runs.\<close>

lemma newSocket_init:
  assumes "mem_ok {#} s"
  obtains t where "newSocket ops s = op_Init ops t" "mem_ok {#} t" "base_ok t" "socket.more t = socket.more s"
    "nextc t = nextc s + 2" "ptab t = ptab s" "\<not> active t"
proof -
  obtain q1 s1 q2 s2 where n: "new_chan (nat defaultQLen) s = (q1, s1)" "new_chan (nat defaultQLen) s1 = (q2, s2)"
    by (metis surj_pair)
  have "mem_ok {#} s1"
    by (rule mem_ok_new_chan [OF assms, of _ "nat defaultQLen"]) (use n(1) in \<open>auto simp: new_chan_def\<close>)
  then have m2: "mem_ok {#} s2"
    by (rule mem_ok_new_chan [of _ _ _ "nat defaultQLen"]) (use n(2) in \<open>auto simp: new_chan_def\<close>)
  obtain t where t: "newSocket ops s = op_Init ops t" "heap.truncate t = heap.truncate s2" "uwq t = q1" "urq t = q2"
      "socket.more t = socket.more s2" "\<not> active t"
    using n that by (simp add: newSocket_def heap.defs)
  from mem_ok_same [OF same_refs_truncate [OF t(2)]] m2 have "mem_ok {#} t" by simp
  with t n that show ?thesis by (auto simp: base_ok_def heap.defs new_chan_def)
qed

end
