(* ===== verification/Core_Sys.thy ===== *)
theory Core_Sys
  imports App_Sys
begin

text \<open>
  What the core does to a protocol in a running socket: it makes pipes and hands them over
  (\<^verbatim>\<open>addPipe\<close>), closes them, and shuts the protocol down. The locale \<open>core_sys\<close> says what a
  protocol must keep for none of this to panic or to disturb the socket's own queues.
\<close>

section \<open>Steps of the core\<close>

text \<open>
  \<open>CHook\<close> sets the port hook, \<open>CPipe\<close> is a connection of a dialer or a listener, \<open>CClose\<close> the
  close of a pipe (by its transport, its owner or the socket), \<open>CDetach\<close> the moment Close takes
  the set of pipes, \<open>CShut\<close> the call of the protocol's Shutdown. \<open>CSleep\<close> is any goroutine that
  blocks receiving from an empty channel, which lets a send on an unbuffered channel proceed.
\<close>

datatype core_event =
    CHook "porthook option"
  | CPipe "nat option" "nat option"
  | CClose pref
  | CDetach
  | CShut "u32 list"
  | CSleep cref

text \<open>
  A socket gets pipes when it has a dialer or a listener that started, so when it is active.
  \<open>start s s' g\<close> adds the goroutines that the protocol started on the way from \<open>s\<close> to \<open>s'\<close>.
\<close>

fun core_step ::
  "'a socket_scheme protocol_ops \<Rightarrow> ('a socket_scheme \<Rightarrow> 'a socket_scheme \<Rightarrow> 'g \<Rightarrow> 'g) \<Rightarrow> core_event \<Rightarrow>
   'g \<Rightarrow> 'a socket_scheme \<Rightarrow> ('g \<times> 'a socket_scheme) run" where
  "core_step ops start (CHook h) g s = Ret (g, snd (SetPortHook h s))"
| "core_step ops start (CPipe d l) g s =
     (if active s then run_bind (addPipe ops d l s) (\<lambda>(p, s'). Ret (start s s' g, s')) else Block)"
| "core_step ops start (CClose p) g s = run_bind (pipe_Close ops p s) (\<lambda>s'. Ret (g, s'))"
| "core_step ops start CDetach g s = Ret (g, s\<lparr>pipes := None\<rparr>)"
| "core_step ops start (CShut ord) g s =
     (if distinct ord then run_bind (op_Shutdown ops ord s) (\<lambda>s'. Ret (g, s')) else Block)"
| "core_step ops start (CSleep q) g s =
     (if chan_recv_ready (chans s q) then Block else Ret (g, upd_chan q (chan_sleep (chans s q)) s))"

text \<open>The goroutines that were started between two states.\<close>

definition started :: "'a heap_scheme \<Rightarrow> 'a heap_scheme \<Rightarrow> goroutine list" where
  "started s s' = drop (length (gos s)) (gos s')"

lemma started_same [simp]: "gos s' = gos s \<Longrightarrow> started s s' = []"
  by (simp add: started_def)

lemma started_from: "gos t = gos s \<Longrightarrow> started s s' = started t s'"
  by (simp add: started_def)

section \<open>What such steps leave alone\<close>

text \<open>The socket's own queues stay what they are, and so do the references.\<close>

definition core_same :: "'a socket_scheme \<Rightarrow> 'a socket_scheme \<Rightarrow> bool" where
  "core_same s s' \<longleftrightarrow> uwq s' = uwq s \<and> urq s' = urq s \<and> active s' = active s \<and> nextc s \<le> nextc s' \<and>
     (\<forall>q \<in> resv s. cclosed (chans s' q) = cclosed (chans s q)) \<and> (\<forall>F. mem_ok F s \<longrightarrow> mem_ok F s')"

lemma core_same_trans [trans]: "core_same s t \<Longrightarrow> core_same t u \<Longrightarrow> core_same s u"
  by (simp add: core_same_def resv_def)

lemma core_same_keeps:
  assumes "core_same s s'"
  shows "base_ok s \<Longrightarrow> base_ok s'" and "mem_ok F s \<Longrightarrow> mem_ok F s'" and "active s' = active s"
    and "uwq s' = uwq s" and "urq s' = urq s"
  using assms by (auto simp: core_same_def base_ok_def resv_def)

lemma core_sameI:
  assumes "same_refs s s'" "uwq s' = uwq s" "urq s' = urq s" "active s' = active s"
    "\<And>q. q \<in> resv s \<Longrightarrow> cclosed (chans s' q) = cclosed (chans s q)"
  shows "core_same s s'"
  using assms mem_ok_same [OF assms(1)] by (simp add: core_same_def same_refs_def)

lemma core_same_chan:
  assumes "base_ok s" "chans s' = (chans s)(nextc s := make_chan n)" "nextc s' = Suc (nextc s)"
    and "msgs s' = msgs s" "nextm s' = nextm s" "mpool s' = mpool s"
    and "uwq s' = uwq s" "urq s' = urq s" "active s' = active s"
  shows "core_same s s'"
  using assms mem_ok_new_chan [OF _ assms(2-6)] by (auto simp: core_same_def base_ok_def resv_def)

text \<open>A step that closes channels and changes the protocol's own state.\<close>

definition core_refs :: "'a socket_scheme \<Rightarrow> 'a socket_scheme \<Rightarrow> bool" where
  "core_refs s s' \<longleftrightarrow> same_refs s s' \<and> active s' = active s \<and> gos s' = gos s"

lemma core_refsD: "core_refs s s' \<Longrightarrow> same_refs s s'" "core_refs s s' \<Longrightarrow> active s' = active s" "core_refs s s' \<Longrightarrow> gos s' = gos s"
  by (simp_all add: core_refs_def)

lemma ch_close_core: "ch_close q s = Ret s' \<Longrightarrow> core_refs s s'"
  by (auto simp: ch_close_cases core_refs_def same_refs_def chan_eff split: if_splits)

lemma close_all_core: "close_all qs s = Ret s' \<Longrightarrow> core_refs s s'"
proof (induction qs arbitrary: s)
  case Nil
  then show ?case by (simp add: core_refs_def same_refs_def)
next
  case (Cons q qs)
  then obtain t where t: "ch_close q s = Ret t" "close_all qs t = Ret s'" by (auto simp: run_bind_Ret_iff)
  from ch_close_core [OF t(1)] Cons.IH [OF t(2)] show ?case by (auto simp: core_refs_def intro: same_refs_trans)
qed

text \<open>A state that has more channels and pipes, whose older channels and pipes are the same.\<close>

definition grown :: "'a socket_scheme \<Rightarrow> 'a socket_scheme \<Rightarrow> bool" where
  "grown s s' \<longleftrightarrow> nextc s \<le> nextc s' \<and> resv s' \<subseteq> resv s \<union> {nextc s..<nextc s'} \<and>
     (\<forall>q < nextc s. q \<noteq> uwq s \<longrightarrow> q \<noteq> urq s \<longrightarrow> cclosed (chans s' q) = cclosed (chans s q)) \<and>
     nextp s \<le> nextp s' \<and> (\<forall>p < nextp s. ptab s' p = ptab s p)"

lemma grown_near: "near s s' \<Longrightarrow> grown s s'"
  by (auto simp: grown_def near_def resv_def)

lemma grown_conf: "heap.truncate s' = heap.truncate s \<Longrightarrow> uwq s' = uwq s \<Longrightarrow> urq s' = urq s \<Longrightarrow> grown s s'"
  by (simp add: grown_def heap.defs resv_def)

lemma grown_queues:
  "grown s (close_on (uwq s) (s\<lparr>uwqLen := i, chans := (chans s)(nextc s := make_chan k), nextc := Suc (nextc s), uwq := nextc s\<rparr>))"
  "grown s (s\<lparr>urqLen := i, chans := (chans s)(nextc s := make_chan k), nextc := Suc (nextc s), urq := nextc s\<rparr>)"
  by (auto simp: grown_def resv_def close_on_def)

lemma grown_peers: "peers_ok P (resv s) s \<Longrightarrow> grown s s' \<Longrightarrow> peers_ok P (resv s') s'"
  by (erule peers_ok_conf) (auto simp: grown_def)

text \<open>A step of the core around a pipe, before and after the protocol's part.\<close>

definition aside :: "'a socket_scheme \<Rightarrow> 'a socket_scheme \<Rightarrow> bool" where
  "aside s s' \<longleftrightarrow> socket.more s' = socket.more s \<and> grown s s' \<and> core_same s s' \<and> gos s' = gos s \<and> nextc s' = nextc s"

lemma asideI:
  assumes "socket.more s' = socket.more s" "msgs s' = msgs s" "nextm s' = nextm s" "mpool s' = mpool s"
    "chans s' = chans s" "nextc s' = nextc s" "gos s' = gos s" "uwq s' = uwq s" "urq s' = urq s" "active s' = active s"
    "nextp s \<le> nextp s'" "\<And>p. p < nextp s \<Longrightarrow> ptab s' p = ptab s p"
  shows "aside s s'"
proof -
  have "same_refs s s'" using assms by (simp add: same_refs_def)
  with assms mem_ok_same [OF this] show ?thesis
    by (auto simp: aside_def grown_def core_same_def resv_def)
qed

lemma asideD:
  assumes "aside s s'"
  shows "socket.more s' = socket.more s" "grown s s'" "core_same s s'" "gos s' = gos s" "nextc s' = nextc s"
  using assms by (simp_all add: aside_def)

text \<open>
  \<^verbatim>\<open>addPipe\<close> makes a new pipe and then either closes it again or, with the pipe open and
  attached, hands it to the protocol.
\<close>

lemma addPipe_cases:
  assumes "newPipe s = Some (p, s0)"
  shows "(\<exists>t. aside s t \<and> addPipe ops d l s = run_bind (pipe_Close ops p t) (\<lambda>t'. Ret (None, t'))) \<or>
    (\<exists>t. aside s t \<and> p < nextp t \<and> nextp s \<le> p \<and> \<not> p_closing (ptab t p) \<and> p_sock (ptab t p) \<and>
       addPipe ops d l s = run_bind (op_AddEndpoint ops p t) (\<lambda>t'. Ret (Some p, t')))"
proof -
  obtain i nid where s0: "p = nextp s" "s0 = s\<lparr>ptab := (ptab s)(nextp s := \<lparr>p_id = i, p_closing = False, p_closeq = False,
      p_listener = None, p_dialer = None, p_sock = False, p_open = True\<rparr>), nextp := Suc (nextp s),
      byid := (byid s)(i \<mapsto> nextp s), nextid := nid\<rparr>"
    using assms by (auto simp: newPipe_def)
  let ?s1 = "upd_pipe p (\<lambda>x. x\<lparr>p_dialer := d, p_listener := l\<rparr>) s0"
  let ?h = "?s1\<lparr>hookcalls := hookcalls ?s1 @ [(PortActionAdd, p)]\<rparr>"
  let ?a = "\<lambda>A t. (upd_pipe p (\<lambda>x. x\<lparr>p_sock := True\<rparr>) t)\<lparr>pipes := Some (insert p A)\<rparr>"
  have r: "aside s ?s1" "aside s ?h" by (rule asideI; simp add: s0 upd_pipe_def)+
  have a: "aside s (?a A ?s1)" "aside s (?a A ?h)" for A by (rule asideI; simp add: s0 upd_pipe_def)+
  have p: "p < nextp (?a A t) \<and> nextp s \<le> p \<and> \<not> p_closing (ptab (?a A t) p) \<and> p_sock (ptab (?a A t) p)"
    if "t = ?s1 \<or> t = ?h" for A t
    using that by (auto simp: s0 upd_pipe_def)
  show ?thesis
  proof (cases "l = None \<and> d = None")
    case True
    with r(1) assms show ?thesis by (intro disjI1 exI [of _ ?s1]) (simp add: addPipe_def Let_def)
  next
    case False
    obtain ok t where ok: "(case porthook ?s1 of None \<Rightarrow> (True, ?s1) | Some fn \<Rightarrow> (fn PortActionAdd p, ?h)) = (ok, t)"
      by fastforce
    then have t: "t = ?s1 \<or> t = ?h" by (auto split: option.splits)
    with r have rt: "aside s t" by blast
    have eq: "addPipe ops d l s = (if \<not> ok then run_bind (pipe_Close ops p t) (\<lambda>t'. Ret (None, t'))
        else case pipes t of None \<Rightarrow> run_bind (pipe_Close ops p t) (\<lambda>t'. Ret (None, t'))
          | Some A \<Rightarrow> run_bind (op_AddEndpoint ops p (?a A t)) (\<lambda>t'. Ret (Some p, t')))"
      using False ok by (auto simp: addPipe_def assms Let_def split: option.split)
    show ?thesis
    proof (cases "\<not> ok \<or> pipes t = None")
      case True
      with eq rt show ?thesis by (intro disjI1 exI [of _ t]) auto
    next
      case False
      then obtain A where A: "pipes t = Some A" by auto
      have "aside s (?a A t)" using t a by blast
      with p [OF t, of A] eq False A show ?thesis by (intro disjI2 exI [of _ "?a A t"]) simp
    qed
  qed
qed

text \<open>
  Closing a pipe is nothing for one that closes already; else it is the protocol's part, if the
  pipe is attached, between steps that only touch the pipe's own state.
\<close>

definition pipe_same :: "'a socket_scheme \<Rightarrow> 'a socket_scheme \<Rightarrow> bool" where
  "pipe_same s s' \<longleftrightarrow> socket.more s' = socket.more s \<and> msgs s' = msgs s \<and> nextm s' = nextm s \<and> mpool s' = mpool s \<and>
     chans s' = chans s \<and> nextc s' = nextc s \<and> gos s' = gos s \<and> uwq s' = uwq s \<and> urq s' = urq s \<and> active s' = active s"

lemma pipe_same_core: "pipe_same s s' \<Longrightarrow> core_same s s'"
  by (rule core_sameI) (simp_all add: pipe_same_def same_refs_def)

lemma pipe_same_resv: "pipe_same s s' \<Longrightarrow> resv s' = resv s"
  by (simp add: pipe_same_def resv_def)

lemma pipe_same_peers: "pipe_same s s' \<Longrightarrow> peers_ok P R s' = peers_ok P R s"
  by (simp add: pipe_same_def peers_ok_def)

lemma pipe_Close_cases:
  "(\<exists>t. pipe_same s t \<and> pipe_Close ops p s = Ret t) \<or>
   (\<exists>t. pipe_same s t \<and> (\<forall>t'. op_RemoveEndpoint ops p t = Ret t' \<longrightarrow> (\<exists>u. pipe_same t' u \<and> pipe_Close ops p s = Ret u)))"
proof (cases "p_closing (ptab s p) \<or> \<not> p_sock (ptab s p)")
  case True
  then show ?thesis
    by (intro disjI1) (auto simp: pipe_Close_def ep_Close_def Let_def pipe_same_def upd_pipe_def)
next
  case False
  let ?t = "upd_pipe p (\<lambda>x. x\<lparr>p_closing := True, p_closeq := True\<rparr>) s"
  have "pipe_same s ?t" by (simp add: pipe_same_def upd_pipe_def)
  moreover have "\<exists>u. pipe_same t' u \<and> pipe_Close ops p s = Ret u" if "op_RemoveEndpoint ops p ?t = Ret t'" for t'
    using that False by (auto simp: pipe_Close_def ep_Close_def remPipe_def Let_def pipe_same_def upd_pipe_def)
  ultimately show ?thesis by blast
qed

lemma pipe_Close_keeps:
  assumes "Q s" and same: "\<And>a b. pipe_same a b \<Longrightarrow> Q a \<Longrightarrow> Q b"
    and rem: "\<And>t. Q t \<Longrightarrow> \<exists>t'. op_RemoveEndpoint ops p t = Ret t' \<and> Q t' \<and> core_same t t' \<and> gos t' = gos t"
  shows "\<exists>s'. pipe_Close ops p s = Ret s' \<and> Q s' \<and> core_same s s' \<and> gos s' = gos s"
  using pipe_Close_cases [of s ops p]
proof (elim disjE exE conjE)
  fix t assume "pipe_same s t" "pipe_Close ops p s = Ret t"
  with same assms(1) pipe_same_core show ?thesis by (auto simp: pipe_same_def)
next
  fix t assume t: "pipe_same s t" and r: "\<forall>t'. op_RemoveEndpoint ops p t = Ret t' \<longrightarrow>
      (\<exists>u. pipe_same t' u \<and> pipe_Close ops p s = Ret u)"
  from rem [OF same [OF t assms(1)]] obtain t' where t': "op_RemoveEndpoint ops p t = Ret t'" "Q t'" "core_same t t'" "gos t' = gos t"
    by blast
  with r obtain u where u: "pipe_same t' u" "pipe_Close ops p s = Ret u" by blast
  have "core_same s u" using pipe_same_core [OF t] t'(3) pipe_same_core [OF u(1)] by (blast intro: core_same_trans)
  with u same [OF u(1) t'(2)] t'(4) t show ?thesis by (auto simp: pipe_same_def)
qed

section \<open>The contract\<close>

locale core_sys =
  fixes ops :: "'a socket_scheme protocol_ops"
    and start :: "'a socket_scheme \<Rightarrow> 'a socket_scheme \<Rightarrow> 'g \<Rightarrow> 'g"
    and K :: "'g \<Rightarrow> 'a socket_scheme \<Rightarrow> bool"
    and held :: "'g \<Rightarrow> 'a socket_scheme \<Rightarrow> mref multiset"
  assumes K_grown: "K g s \<Longrightarrow> socket.more s' = socket.more s \<Longrightarrow> grown s s' \<Longrightarrow>
        uwq s' = uwq s \<or> \<not> active s \<Longrightarrow> (active s \<longrightarrow> active s') \<Longrightarrow> base_ok s' \<Longrightarrow> K g s'"
    and held_own: "socket.more s' = socket.more s \<Longrightarrow> held g s' = held g s"
    and start_none: "gos s' = gos s \<Longrightarrow> start s s' g = g"
    and start_from: "gos t = gos s \<Longrightarrow> nextc t = nextc s \<Longrightarrow> start s s' g = start t s' g"
    and close_ok: "K g s \<Longrightarrow> base_ok s \<Longrightarrow>
        \<exists>s'. pipe_Close ops p s = Ret s' \<and> K g s' \<and> core_same s s' \<and> held g s' = held g s \<and> gos s' = gos s"
    and add_ok: "K g s \<Longrightarrow> base_ok s \<Longrightarrow> active s \<Longrightarrow> p < nextp s \<Longrightarrow> \<not> p_closing (ptab s p) \<Longrightarrow> p_sock (ptab s p) \<Longrightarrow>
        \<exists>s'. op_AddEndpoint ops p s = Ret s' \<and> K (start s s' g) s' \<and> core_same s s' \<and> held (start s s' g) s' = held g s"
    and shut_ok: "K g s \<Longrightarrow> base_ok s \<Longrightarrow> distinct ord \<Longrightarrow>
        \<exists>s'. op_Shutdown ops ord s = Ret s' \<and> K g s' \<and> core_same s s' \<and> held g s' = held g s"
begin

definition core_inv :: "mref multiset \<Rightarrow> 'g \<times> 'a socket_scheme \<Rightarrow> bool" where
  "core_inv F = (\<lambda>(g, s). K g s \<and> base_ok s \<and> mem_ok (F + held g s) s)"

lemma core_inv_iff: "core_inv F (g, s) \<longleftrightarrow> K g s \<and> base_ok s \<and> mem_ok (F + held g s) s"
  by (simp add: core_inv_def)

lemma core_inv_same:
  assumes "core_inv F (g, s)" "core_same s s'" "K g' s'" "held g' s' = held g s"
  shows "core_inv F (g', s')"
  using assms core_same_keeps(1,2) [OF assms(2)] by (simp add: core_inv_iff)

lemma core_inv_aside: "core_inv F (g, s) \<Longrightarrow> aside s s' \<Longrightarrow> core_inv F (g, s')"
  using K_grown [of g s s'] held_own [of s' s g] core_same_keeps(1,3,4) [of s s']
  by (intro core_inv_same [of F g s s' g]) (auto simp: core_inv_iff dest: asideD)

lemma close_inv:
  assumes "core_inv F (g, s)"
  shows "\<exists>s'. pipe_Close ops p s = Ret s' \<and> core_inv F (g, s') \<and> gos s' = gos s"
  using assms close_ok [of g s p] core_inv_same [OF assms, of _ g] by (auto simp: core_inv_iff)

lemma pipe_inv:
  assumes "core_inv F (g, s)" "active s"
  shows "run_keeps (\<lambda>(p, s'). core_inv F (start s s' g, s')) (addPipe ops d l s)"
proof (cases "newPipe s")
  case None
  then show ?thesis by (simp add: addPipe_def)
next
  case (Some x)
  obtain p s0 where "newPipe s = Some (p, s0)" using Some by (cases x) simp
  from addPipe_cases [OF this, of ops d l] show ?thesis
  proof (elim disjE exE conjE)
    fix t assume t: "aside s t" and eq: "addPipe ops d l s = run_bind (pipe_Close ops p t) (\<lambda>t'. Ret (None, t'))"
    from close_inv [OF core_inv_aside [OF assms(1) t]] obtain s' where
      "pipe_Close ops p t = Ret s'" "core_inv F (g, s')" "gos s' = gos t" by blast
    with eq asideD(4) [OF t] show ?thesis by (simp add: start_none)
  next
    fix t assume t: "aside s t" and eq: "addPipe ops d l s = run_bind (op_AddEndpoint ops p t) (\<lambda>t'. Ret (Some p, t'))"
      and p: "p < nextp t" "\<not> p_closing (ptab t p)" "p_sock (ptab t p)"
    note i = core_inv_aside [OF assms(1) t]
    have "active t" using core_same_keeps(3) [OF asideD(3) [OF t]] assms(2) by simp
    with i add_ok [OF _ _ _ p, of g] obtain s' where s': "op_AddEndpoint ops p t = Ret s'" "K (start t s' g) s'"
        "core_same t s'" "held (start t s' g) s' = held g t"
      by (auto simp: core_inv_iff)
    from core_inv_same [OF i s'(3,2,4)] s'(1) eq start_from [of t s s' g] asideD(4,5) [OF t] show ?thesis by simp
  qed
qed

lemma core_keeps:
  assumes "core_inv F (g, s)"
  shows "run_keeps (core_inv F) (core_step ops start e g s)"
proof (cases e)
  case (CHook h)
  have "aside s (snd (SetPortHook h s))" by (rule asideI) (simp_all add: SetPortHook_def)
  from core_inv_aside [OF assms this] CHook show ?thesis by simp
next
  case (CPipe d l)
  show ?thesis
  proof (cases "active s")
    case True
    show ?thesis unfolding CPipe using True
      by simp (rule run_keeps_bind [OF pipe_inv [OF assms True]], auto)
  qed (simp add: CPipe)
next
  case (CClose p)
  with close_inv [OF assms, of p] show ?thesis by auto
next
  case CDetach
  have "aside s (s\<lparr>pipes := None\<rparr>)" by (rule asideI) simp_all
  from core_inv_aside [OF assms this] CDetach show ?thesis by simp
next
  case (CShut ord)
  show ?thesis
  proof (cases "distinct ord")
    case True
    with shut_ok [of g s ord] assms obtain s' where "op_Shutdown ops ord s = Ret s'" "K g s'" "core_same s s'" "held g s' = held g s"
      by (auto simp: core_inv_iff)
    with core_inv_same [OF assms] CShut True show ?thesis by simp
  qed (simp add: CShut)
next
  case (CSleep q)
  let ?t = "upd_chan q (chan_sleep (chans s q)) s"
  have t: "near s ?t" by (simp add: near_def upd_chan_def chan_sleep_def)
  then have f: "uwq ?t = uwq s" "active ?t = active s" "socket.more ?t = socket.more s"
    by (simp_all add: near_def upd_chan_def)
  have c: "core_same s ?t"
    by (rule core_sameI) (simp_all add: same_refs_def upd_chan_def chan_sleep_def)
  have "K g ?t" using assms f core_same_keeps(1) [OF c] by (intro K_grown [OF _ f(3) grown_near [OF t]]) (auto simp: core_inv_iff)
  from core_inv_same [OF assms c this held_own [OF f(3)]] CSleep show ?thesis by simp
qed

end

end
