(* ===== verification/Mem_Sys.thy ===== *)
theory Mem_Sys
  imports Core_Sys
begin

text \<open>
  A whole socket with a queue for each peer: its goroutines as in \<open>Peer_Sys\<close>, and the
  application that creates, shares, sends, receives and frees messages, transports that
  deliver and take messages, options being set, timers, and the close. The locale
  \<open>mem_sys\<close> lists what a protocol must do for no run of it to panic or to use a message that
  is in the cache; each of the protocols interprets it.
\<close>

section \<open>Events\<close>

text \<open>
  A configuration: the send channel the sender goroutine holds (\<open>None\<close> once it left), the
  references the application holds, and the state. \<open>MArrive\<close> is a round of a receiver whose
  endpoint returned a new message with the body given, \<open>MReadFails\<close> one whose endpoint
  failed; \<open>MPeer q e fr\<close> is a round of the sender of the peer with queue \<open>q\<close>, whose transport
  answers \<open>e\<close> and frees the message or not (\<open>tran_send\<close>). \<open>MCall\<close> is a call of the application,
  \<open>MCore\<close> a step of the core, which makes the pipes and closes them.
\<close>

datatype 'p mem_event =
    MSender "u32 list" top_arm
  | MArrive "u32 list" up_arm 'p mref pref bytes
  | MReadFails "u32 list" up_arm 'p
  | MPeer cref "err option" bool
  | MTick
  | MCore core_event
  | MCall app_event

type_synonym 'a mem_conf = "cref option \<times> mref list \<times> 'a socket_scheme"

fun mem_step ::
  "'a socket_scheme protocol_ops \<Rightarrow>
   (u32 list \<Rightarrow> top_arm \<Rightarrow> cref \<Rightarrow> 'a socket_scheme \<Rightarrow> ((ctl \<times> cref) \<times> 'a socket_scheme) run) \<Rightarrow>
   (u32 list \<Rightarrow> up_arm \<Rightarrow> cref \<Rightarrow> 'p \<Rightarrow> mref option \<Rightarrow> 'a socket_scheme \<Rightarrow> (ctl \<times> 'a socket_scheme) run) \<Rightarrow>
   ('a socket_scheme \<Rightarrow> 'a socket_scheme run) \<Rightarrow>
   'p mem_event \<Rightarrow> 'a mem_conf \<Rightarrow> 'a mem_conf run" where
  "mem_step ops snder rcver tick (MSender ord pick) (sd, H, s) =
     (case sd of
        None \<Rightarrow> Block
      | Some sq \<Rightarrow> run_bind (snder ord pick sq s) (\<lambda>((c, sq'), s').
          Ret (if c = Exit then None else Some sq', H, s')))"
| "mem_step ops snder rcver tick (MArrive ord pick ep fresh p b) (sd, H, s) =
     (let (m, s1) = arrival fresh p b s
      in run_bind (rcver ord pick (urq s1) ep (Some m) s1) (\<lambda>(c, s'). Ret (sd, H, s')))"
| "mem_step ops snder rcver tick (MReadFails ord pick ep) (sd, H, s) =
     run_bind (rcver ord pick (urq s) ep None s) (\<lambda>(c, s'). Ret (sd, H, s'))"
| "mem_step ops snder rcver tick (MPeer q e fr) (sd, H, s) =
     run_bind (peer_sender (tran_send e fr) q s) (\<lambda>(c, s'). Ret (sd, H, s'))"
| "mem_step ops snder rcver tick MTick (sd, H, s) = run_bind (tick s) (\<lambda>s'. Ret (sd, H, s'))"
| "mem_step ops snder rcver tick (MCore e) (sd, H, s) =
     run_bind (core_step ops (\<lambda>_ _ sd. sd) e sd s) (\<lambda>(sd', s'). Ret (sd', H, s'))"
| "mem_step ops snder rcver tick (MCall e) (sd, c) = run_bind (app_step ops e c) (\<lambda>c'. Ret (sd, c'))"

section \<open>The invariant\<close>

text \<open>
  The goroutines' invariant, the socket's send queue open and not its receive queue, and no reference that is held or
  queued is to a message that was freed.
\<close>

definition mem_inv ::
  "('a socket_scheme \<Rightarrow> u32 \<rightharpoonup> cref) \<Rightarrow> ('a socket_scheme \<Rightarrow> int) \<Rightarrow> 'a mem_conf \<Rightarrow> bool" where
  "mem_inv peers wcnt = (\<lambda>(sd, H, s). sys_inv peers wcnt (sd, s) \<and>
     \<not> cclosed (chans s (uwq s)) \<and> uwq s \<noteq> urq s \<and> mem_ok (mset H) s)"

text \<open>A step that changes only settings, or the protocol's own state aside from its peers.\<close>

definition tame ::
  "('a socket_scheme \<Rightarrow> u32 \<rightharpoonup> cref) \<Rightarrow> ('a socket_scheme \<Rightarrow> int) \<Rightarrow>
   'a socket_scheme \<Rightarrow> 'a socket_scheme \<Rightarrow> bool" where
  "tame peers wcnt s s' \<longleftrightarrow> same_refs s s' \<and> chans s' = chans s \<and> uwq s' = uwq s \<and> urq s' = urq s \<and>
     peers s' = peers s \<and> wcnt s' = wcnt s"

lemma mem_ok_peer_sender:
  assumes "mem_ok F s"
  shows "run_keeps (\<lambda>(c, s'). mem_ok F s' \<and> quiet s s') (peer_sender (tran_send e fr) q s)"
proof (cases "cbuf (chans s q)")
  case Nil
  with assms show ?thesis by (simp add: peer_sender_def ch_recv_cases)
next
  case (Cons m ms)
  have m: "mem_ok (add_mset m F) (pop_on q s)" using assms Cons by (rule mem_ok_pop)
  from mem_ok_Free [OF this] mem_ok_drop [OF this] Cons show ?thesis
    by (simp add: peer_sender_def ch_recv_cases tran_send_def)
qed

section \<open>The contract\<close>

locale mem_sys = peer_sys peers qcap add rem ops wcnt fin handle rcver
  for peers :: "'a socket_scheme \<Rightarrow> u32 \<rightharpoonup> cref"
    and qcap :: "'a socket_scheme \<Rightarrow> nat"
    and add :: "pref \<Rightarrow> 'a socket_scheme \<Rightarrow> 'a socket_scheme"
    and rem :: "pref \<Rightarrow> 'a socket_scheme \<Rightarrow> 'a socket_scheme run"
    and ops :: "'a socket_scheme protocol_ops"
    and wcnt :: "'a socket_scheme \<Rightarrow> int"
    and fin :: "'a socket_scheme \<Rightarrow> 'a socket_scheme run"
    and handle :: "u32 list \<Rightarrow> mref \<Rightarrow> 'a socket_scheme \<Rightarrow> 'a socket_scheme run"
    and rcver :: "u32 list \<Rightarrow> up_arm \<Rightarrow> cref \<Rightarrow> 'p \<Rightarrow> mref option \<Rightarrow> 'a socket_scheme \<Rightarrow> (ctl \<times> 'a socket_scheme) run" +
  fixes tick :: "'a socket_scheme \<Rightarrow> 'a socket_scheme run"
  assumes handle_mem: "peers_ok (peers s) (resv s) s \<Longrightarrow> mem_ok (add_mset m F) s \<Longrightarrow>
        handle ord m s = Ret s' \<Longrightarrow> mem_ok F s'"
    and rcver_mem: "peers_ok (peers s) (resv s) s \<Longrightarrow> \<not> cclosed (chans s (urq s)) \<Longrightarrow>
        mem_ok (add_mset m F) s \<Longrightarrow> rcver ord pick (urq s) pe (Some m) s = Ret (c, s') \<Longrightarrow> mem_ok F s'"
    and rcver_none: "rcver ord pick rq pe None s = Ret (c, s') \<Longrightarrow> s' = s"
    and fin_mem: "fin s = Ret s' \<Longrightarrow> same_refs s s'"
    and add_mem: "msgs (add p s) = msgs s" "nextm (add p s) = nextm s" "mpool (add p s) = mpool s"
        "active (add p s) = active s"
    and rem_mem: "rem p s = Ret s' \<Longrightarrow> core_refs s s'"
    and shutdown_mem: "op_Shutdown ops ord s = Ret s' \<Longrightarrow> core_refs s s'"
    and hook_tame: "op_SendHook ops = Some hook \<or> op_RecvHook ops = Some hook \<Longrightarrow>
        \<exists>b s'. hook m s = Ret (b, s') \<and> tame peers wcnt s s'"
    and set_tame: "tame peers wcnt s (snd (op_SetOption ops n v s))"
    and tick_tame: "run_keeps (tame peers wcnt s) (tick s)"
begin

lemma wq_quiet: "quiet s s' \<Longrightarrow> cclosed (chans s' (uwq s')) = cclosed (chans s (uwq s)) \<and>
    uwq s' = uwq s \<and> urq s' = urq s"
  by (simp add: quiet_def)

lemma mem_inv_quiet:
  "mem_inv peers wcnt (sd, H, s) \<Longrightarrow> quiet s s' \<Longrightarrow> mem_ok (mset H') s' \<Longrightarrow> mem_inv peers wcnt (sd, H', s')"
  using inv_quiet [of sd s s'] wq_quiet [of s s'] by (auto simp: mem_inv_def)

lemma mem_inv_tame:
  assumes "mem_inv peers wcnt (sd, H, s)" "tame peers wcnt s s'"
  shows "mem_inv peers wcnt (sd, H, s')"
  using assms peers_ok_cong [of "peers s" "resv s" s s']
  by (simp add: mem_inv_def sys_inv_def tame_def resv_def same_refs_def mem_ok_same [of s s', symmetric])

lemma mem_invD:
  assumes "mem_inv peers wcnt (sd, H, s)"
  shows "sys_inv peers wcnt (sd, s)" "mem_ok (mset H) s" "peers_ok (peers s) (resv s) s"
    "\<not> cclosed (chans s (urq s))" "\<not> cclosed (chans s (uwq s))" "urq s < nextc s" "uwq s < nextc s"
    "uwq s \<noteq> urq s"
  using assms by (auto simp: mem_inv_def sys_inv_def peers_ok_def resv_def)

text \<open>The goroutines.\<close>

lemma sender_mem:
  assumes "mem_inv peers wcnt (Some sq, H, s)"
  shows "run_keeps (\<lambda>(x, s'). mem_ok (mset H) s' \<and> \<not> cclosed (chans s' (uwq s')) \<and> uwq s' \<noteq> urq s')
    (sender_loop fin (handle ord) pick sq s)"
proof (cases "top_recv pick sq s")
  case (Ret t)
  note D = mem_invD [OF assms]
  from top_recv_Ret [OF Ret] consider "t = TopClosed" | "t = TopRefetch s"
    | x where "t = TopMsg x (pop_on sq s)"
    by auto
  then show ?thesis
  proof cases
    case 1
    have "1 \<le> wcnt s" using D(1) by (simp add: sys_inv_def)
    then obtain s' where s': "fin s = Ret s'" "chans s' = chans s" "uwq s' = uwq s" "urq s' = urq s"
      using fin_ok by blast
    with 1 Ret D mem_ok_same [OF fin_mem [OF s'(1)]] show ?thesis by (simp add: sender_loop_def)
  next
    case 2
    with Ret D show ?thesis by (simp add: sender_loop_def)
  next
    case (3 m)
    have q: "quiet s (pop_on sq s)" by simp
    have i: "mem_ok (add_mset m (mset H)) (pop_on sq s)"
      using mem_ok_top_recv [OF D(2)] Ret 3 by simp
    have pk: "peers_ok (peers (pop_on sq s)) (resv (pop_on sq s)) (pop_on sq s)"
      using inv_quiet [OF D(1) q] by (simp add: sys_inv_def)
    from handle_ok [OF this] obtain s' where s': "handle ord m (pop_on sq s) = Ret s'" "quiet (pop_on sq s) s'"
      by blast
    from quiet_trans [OF q s'(2)] have "\<not> cclosed (chans s' (uwq s'))" "uwq s' \<noteq> urq s'"
      using D(5,8) by (simp_all add: quiet_def)
    with handle_mem [OF pk i s'(1)] 3 Ret s'(1) show ?thesis by (simp add: sender_loop_def)
  qed
qed (auto simp: sender_loop_def)

lemma sender_step:
  assumes "mem_inv peers wcnt (sd, H, s)"
  shows "run_keeps (mem_inv peers wcnt)
    (mem_step ops (\<lambda>ord. sender_loop fin (handle ord)) rcver tick (MSender ord pick) (sd, H, s))"
proof (cases sd)
  case (Some sq)
  with sender_inv [OF mem_invD(1) [OF assms], of ord pick] sender_mem [of sq H s ord pick] assms
  show ?thesis by (cases "sender_loop fin (handle ord) pick sq s") (auto simp: mem_inv_def)
qed simp

lemma arrive_step:
  assumes "mem_inv peers wcnt (sd, H, s)"
  shows "run_keeps (mem_inv peers wcnt) (mem_step ops snder rcver tick (MArrive ord pick ep fresh p b) (sd, H, s))"
proof -
  obtain m s1 where a: "arrival fresh p b s = (m, s1)" by fastforce
  note D = mem_invD [OF assms]
  have m: "mem_ok (add_mset m (mset H)) s1" and q: "quiet s s1" using arrival_calm [OF a D(2)] by (simp_all add: calm_quiet)
  have i: "mem_inv peers wcnt (sd, H, s1)" using assms q mem_ok_drop [OF m] by (rule mem_inv_quiet)
  note D1 = mem_invD [OF i]
  have "run_keeps (mem_inv peers wcnt) (Ret (sd, H, s'))"
    if "rcver ord pick (urq s1) ep (Some m) s1 = Ret (c, s')" for c s'
    using mem_inv_quiet [OF i] rcver_ok [OF D1(3,4)] rcver_mem [OF D1(3,4) m that] that by auto
  with a rcver_ok [OF D1(3,4), of ord pick ep "Some m"] show ?thesis
    by (cases "rcver ord pick (urq s1) ep (Some m) s1") auto
qed

lemma goroutine_steps:
  assumes "mem_inv peers wcnt (sd, H, s)"
  shows "run_keeps (mem_inv peers wcnt) (mem_step ops snder rcver tick (MReadFails ord pick ep) (sd, H, s))"
    and "run_keeps (mem_inv peers wcnt) (mem_step ops snder rcver tick (MPeer q e fr) (sd, H, s))"
    and "run_keeps (mem_inv peers wcnt) (mem_step ops snder rcver tick MTick (sd, H, s))"
proof -
  note D = mem_invD [OF assms]
  show "run_keeps (mem_inv peers wcnt) (mem_step ops snder rcver tick (MReadFails ord pick ep) (sd, H, s))"
    using rcver_ok [OF D(3,4), of ord pick ep None] assms
    by (cases "rcver ord pick (urq s) ep None s") (auto dest: rcver_none)
  show "run_keeps (mem_inv peers wcnt) (mem_step ops snder rcver tick (MPeer q e fr) (sd, H, s))"
    unfolding mem_step.simps
    by (rule run_keeps_bind [OF mem_ok_peer_sender [OF D(2)]]) (auto intro: mem_inv_quiet [OF assms])
  show "run_keeps (mem_inv peers wcnt) (mem_step ops snder rcver tick MTick (sd, H, s))"
    unfolding mem_step.simps
    by (rule run_keeps_bind [OF tick_tame]) (auto intro: mem_inv_tame [OF assms])
qed

text \<open>The calls: they do not touch the table of peers.\<close>

lemma mem_inv_conf:
  assumes "sys_inv peers wcnt (sd, s)" "socket.more s' = socket.more s" "nextc s \<le> nextc s'"
    and "\<And>q. q < nextc s \<Longrightarrow> q \<noteq> uwq s \<Longrightarrow> q \<noteq> urq s \<Longrightarrow> cclosed (chans s' q) = cclosed (chans s q)"
    and "resv s' \<subseteq> resv s \<union> {nextc s..<nextc s'}" "\<not> cclosed (chans s' (urq s'))"
  shows "sys_inv peers wcnt (sd, s')"
  using assms(1,6) own_state [OF assms(2)] peers_ok_conf [OF _ assms(3-5), of "peers s"] by (simp add: sys_inv_def)

lemma tame_keeps:
  assumes "tame peers wcnt s s'" "sys_inv peers wcnt (sd, s)" "base_ok s" "mem_ok F s"
  shows "sys_inv peers wcnt (sd, s') \<and> base_ok s' \<and> mem_ok F s'"
  using assms peers_ok_cong [of "peers s" "resv s" s s']
  by (auto simp: sys_inv_def tame_def resv_def same_refs_def base_ok_def mem_ok_same [of s s', symmetric])

lemma mem_inv_app:
  "mem_inv peers wcnt (sd, H, s) \<longleftrightarrow> app_inv (\<lambda>sd s. sys_inv peers wcnt (sd, s)) (\<lambda>_ _. {#}) sd (H, s)"
  by (auto simp: mem_inv_def app_inv_def base_ok_def sys_inv_def peers_ok_def resv_def)

sublocale app: sock_app ops "\<lambda>sd s. sys_inv peers wcnt (sd, s)" "\<lambda>_ _. {#}"
proof unfold_locales
  fix sd :: "cref option" and s s' :: "'a socket_scheme"
  assume i: "sys_inv peers wcnt (sd, s)"
  show "sys_inv peers wcnt (sd, s')" if "calm s s'" using inv_quiet [OF i] that by (simp add: calm_quiet)
  have rq: "\<not> cclosed (chans s (urq s))" using i by (simp add: sys_inv_def)
  show "sys_inv peers wcnt (sd, s')"
    if "socket.more s' = socket.more s" "heap.truncate s' = heap.truncate s" "uwq s' = uwq s" "urq s' = urq s"
  proof -
    have h: "chans s' = chans s" "nextc s' = nextc s" using that(2) by (simp_all add: heap.defs)
    show ?thesis by (rule mem_inv_conf [OF i that(1)]) (use h that(3,4) rq in \<open>simp_all add: resv_def\<close>)
  qed
  fix j k
  assume b: "base_ok s"
  show "sys_inv peers wcnt (sd, close_on (uwq s) (s\<lparr>uwqLen := j, chans := (chans s)(nextc s := make_chan k),
      nextc := Suc (nextc s), uwq := nextc s\<rparr>))"
    by (rule mem_inv_conf [OF i]) (use base_okD [OF b] in \<open>auto simp: close_on_def resv_def\<close>)
  show "sys_inv peers wcnt (sd, s\<lparr>urqLen := j, chans := (chans s)(nextc s := make_chan k),
      nextc := Suc (nextc s), urq := nextc s\<rparr>)"
    by (rule mem_inv_conf [OF i]) (auto simp: resv_def)
next
  fix hook sd s m F
  assume h: "op_SendHook ops = Some hook \<or> op_RecvHook ops = Some hook"
    and "sys_inv peers wcnt (sd, s)" "base_ok s" "mem_ok (add_mset m F + {#}) s"
  with hook_tame [OF h, of m s] tame_keeps [of s]
  show "\<exists>b s'. hook m s = Ret (b, s') \<and> sys_inv peers wcnt (sd, s') \<and> base_ok s' \<and> mem_ok (add_mset m F + {#}) s'"
    by fastforce
next
  fix sd s F n v e s'
  assume "sys_inv peers wcnt (sd, s)" "base_ok s" "mem_ok (F + {#}) s" "op_SetOption ops n v s = (e, s')"
  with set_tame [of s n v] tame_keeps [of s s']
  show "sys_inv peers wcnt (sd, s') \<and> base_ok s' \<and> mem_ok (F + {#}) s'" by simp
qed simp

text \<open>The core: pipes come and go in the table of peers, and Shutdown empties it.\<close>

lemma core_rem:
  assumes "sys_inv peers wcnt (sd, s)" "base_ok s"
  shows "\<exists>s'. op_RemoveEndpoint ops p s = Ret s' \<and> (sys_inv peers wcnt (sd, s') \<and> base_ok s') \<and> core_same s s' \<and> gos s' = gos s"
proof -
  from rem_inv [OF assms(1), of p] obtain s' where s': "rem p s = Ret s'" "sys_inv peers wcnt (sd, s')" by blast
  note m = core_refsD [OF rem_mem [OF s'(1)]]
  have "cclosed (chans s' q) = cclosed (chans s q)" if "q \<in> resv s" for q
  proof (cases "peers s (p_id (ptab s p))")
    case None
    from rem_absent [OF this] s'(1) show ?thesis by auto
  next
    case (Some r)
    have "\<not> cclosed (chans s r)" "q \<noteq> r" 
      using assms(1) peers_okD [of "peers s" "resv s" s "p_id (ptab s p)" r] Some that by (auto simp: sys_inv_def)
    with rem_present [OF Some] s'(1) show ?thesis by (auto simp: chan_eff)
  qed
  with rem_keeps [OF s'(1)] m(2) have c: "core_same s s'" by (intro core_sameI [OF m(1)]) simp_all
  from s' c m(3) core_same_keeps(1) [OF c assms(2)] show ?thesis by (simp add: rem_op)
qed

sublocale mcore: core_sys ops "\<lambda>_ _ sd. sd" "\<lambda>sd s. sys_inv peers wcnt (sd, s)" "\<lambda>_ _. {#}"
proof unfold_locales
  fix sd :: "cref option" and s s' :: "'a socket_scheme" and p ord
  assume i: "sys_inv peers wcnt (sd, s)"
  show "sys_inv peers wcnt (sd, s')" if "socket.more s' = socket.more s" "grown s s'" "base_ok s'"
    using that base_okD(2) [OF that(3)] by (intro mem_inv_conf [OF i]) (auto simp: grown_def)
  show "\<exists>s'. pipe_Close ops p s = Ret s' \<and> sys_inv peers wcnt (sd, s') \<and> core_same s s' \<and> {#} = {#} \<and> gos s' = gos s"
    if "base_ok s"
  proof -
    have "\<exists>s'. pipe_Close ops p s = Ret s' \<and> (sys_inv peers wcnt (sd, s') \<and> base_ok s') \<and> core_same s s' \<and> gos s' = gos s"
    proof (rule pipe_Close_keeps)
      fix a b assume ab: "pipe_same a b" and a: "sys_inv peers wcnt (sd, a) \<and> base_ok a"
      then have "peers b = peers a \<and> wcnt b = wcnt a" by (intro own_state) (simp add: pipe_same_def)
      with a pipe_same_peers [OF ab] pipe_same_resv [OF ab] ab show "sys_inv peers wcnt (sd, b) \<and> base_ok b"
        by (simp add: sys_inv_def pipe_same_def base_ok_def)
    qed (use i that core_rem in simp_all)
    then show ?thesis by blast
  qed
  show "\<exists>s'. op_AddEndpoint ops p s = Ret s' \<and> sys_inv peers wcnt (sd, s') \<and> core_same s s' \<and> {#} = {#}" if "base_ok s"
    using add_inv [OF i, of p] core_same_chan [OF that chans_add nextc_add, of p]
    by (simp add: add_op add_mem add_keeps)
  show "\<exists>s'. op_Shutdown ops ord s = Ret s' \<and> sys_inv peers wcnt (sd, s') \<and> core_same s s' \<and> {#} = {#}" if "distinct ord"
  proof -
    from shutdown_inv [OF i that] obtain s' where s': "op_Shutdown ops ord s = Ret s'" "sys_inv peers wcnt (sd, s')" by blast
    note m = core_refsD [OF shutdown_mem [OF s'(1)]]
    have "uwq s' = uwq s" "urq s' = urq s" "\<forall>q \<in> resv s. chans s' q = chans s q"
      using shutdown_ok [OF _ that, of s] i s'(1) by (auto simp: sys_inv_def)
    with m(2) have "core_same s s'" by (intro core_sameI [OF m(1)]) simp_all
    with s' show ?thesis by simp
  qed
qed simp_all

lemma core_event_step:
  assumes "mem_inv peers wcnt (sd, H, s)"
  shows "run_keeps (mem_inv peers wcnt) (mem_step ops snder rcver tick (MCore e) (sd, H, s))"
proof -
  have "mcore.core_inv (mset H) (sd, s)" using assms [unfolded mem_inv_app] by (simp add: mcore.core_inv_iff app_inv_iff)
  from mcore.core_keeps [OF this] show ?thesis
    unfolding mem_step.simps
    by (rule run_keeps_bind) (auto simp: mem_inv_app app_inv_iff mcore.core_inv_iff)
qed

lemma call_step:
  assumes "mem_inv peers wcnt (sd, H, s)"
  shows "run_keeps (mem_inv peers wcnt) (mem_step ops snder rcver tick (MCall e) (sd, H, s))"
  unfolding mem_step.simps
  by (rule run_keeps_bind [OF app.app_keeps [OF assms [unfolded mem_inv_app]]]) (auto simp: mem_inv_app)

text \<open>Every event.\<close>

lemma mem_inv_step:
  assumes "mem_inv peers wcnt c"
  shows "run_keeps (mem_inv peers wcnt) (mem_step ops (\<lambda>ord. sender_loop fin (handle ord)) rcver tick e c)"
proof -
  obtain sd H s where c: "c = (sd, H, s)" by (cases c)
  with assms have i: "mem_inv peers wcnt (sd, H, s)" by simp
  show ?thesis
    unfolding c
    by (cases e) (use i in \<open>auto intro!: sender_step arrive_step goroutine_steps core_event_step call_step
      simp del: mem_step.simps\<close>)
qed

lemma mem_events:
  assumes "mem_inv peers wcnt c"
  shows "run_keeps (mem_inv peers wcnt)
    (run_events (mem_step ops (\<lambda>ord. sender_loop fin (handle ord)) rcver tick) es c)"
  by (rule run_keeps_events [OF mem_inv_step assms])

end

section \<open>A new socket\<close>

text \<open>The configuration after NewSocket, with an application that holds nothing.\<close>

definition mem_start :: "cref option \<times> 'a socket_scheme \<Rightarrow> 'a mem_conf" where
  "mem_start = (\<lambda>(sd, s). (sd, [], s))"

lemma mem_start_inv:
  assumes "sys_inv peers wcnt (sd, newSocket ops s)" "mem_ok {#} s"
    and "\<And>t. tame (\<lambda>_. Map.empty) (\<lambda>_. 0) t (op_Init ops t)"
  shows "mem_inv peers wcnt (mem_start (sd, newSocket ops s))"
proof -
  obtain t where t: "newSocket ops s = op_Init ops t" "mem_ok {#} t" "base_ok t"
    using newSocket_init [OF assms(2)] by blast
  with assms(1) assms(3) [of t] show ?thesis
    by (auto simp: mem_start_def mem_inv_def tame_def base_ok_def mem_ok_same [of t, symmetric])
qed

end
