(* ===== verification/Rep.thy ===== *)
theory Rep
  imports Mem_Sys
begin

text \<open>
  protocol/rep/rep.go: the reply side of request/reply. Each peer has a queue of two
  messages and a goroutine that sends from it; a request's backtrace is saved when the
  application receives it and becomes the header of the reply.
\<close>

section \<open>State\<close>

record repEp =
  re_q :: cref
  re_ep :: pref

record rep = socket +
  rep_eps :: "u32 \<rightharpoonup> repEp"
  rep_backtrace :: "bytes option"
  rep_raw :: bool
  rep_ttl :: int
  rep_w :: waiter

definition rep_queues :: "rep \<Rightarrow> u32 \<rightharpoonup> cref" where
  "rep_queues s = map_option re_q \<circ> rep_eps s"

section \<open>Operations\<close>

definition rep_NewProtocol :: "rep \<Rightarrow> rep" where
  "rep_NewProtocol s = s\<lparr>rep_eps := Map.empty, rep_backtrace := None, rep_raw := False,
     rep_ttl := 0, rep_w := \<lparr>w_cnt = 0\<rparr>\<rparr>"

definition rep_Init :: "rep \<Rightarrow> rep" where
  "rep_Init s =
     (let s1 = s\<lparr>rep_eps := Map.empty, rep_ttl := 8, rep_w := w_Init (rep_w s)\<rparr>;
          s2 = SetSendError (Some ErrProtoState) s1;
          s3 = s2\<lparr>rep_w := w_Add (rep_w s2)\<rparr>
      in spawn GSender s3)"

definition rep_Shutdown :: "u32 list \<Rightarrow> rep \<Rightarrow> rep run" where
  "rep_Shutdown ord s =
     (let peers = rep_eps s;
          s1 = s\<lparr>rep_eps := Map.empty\<rparr>
      in close_all (map (re_q \<circ> snd) (peer_list ord peers)) s1)"

text \<open>\<^verbatim>\<open>(pe *repEp) sender()\<close>\<close>

definition repEp_sender ::
  "(mref \<Rightarrow> rep \<Rightarrow> (err option \<times> rep) run) \<Rightarrow> repEp \<Rightarrow> rep \<Rightarrow> (ctl \<times> rep) run" where
  "repEp_sender send pe s = peer_sender send (re_q pe) s"

text \<open>
  One round of \<^verbatim>\<open>receiver\<close>, after \<^verbatim>\<open>ep.RecvMsg()\<close> returned \<open>m\<close>. A message with too many
  hops, or garbled, ends the goroutine.
\<close>

definition rep_receiver :: "up_arm \<Rightarrow> cref \<Rightarrow> pref \<Rightarrow> mref option \<Rightarrow> rep \<Rightarrow> (ctl \<times> rep) run" where
  "rep_receiver pick rq ep m s =
     (case m of
        None \<Rightarrow> Ret (Exit, s)
      | Some r \<Rightarrow>
          let s1 = append_hdr r (be32 (GetID s ep)) s;
              (ok, s2) = backtrace_loop (rep_ttl s1) 0 r s1
          in if \<not> ok then Ret (Exit, s2)
             else run_bind (up_send pick rq r s2) (\<lambda>(up, s3).
                    Ret (if up then (Loop, s3) else (Exit, Free r s3))))"

text \<open>The middle of \<^verbatim>\<open>sender\<close>: route a message by the identifier at the front of its header.\<close>

definition rep_route :: "mref \<Rightarrow> rep \<Rightarrow> rep run" where
  "rep_route m s =
     (if length (hdr_bytes (msgs s m)) < 4 then Ret (Free m s)
      else
        (case be_Uint32 (hdr_bytes (msgs s m)) of
           None \<Rightarrow> Panic
         | Some i \<Rightarrow>
             let s1 = drop_hdr4 m s
             in (case rep_eps s1 i of
                   None \<Rightarrow> Ret (Free m s1)
                 | Some pe \<Rightarrow> offer (re_q pe) m s1)))"

text \<open>\<^verbatim>\<open>defer r.w.Done()\<close>, and one round of \<^verbatim>\<open>sender\<close> with the send channel \<open>sq\<close>.\<close>

definition rep_fin :: "rep \<Rightarrow> rep run" where
  "rep_fin s = run_bind (w_Done (rep_w s)) (\<lambda>(w, _). Ret (s\<lparr>rep_w := w\<rparr>))"

definition rep_sender :: "top_arm \<Rightarrow> cref \<Rightarrow> rep \<Rightarrow> ((ctl \<times> cref) \<times> rep) run" where
  "rep_sender = sender_loop rep_fin rep_route"

definition rep_AddEndpoint :: "pref \<Rightarrow> rep \<Rightarrow> rep" where
  "rep_AddEndpoint ep s =
     (let (q, s1) = new_chan 2 s;
          s2 = s1\<lparr>rep_eps := (rep_eps s1)(GetID s1 ep \<mapsto> \<lparr>re_q = q, re_ep = ep\<rparr>)\<rparr>
      in spawn (GPeerSender q) (spawn (GReceiver ep) s2))"

definition rep_RemoveEndpoint :: "pref \<Rightarrow> rep \<Rightarrow> rep run" where
  "rep_RemoveEndpoint ep s =
     (let i = GetID s ep;
          pe = rep_eps s i;
          s1 = s\<lparr>rep_eps := (rep_eps s)(i := None)\<rparr>
      in case pe of None \<Rightarrow> Ret s1 | Some e \<Rightarrow> ch_close (re_q e) s1)"

text \<open>\<^verbatim>\<open>backtracebuf[0:0]\<close> is not nil, so the saved backtrace never is.\<close>

definition rep_RecvHook :: "mref \<Rightarrow> rep \<Rightarrow> (bool \<times> rep) run" where
  "rep_RecvHook m s =
     (if rep_raw s then Ret (True, s)
      else
        let s1 = SetSendError None s;
            s2 = s1\<lparr>rep_backtrace := Some (hdr_bytes (msgs s1 m))\<rparr>
        in Ret (True, set_hdr m None s2))"

definition rep_SendHook :: "mref \<Rightarrow> rep \<Rightarrow> (bool \<times> rep) run" where
  "rep_SendHook m s =
     (if rep_raw s then Ret (True, s)
      else
        let s1 = SetSendError (Some ErrProtoState) s;
            h = slice_append (map_option (\<lambda>_. []) (hdr (msgs s1 m))) (slice_bytes (rep_backtrace s1));
            s2 = (set_hdr m h s1)\<lparr>rep_backtrace := None\<rparr>
        in Ret (hdr (msgs s2 m) \<noteq> None, s2))"

definition rep_SetOption :: "string \<Rightarrow> goval \<Rightarrow> rep \<Rightarrow> err option \<times> rep" where
  "rep_SetOption name v s =
     (if name = OptionRaw then
        (case v of
           VBool b \<Rightarrow>
             let s1 = s\<lparr>rep_raw := b\<rparr>
             in if b then (None, SetSendError None s1)
                else (None, SetSendError (Some ErrProtoState) s1)
         | _ \<Rightarrow> (Some ErrBadValue, s\<lparr>rep_raw := False\<rparr>))
      else if name = OptionTTL then
        (case v of
           VInt t \<Rightarrow> if t < 1 \<or> t > 255 then (Some ErrBadValue, s) else (None, s\<lparr>rep_ttl := t\<rparr>)
         | _ \<Rightarrow> (Some ErrBadValue, s))
      else (Some ErrBadOption, s))"

definition rep_GetOption :: "string \<Rightarrow> rep \<Rightarrow> err + goval" where
  "rep_GetOption name s =
     (if name = OptionRaw then Inr (VBool (rep_raw s))
      else if name = OptionTTL then Inr (VInt (rep_ttl s))
      else Inl ErrBadOption)"

definition rep_ops :: "rep protocol_ops" where
  "rep_ops = \<lparr>op_Init = rep_Init, op_Shutdown = rep_Shutdown,
     op_AddEndpoint = (\<lambda>ep s. Ret (rep_AddEndpoint ep s)),
     op_RemoveEndpoint = rep_RemoveEndpoint,
     op_Number = ProtoRep, op_Name = ''rep'', op_PeerNumber = ProtoReq, op_PeerName = ''req'',
     op_GetOption = rep_GetOption, op_SetOption = rep_SetOption,
     op_RecvHook = Some rep_RecvHook, op_SendHook = Some rep_SendHook\<rparr>"

definition rep_NewSocket :: "rep \<Rightarrow> rep" where
  "rep_NewSocket s = newSocket rep_ops (rep_NewProtocol s)"

section \<open>The contracts\<close>

interpretation rep: protocol_impl rep_ops
  by unfold_locales
     (auto simp: rep_ops_def rep_SetOption_def rep_GetOption_def core_options_def option_name
        sock_cfg_def sock_eff Let_def split: goval.splits if_splits)

lemmas rep_peer_defs = rep_queues_def resv_def rep_AddEndpoint_def rep_RemoveEndpoint_def
  new_chan_def spawn_def GetID_def

interpretation rep_peers: peer_table rep_queues resv "\<lambda>_. 2" rep_AddEndpoint rep_RemoveEndpoint
  by unfold_locales
     (auto simp: rep_peer_defs ch_close_cases close_on_def Let_def fun_eq_iff split: option.splits)

section \<open>What each operation does\<close>

lemma rep_route_known:
  assumes "hdr (msgs s m) = Some (be32 i @ h)" "rep_eps s i = Some pe" "\<not> cclosed (chans s (re_q pe))"
  shows "rep_route m s =
    (let s1 = s\<lparr>msgs := (msgs s)(m := (msgs s m)\<lparr>hdr := Some h\<rparr>)\<rparr>
     in Ret (if chan_room (chans s (re_q pe)) then push_on (re_q pe) m s1 else Free m s1))"
  using assms by (simp add: rep_route_def hdr_bytes_def drop_hdr4_eff offer_cases Let_def)

lemma rep_route_unknown:
  assumes "hdr (msgs s m) = Some (be32 i @ h)" "rep_eps s i = None"
  shows "rep_route m s = Ret (Free m (drop_hdr4 m s))"
  using assms by (simp add: rep_route_def hdr_bytes_def drop_hdr4_eff)

lemma rep_route_short:
  "length (hdr_bytes (msgs s m)) < 4 \<Longrightarrow> rep_route m s = Ret (Free m s)"
  by (simp add: rep_route_def)

text \<open>
  A request that came over endpoint \<open>ep\<close> through the hops \<open>ids\<close>: within the hop limit it
  goes up with the endpoint, the hops and the request identifier in the header.
\<close>

lemma rep_receiver_path:
  assumes "hdr (msgs s r) = Some []" "body (msgs s r) = path_bytes ids @ be32 v @ payload"
    and "\<forall>i \<in> set ids. \<not> hibit i" "hibit v" "int (length ids) < rep_ttl s"
    and "\<not> cclosed (chans s rq)" "chan_room (chans s rq)" "\<not> closeq s"
  shows "rep_receiver pick rq ep (Some r) s =
    Ret (Loop, push_on rq r (s\<lparr>msgs := (msgs s)(r := (msgs s r)\<lparr>
      hdr := Some (be32 (GetID s ep) @ path_bytes ids @ be32 v), body := payload\<rparr>)\<rparr>))"
proof -
  let ?s1 = "append_hdr r (be32 (GetID s ep)) s"
  have h1: "hdr (msgs ?s1 r) = Some (be32 (GetID s ep))" "body (msgs ?s1 r) = path_bytes ids @ be32 v @ payload"
    using assms(1,2) by (simp_all add: append_hdr_eff)
  have "bt_parse (rep_ttl ?s1) 0 (body (msgs ?s1 r)) = Some (path_bytes ids @ be32 v, payload)"
    using assms(5) h1(2) bt_parse_path [OF assms(3,4)] by (simp add: append_hdr_eff)
  with backtrace_loop_parse [OF h1(1), of "rep_ttl ?s1" 0]
  have "backtrace_loop (rep_ttl ?s1) 0 r ?s1 = (True, s\<lparr>msgs := (msgs s)(r := (msgs s r)\<lparr>
      hdr := Some (be32 (GetID s ep) @ path_bytes ids @ be32 v), body := payload\<rparr>)\<rparr>)"
    by (simp add: append_hdr_eff)
  with assms(6-8) show ?thesis
    by (simp add: rep_receiver_def up_send_cases)
qed

text \<open>Beyond the hop limit, or garbled, the message is dropped and the goroutine ends.\<close>

lemma rep_receiver_bad:
  assumes "hdr (msgs s r) = Some []" "bt_parse (rep_ttl s) 0 (body (msgs s r)) = None"
  shows "\<exists>h b. rep_receiver pick rq ep (Some r) s =
    Ret (Exit, Free r (s\<lparr>msgs := (msgs s)(r := (msgs s r)\<lparr>hdr := Some h, body := b\<rparr>)\<rparr>))"
proof -
  let ?s1 = "append_hdr r (be32 (GetID s ep)) s"
  have h1: "hdr (msgs ?s1 r) = Some (be32 (GetID s ep))" and h2: "body (msgs ?s1 r) = body (msgs s r)"
    using assms(1) by (simp_all add: append_hdr_eff)
  have "bt_parse (rep_ttl ?s1) 0 (body (msgs ?s1 r)) = None"
    using assms(2) h2 by (simp add: append_hdr_eff)
  with backtrace_loop_parse [OF h1, of "rep_ttl ?s1" 0] obtain h b
    where "backtrace_loop (rep_ttl ?s1) 0 r ?s1 =
      (False, Free r (?s1\<lparr>msgs := (msgs ?s1)(r := (msgs ?s1 r)\<lparr>hdr := Some h, body := b\<rparr>)\<rparr>))"
    by auto
  then show ?thesis
    by (intro exI [of _ h] exI [of _ b]) (simp add: rep_receiver_def append_hdr_eff)
qed

section \<open>All goroutines together\<close>

lemma rep_own: "socket.more s' = socket.more s \<Longrightarrow> rep_eps s' = rep_eps s \<and> rep_w s' = rep_w s"
  by (cases s; cases s') simp

lemma rep_route_quiet:
  assumes "peers_ok (rep_queues s) (resv s) s"
  shows "\<exists>s'. rep_route m s = Ret s' \<and> quiet s s'"
proof (cases "length (hdr_bytes (msgs s m)) < 4")
  case True
  then show ?thesis by (simp add: rep_route_short)
next
  case False
  then obtain v where v: "be_Uint32 (hdr_bytes (msgs s m)) = Some v"
    using be32_split by (metis not_less)
  show ?thesis
  proof (cases "rep_eps s v")
    case None
    with False v show ?thesis by (simp add: rep_route_def drop_hdr4_eff)
  next
    case (Some pe)
    then have "\<not> cclosed (chans s (re_q pe))"
      using peers_okD [OF assms, of v] by (simp add: rep_queues_def)
    with False v Some show ?thesis by (simp add: rep_route_def drop_hdr4_eff offer_cases Let_def)
  qed
qed

lemma rep_receiver_quiet:
  assumes "\<not> cclosed (chans s (urq s))"
  shows "rep_receiver pick (urq s) ep mo s \<noteq> Panic \<and>
    (\<forall>c s'. rep_receiver pick (urq s) ep mo s = Ret (c, s') \<longrightarrow> quiet s s')"
proof (cases mo)
  case None
  then show ?thesis by (simp add: rep_receiver_def)
next
  case (Some r)
  define s1 where "s1 = append_hdr r (be32 (GetID s ep)) s"
  obtain ok s2 where bl: "backtrace_loop (rep_ttl s1) 0 r s1 = (ok, s2)" by fastforce
  have "quiet s s1" by (simp add: s1_def append_hdr_eff)
  also have "quiet s1 s2" using backtrace_loop_quiet [of s1 "rep_ttl s1" 0 r] bl by simp
  finally have q: "quiet s s2" .
  then have "\<not> cclosed (chans s2 (urq s))" using assms by (simp add: quiet_def)
  from up_send_cases [OF this, of pick r] show ?thesis
    using Some bl q by (auto simp: rep_receiver_def s1_def [symmetric] intro: quiet_trans)
qed

lemma rep_shutdown_peers:
  assumes "peers_ok (rep_queues s) (resv s) s" "distinct ord"
  shows "\<exists>s'. rep_Shutdown ord s = Ret s' \<and> rep_queues s' = Map.empty \<and> nextc s' = nextc s \<and>
    urq s' = urq s \<and> uwq s' = uwq s \<and> rep_w s' = rep_w s \<and> (\<forall>q \<in> resv s. chans s' q = chans s q)"
  using close_table [OF assms(1) [unfolded rep_queues_def] assms(2), of "s\<lparr>rep_eps := Map.empty\<rparr>"]
  by (auto simp: rep_Shutdown_def rep_queues_def)

lemma rep_rem_keeps:
  "rep_RemoveEndpoint p s = Ret s' \<Longrightarrow> urq s' = urq s \<and> uwq s' = uwq s \<and> rep_w s' = rep_w s"
  by (auto simp: rep_RemoveEndpoint_def ch_close_cases close_on_def Let_def split: option.splits if_splits)

interpretation rep_sys: peer_sys rep_queues "\<lambda>_. 2" rep_AddEndpoint rep_RemoveEndpoint rep_ops
    "\<lambda>s. w_cnt (rep_w s)" rep_fin "\<lambda>_. rep_route" "\<lambda>_. rep_receiver"
proof unfold_locales
  fix s :: rep and m
  show "peers_ok (rep_queues s) (resv s) s \<Longrightarrow> \<exists>s'. rep_route m s = Ret s' \<and> quiet s s'"
    by (rule rep_route_quiet)
next
  fix s :: rep and p mo pick
  show "\<not> cclosed (chans s (urq s)) \<Longrightarrow> rep_receiver pick (urq s) p mo s \<noteq> Panic \<and>
    (\<forall>c s'. rep_receiver pick (urq s) p mo s = Ret (c, s') \<longrightarrow> quiet s s')"
    by (rule rep_receiver_quiet)
next
  fix s :: rep and ord :: "u32 list"
  assume "peers_ok (rep_queues s) (resv s) s" "distinct ord"
  from rep_shutdown_peers [OF this]
  show "\<exists>s'. op_Shutdown rep_ops ord s = Ret s' \<and> rep_queues s' = Map.empty \<and> nextc s' = nextc s \<and>
    urq s' = urq s \<and> uwq s' = uwq s \<and> w_cnt (rep_w s') = w_cnt (rep_w s) \<and>
    (\<forall>q \<in> resv s. chans s' q = chans s q)"
    by (auto simp: rep_ops_def)
qed (auto simp: rep_ops_def rep_AddEndpoint_def new_chan_def spawn_def rep_queues_def rep_fin_def
       w_Done_def Let_def dest: rep_own rep_rem_keeps)

text \<open>The configuration right after \<^verbatim>\<open>NewSocket\<close>: the sender goroutine holds the send channel.\<close>

definition rep_start :: "rep \<Rightarrow> cref option \<times> rep" where
  "rep_start s = (let s1 = rep_NewSocket s in (Some (SendChannel s1), s1))"

lemma rep_start_inv: "sys_inv rep_queues (\<lambda>s. w_cnt (rep_w s)) (rep_start s)"
  by (auto simp: rep_start_def rep_NewSocket_def newSocket_def rep_ops_def rep_Init_def
      rep_NewProtocol_def sys_inv_def new_chan_def spawn_def w_Init_def w_Add_def sock_eff
      peers_ok_def rep_queues_def resv_def defaultQLen_def Let_def)

section \<open>Who holds a message\<close>

lemma rep_route_mem:
  assumes "peers_ok (rep_queues s) (resv s) s" "mem_ok (add_mset m F) s" "rep_route m s = Ret s'"
  shows "mem_ok F s'"
proof (cases "length (hdr_bytes (msgs s m)) < 4")
  case True
  with assms(2,3) show ?thesis by (auto simp: rep_route_def mem_ok_Free)
next
  case False
  then obtain i where i: "be_Uint32 (hdr_bytes (msgs s m)) = Some i"
    using be_Uint32_None_iff [of "hdr_bytes (msgs s m)"] by auto
  have m: "mem_ok (add_mset m F) (drop_hdr4 m s)" using assms(2) by simp
  show ?thesis
  proof (cases "rep_eps s i")
    case None
    with assms(3) False i mem_ok_Free [OF m] show ?thesis by (auto simp: rep_route_def drop_hdr4_eff)
  next
    case (Some pe)
    have "re_q pe < nextc (drop_hdr4 m s)"
      using peers_okD [OF assms(1), of i "re_q pe"] Some by (simp add: rep_queues_def drop_hdr4_eff)
    moreover have "offer (re_q pe) m (drop_hdr4 m s) = Ret s'"
      using assms(3) False i Some by (simp add: rep_route_def drop_hdr4_eff)
    ultimately show ?thesis using mem_ok_offer(1) [OF m] by blast
  qed
qed

lemma rep_receiver_mem:
  assumes "peers_ok (rep_queues s) (resv s) s" "\<not> cclosed (chans s (urq s))" "mem_ok (add_mset m F) s"
    and "rep_receiver pick (urq s) ep (Some m) s = Ret (c, s')"
  shows "mem_ok F s'"
proof -
  let ?s1 = "append_hdr m (be32 (GetID s ep)) s"
  obtain ok s2 where b: "backtrace_loop (rep_ttl ?s1) 0 m ?s1 = (ok, s2)" by fastforce
  have "mem_ok (add_mset m F) ?s1" "urq s < nextc ?s1" "\<not> cclosed (chans ?s1 (urq s))"
    using assms(1-3) by (auto simp: peers_ok_def resv_def append_hdr_eff mem_ok_msg)
  note take = mem_ok_take_request [OF this(1) b this(2,3)]
  show ?thesis
  proof (cases ok)
    case False
    with assms(4) b take(1) show ?thesis by (simp add: rep_receiver_def)
  next
    case True
    with assms(4) b take(2) show ?thesis
      by (fastforce simp: rep_receiver_def run_bind_Ret_iff split: if_splits)
  qed
qed

lemma rep_same_refs:
  "rep_fin s = Ret s' \<Longrightarrow> same_refs s s'" "rep_RemoveEndpoint ep s = Ret s' \<Longrightarrow> core_refs s s'"
  "op_Shutdown rep_ops ord s = Ret s' \<Longrightarrow> core_refs s s'"
  by (auto simp: rep_ops_def rep_fin_def w_Done_def run_bind_Ret_iff rep_RemoveEndpoint_def rep_Shutdown_def Let_def
        core_refs_def same_refs_def dest!: ch_close_core close_all_core split: if_splits option.splits)

lemma rep_hooks_tame:
  "op_SendHook rep_ops = Some hook \<or> op_RecvHook rep_ops = Some hook \<Longrightarrow>
   \<exists>b s'. hook m s = Ret (b, s') \<and> tame rep_queues (\<lambda>s. w_cnt (rep_w s)) s s'"
  by (auto simp: rep_ops_def rep_SendHook_def rep_RecvHook_def tame_def same_refs_def sock_eff set_hdr_def
        rep_queues_def Let_def)

lemma rep_set_tame: "tame rep_queues (\<lambda>s. w_cnt (rep_w s)) s (snd (op_SetOption rep_ops n v s))"
  by (cases v) (simp_all add: rep_ops_def rep_SetOption_def tame_def same_refs_def sock_eff rep_queues_def Let_def)

interpretation rep_mem: mem_sys rep_queues "\<lambda>_. 2" rep_AddEndpoint rep_RemoveEndpoint rep_ops
    "\<lambda>s. w_cnt (rep_w s)" rep_fin "\<lambda>_. rep_route" "\<lambda>_. rep_receiver" "\<lambda>_. Block"
  by unfold_locales
     ((rule rep_route_mem rep_receiver_mem rep_same_refs rep_hooks_tame rep_set_tame; assumption) |
      simp add: rep_receiver_def rep_AddEndpoint_def new_chan_def spawn_def Let_def)+

lemma rep_mem_start: "mem_inv rep_queues (\<lambda>s. w_cnt (rep_w s)) (mem_start (rep_start (socket0 x)))"
proof -
  have "mem_ok {#} (rep_NewProtocol (socket0 x))"
    by (subst mem_ok_same [of "socket0 x"]) (simp_all add: rep_NewProtocol_def same_refs_def)
  from mem_start_inv [OF rep_start_inv [of "socket0 x", unfolded rep_start_def rep_NewSocket_def Let_def] this]
  show ?thesis
    by (simp add: rep_start_def rep_NewSocket_def Let_def rep_ops_def rep_Init_def tame_def same_refs_def
        sock_eff spawn_def)
qed

end
