(* ===== verification/Bus.thy ===== *)
theory Bus
  imports Mem_Sys
begin

text \<open>
  protocol/bus/bus.go: every message goes to every peer; a message that is passed on names
  in its header the peer it came from, which is left out.
\<close>

section \<open>State\<close>

record busEp =
  be_ep :: pref
  be_q :: cref

record bus = socket +
  bus_peers :: "u32 \<rightharpoonup> busEp"
  bus_raw :: bool
  bus_w :: waiter

definition bus_queues :: "bus \<Rightarrow> u32 \<rightharpoonup> cref" where
  "bus_queues s = map_option be_q \<circ> bus_peers s"

section \<open>Operations\<close>

definition bus_NewProtocol :: "bus \<Rightarrow> bus" where
  "bus_NewProtocol s = s\<lparr>bus_peers := Map.empty, bus_raw := False, bus_w := \<lparr>w_cnt = 0\<rparr>\<rparr>"

definition bus_Init :: "bus \<Rightarrow> bus" where
  "bus_Init s = spawn GSender (s\<lparr>bus_peers := Map.empty, bus_w := w_Add (w_Init (bus_w s))\<rparr>)"

definition bus_Shutdown :: "u32 list \<Rightarrow> bus \<Rightarrow> bus run" where
  "bus_Shutdown ord s =
     (let peers = bus_peers s;
          s1 = s\<lparr>bus_peers := Map.empty\<rparr>
      in close_all (map (be_q \<circ> snd) (peer_list ord peers)) s1)"

text \<open>\<^verbatim>\<open>(pe *busEp) peerSender()\<close>\<close>

definition busEp_sender ::
  "(mref \<Rightarrow> bus \<Rightarrow> (err option \<times> bus) run) \<Rightarrow> busEp \<Rightarrow> bus \<Rightarrow> (ctl \<times> bus) run" where
  "busEp_sender send pe s = peer_sender send (be_q pe) s"

text \<open>\<open>ord\<close> is the order of the iteration over the map of peers.\<close>

definition bus_broadcast :: "u32 list \<Rightarrow> mref \<Rightarrow> u32 \<Rightarrow> bus \<Rightarrow> bus run" where
  "bus_broadcast ord m snder s =
     bcast (map (be_q \<circ> snd) (filter (\<lambda>(i, pe). i \<noteq> snder) (peer_list ord (bus_peers s)))) m s"

text \<open>What \<^verbatim>\<open>sender\<close> does with a message, and one round of \<^verbatim>\<open>sender\<close>.\<close>

definition bus_handle :: "u32 list \<Rightarrow> mref \<Rightarrow> bus \<Rightarrow> bus run" where
  "bus_handle ord m s =
     (let (i, s1) = (case be_Uint32 (hdr_bytes (msgs s m)) of
                       Some i \<Rightarrow> (i, drop_hdr4 m s) | None \<Rightarrow> (0, s))
      in run_bind (bus_broadcast ord m i s1) (\<lambda>s2. Ret (Free m s2)))"

definition bus_fin :: "bus \<Rightarrow> bus run" where
  "bus_fin s = run_bind (w_Done (bus_w s)) (\<lambda>(w, _). Ret (s\<lparr>bus_w := w\<rparr>))"

definition bus_sender :: "u32 list \<Rightarrow> top_arm \<Rightarrow> cref \<Rightarrow> bus \<Rightarrow> ((ctl \<times> cref) \<times> bus) run" where
  "bus_sender ord = sender_loop bus_fin (bus_handle ord)"

text \<open>One round of \<^verbatim>\<open>receiver\<close>, after \<^verbatim>\<open>pe.ep.RecvMsg()\<close> returned \<open>m\<close>.\<close>

definition bus_receiver :: "up_arm \<Rightarrow> cref \<Rightarrow> busEp \<Rightarrow> mref option \<Rightarrow> bus \<Rightarrow> (ctl \<times> bus) run" where
  "bus_receiver pick rq pe m s =
     (case m of
        None \<Rightarrow> Ret (Exit, s)
      | Some r \<Rightarrow>
          run_bind (up_try pick rq r (append_hdr r (be32 (GetID s (be_ep pe))) s)) (\<lambda>(up, s1).
            Ret (case up of
                   Some True \<Rightarrow> (Loop, s1)
                 | Some False \<Rightarrow> (Exit, Free r s1)
                 | None \<Rightarrow> (Loop, Free r s1))))"

definition bus_RecvHook :: "mref \<Rightarrow> bus \<Rightarrow> (bool \<times> bus) run" where
  "bus_RecvHook m s =
     (if \<not> bus_raw s \<and> 4 \<le> length (hdr_bytes (msgs s m)) then Ret (True, drop_hdr4 m s)
      else Ret (True, s))"

definition bus_SetOption :: "string \<Rightarrow> goval \<Rightarrow> bus \<Rightarrow> err option \<times> bus" where
  "bus_SetOption name v s =
     (if name = OptionRaw then
        (case v of VBool b \<Rightarrow> (None, s\<lparr>bus_raw := b\<rparr>) | _ \<Rightarrow> (Some ErrBadValue, s\<lparr>bus_raw := False\<rparr>))
      else (Some ErrBadOption, s))"

definition bus_GetOption :: "string \<Rightarrow> bus \<Rightarrow> err + goval" where
  "bus_GetOption name s = (if name = OptionRaw then Inr (VBool (bus_raw s)) else Inl ErrBadOption)"

definition bus_AddEndpoint :: "pref \<Rightarrow> bus \<Rightarrow> bus" where
  "bus_AddEndpoint ep s =
     (let (q, s1) = new_chan (peer_depth bus_GetOption s) s;
          s2 = s1\<lparr>bus_peers := (bus_peers s1)(GetID s1 ep \<mapsto> \<lparr>be_ep = ep, be_q = q\<rparr>)\<rparr>
      in spawn (GReceiver ep) (spawn (GPeerSender q) s2))"

definition bus_RemoveEndpoint :: "pref \<Rightarrow> bus \<Rightarrow> bus run" where
  "bus_RemoveEndpoint ep s =
     (case bus_peers s (GetID s ep) of
        None \<Rightarrow> Ret s
      | Some peer \<Rightarrow>
          run_bind (ch_close (be_q peer) s) (\<lambda>s1.
            Ret (s1\<lparr>bus_peers := (bus_peers s1)(GetID s1 ep := None)\<rparr>)))"

definition bus_ops :: "bus protocol_ops" where
  "bus_ops = \<lparr>op_Init = bus_Init, op_Shutdown = bus_Shutdown,
     op_AddEndpoint = (\<lambda>ep s. Ret (bus_AddEndpoint ep s)),
     op_RemoveEndpoint = bus_RemoveEndpoint,
     op_Number = ProtoBus, op_Name = ''bus'', op_PeerNumber = ProtoBus, op_PeerName = ''bus'',
     op_GetOption = bus_GetOption, op_SetOption = bus_SetOption,
     op_RecvHook = Some bus_RecvHook, op_SendHook = None\<rparr>"

definition bus_NewSocket :: "bus \<Rightarrow> bus" where
  "bus_NewSocket s = newSocket bus_ops (bus_NewProtocol s)"

section \<open>The contracts\<close>

interpretation bus: protocol_impl bus_ops
  by unfold_locales
     (auto simp: bus_ops_def bus_SetOption_def bus_GetOption_def core_options_def option_name
        sock_cfg_def sock_eff Let_def split: goval.splits if_splits)

lemma bus_depth: "peer_depth bus_GetOption s = nat (uwqLen s)"
  by (rule peer_depth_core) (simp add: bus_GetOption_def option_name)

lemmas bus_peer_defs = bus_queues_def resv_def bus_AddEndpoint_def bus_RemoveEndpoint_def
  new_chan_def spawn_def GetID_def bus_depth

interpretation bus_tab: peer_table bus_queues resv "\<lambda>s. nat (uwqLen s)" bus_AddEndpoint bus_RemoveEndpoint
  by unfold_locales
     (auto simp: bus_peer_defs ch_close_cases close_on_def Let_def fun_eq_iff split: option.splits)

lemma bus_own: "socket.more s' = socket.more s \<Longrightarrow> bus_peers s' = bus_peers s \<and> bus_w s' = bus_w s"
  by (cases s; cases s') simp

lemma bus_broadcast_quiet:
  assumes "peers_ok (bus_queues s) (resv s) s"
  shows "\<exists>s'. bus_broadcast ord m i s = Ret s' \<and> quiet s s'"
  unfolding bus_broadcast_def
proof (rule bcast_quiet)
  show "\<forall>q \<in> set (map (be_q \<circ> snd) (filter (\<lambda>(i', pe). i' \<noteq> i) (peer_list ord (bus_peers s)))).
    \<not> cclosed (chans s q)"
    using peers_okD [OF assms] by (fastforce simp: set_peer_list bus_queues_def)
qed

lemma bus_handle_quiet:
  assumes "peers_ok (bus_queues s) (resv s) s"
  shows "\<exists>s'. bus_handle ord m s = Ret s' \<and> quiet s s'"
proof -
  have pk: "peers_ok (bus_queues (drop_hdr4 m s)) (resv (drop_hdr4 m s)) (drop_hdr4 m s)"
    using assms by (auto simp: drop_hdr4_eff bus_queues_def resv_def intro: peers_ok_cong)
  have q1: "quiet s (drop_hdr4 m s)" by (simp add: drop_hdr4_eff)
  show ?thesis
  proof (cases "be_Uint32 (hdr_bytes (msgs s m))")
    case None
    then show ?thesis
      using bus_broadcast_quiet [OF assms, of ord m 0] by (auto simp: bus_handle_def intro: quiet_Free)
  next
    case (Some i)
    obtain t where t: "bus_broadcast ord m i (drop_hdr4 m s) = Ret t" "quiet (drop_hdr4 m s) t"
      using bus_broadcast_quiet [OF pk] by blast
    have "quiet s (Free m t)" using quiet_trans [OF q1 t(2)] by (rule quiet_Free)
    with t(1) Some show ?thesis by (simp add: bus_handle_def)
  qed
qed

lemma bus_receiver_quiet:
  assumes "\<not> cclosed (chans s (urq s))"
  shows "bus_receiver pick (urq s) pe mo s \<noteq> Panic \<and>
    (\<forall>c s'. bus_receiver pick (urq s) pe mo s = Ret (c, s') \<longrightarrow> quiet s s')"
proof (cases mo)
  case None
  then show ?thesis by (simp add: bus_receiver_def)
next
  case (Some r)
  let ?s1 = "append_hdr r (be32 (GetID s (be_ep pe))) s"
  have q: "quiet s ?s1" by (simp add: append_hdr_eff)
  have "\<not> cclosed (chans ?s1 (urq s))" using assms by (simp add: append_hdr_eff)
  from up_try_cases [OF this, of pick r] Some q show ?thesis
    by (auto simp: bus_receiver_def intro: quiet_trans split: if_splits)
qed

lemma bus_shutdown_peers:
  assumes "peers_ok (bus_queues s) (resv s) s" "distinct ord"
  shows "\<exists>s'. bus_Shutdown ord s = Ret s' \<and> bus_queues s' = Map.empty \<and> nextc s' = nextc s \<and>
    urq s' = urq s \<and> uwq s' = uwq s \<and> bus_w s' = bus_w s \<and> (\<forall>q \<in> resv s. chans s' q = chans s q)"
  using close_table [OF assms(1) [unfolded bus_queues_def] assms(2), of "s\<lparr>bus_peers := Map.empty\<rparr>"]
  by (auto simp: bus_Shutdown_def bus_queues_def)

lemma bus_rem_keeps:
  "bus_RemoveEndpoint p s = Ret s' \<Longrightarrow> urq s' = urq s \<and> uwq s' = uwq s \<and> bus_w s' = bus_w s"
  by (auto simp: bus_RemoveEndpoint_def ch_close_cases close_on_def Let_def split: option.splits if_splits)

interpretation bus_sys: peer_sys bus_queues "\<lambda>s. nat (uwqLen s)" bus_AddEndpoint bus_RemoveEndpoint
    bus_ops "\<lambda>s. w_cnt (bus_w s)" bus_fin bus_handle "\<lambda>_. bus_receiver"
proof unfold_locales
  fix s :: bus and m ord
  show "peers_ok (bus_queues s) (resv s) s \<Longrightarrow> \<exists>s'. bus_handle ord m s = Ret s' \<and> quiet s s'"
    by (rule bus_handle_quiet)
next
  fix s :: bus and pe mo pick
  show "\<not> cclosed (chans s (urq s)) \<Longrightarrow> bus_receiver pick (urq s) pe mo s \<noteq> Panic \<and>
    (\<forall>c s'. bus_receiver pick (urq s) pe mo s = Ret (c, s') \<longrightarrow> quiet s s')"
    by (rule bus_receiver_quiet)
next
  fix s :: bus and ord :: "u32 list"
  assume "peers_ok (bus_queues s) (resv s) s" "distinct ord"
  from bus_shutdown_peers [OF this]
  show "\<exists>s'. op_Shutdown bus_ops ord s = Ret s' \<and> bus_queues s' = Map.empty \<and> nextc s' = nextc s \<and>
    urq s' = urq s \<and> uwq s' = uwq s \<and> w_cnt (bus_w s') = w_cnt (bus_w s) \<and>
    (\<forall>q \<in> resv s. chans s' q = chans s q)"
    by (auto simp: bus_ops_def)
qed (auto simp: bus_ops_def bus_AddEndpoint_def new_chan_def spawn_def bus_queues_def bus_fin_def
       w_Done_def Let_def dest: bus_own bus_rem_keeps)

text \<open>The configuration right after \<^verbatim>\<open>NewSocket\<close>.\<close>

definition bus_start :: "bus \<Rightarrow> cref option \<times> bus" where
  "bus_start s = (let s1 = bus_NewSocket s in (Some (SendChannel s1), s1))"

lemma bus_start_inv: "sys_inv bus_queues (\<lambda>s. w_cnt (bus_w s)) (bus_start s)"
  by (auto simp: bus_start_def bus_NewSocket_def newSocket_def bus_ops_def bus_Init_def
      bus_NewProtocol_def sys_inv_def new_chan_def spawn_def w_Init_def w_Add_def sock_eff
      peers_ok_def bus_queues_def resv_def defaultQLen_def Let_def)

section \<open>What each operation does\<close>

text \<open>
  A message whose header names the peer \<open>i\<close> goes to every peer but \<open>i\<close> (a full queue drops
  it), once, without the identifier; the goroutine's own reference is released.
\<close>

lemma bus_handle_relay:
  assumes "peers_ok (bus_queues s) (resv s) s" "map_order ord (bus_peers s)" "1 \<le> refcnt (msgs s m)"
    and "be_Uint32 (hdr_bytes (msgs s m)) = Some i"
  shows "bus_handle ord m s = Ret (Free m ((drop_hdr4 m s)\<lparr>
      chans := (\<lambda>q. if q \<in> takers be_q (bus_peers s) (\<lambda>j _. j \<noteq> i) s then chan_push m (chans s q) else chans s q),
      msgs := (msgs s)(m := (msgs s m)\<lparr>hdr := Some (drop 4 (hdr_bytes (msgs s m))),
        refcnt := refcnt (msgs s m) + int (card (takers be_q (bus_peers s) (\<lambda>j _. j \<noteq> i) s))\<rparr>)\<rparr>))"
  using bcast_table [OF assms(1) [unfolded bus_queues_def] assms(2,3), of "drop_hdr4 m s" "\<lambda>j _. j \<noteq> i"] assms(4)
  by (simp add: bus_handle_def bus_broadcast_def drop_hdr4_eff)

text \<open>A message of the application, without a header, goes to every peer.\<close>

lemma bus_handle_own:
  assumes "peers_ok (bus_queues s) (resv s) s" "map_order ord (bus_peers s)" "1 \<le> refcnt (msgs s m)"
    and "length (hdr_bytes (msgs s m)) < 4" "bus_peers s 0 = None"
  shows "bus_handle ord m s = Ret (Free m (s\<lparr>
      chans := (\<lambda>q. if q \<in> takers be_q (bus_peers s) (\<lambda>_ _. True) s then chan_push m (chans s q) else chans s q),
      msgs := (msgs s)(m := (msgs s m)\<lparr>
        refcnt := refcnt (msgs s m) + int (card (takers be_q (bus_peers s) (\<lambda>_ _. True) s))\<rparr>)\<rparr>))"
  using bcast_table [OF assms(1) [unfolded bus_queues_def] assms(2,3), of s "\<lambda>j _. j \<noteq> 0",
      unfolded takers_absent [of "bus_peers s" 0, OF assms(5)]] assms(4)
  by (simp add: bus_handle_def bus_broadcast_def be_Uint32_None_iff [symmetric])

text \<open>
  A received message goes up with the identifier of its peer in front; in cooked mode the
  hook takes it off again.
\<close>

lemma bus_receiver_up:
  assumes "hdr (msgs s r) = Some h" "\<not> cclosed (chans s rq)" "chan_room (chans s rq)" "\<not> closeq s"
  shows "bus_receiver pick rq pe (Some r) s = Ret (Loop, push_on rq r
    (s\<lparr>msgs := (msgs s)(r := (msgs s r)\<lparr>hdr := Some (h @ be32 (GetID s (be_ep pe)))\<rparr>)\<rparr>))"
  using assms by (simp add: bus_receiver_def up_try_cases append_hdr_eff)

lemma bus_receiver_full:
  assumes "hdr (msgs s r) = Some h" "\<not> cclosed (chans s rq)" "\<not> chan_room (chans s rq)" "\<not> closeq s"
  shows "bus_receiver pick rq pe (Some r) s = Ret (Loop, Free r
    (s\<lparr>msgs := (msgs s)(r := (msgs s r)\<lparr>hdr := Some (h @ be32 (GetID s (be_ep pe)))\<rparr>)\<rparr>))"
  using assms by (simp add: bus_receiver_def up_try_cases append_hdr_eff)

lemma bus_RecvHook_cooked:
  "\<not> bus_raw s \<Longrightarrow> hdr (msgs s r) = Some (be32 i @ h) \<Longrightarrow>
   bus_RecvHook r s = Ret (True, s\<lparr>msgs := (msgs s)(r := (msgs s r)\<lparr>hdr := Some h\<rparr>)\<rparr>)"
  by (simp add: bus_RecvHook_def hdr_bytes_def drop_hdr4_eff)

section \<open>Who holds a message\<close>

lemma bus_handle_mem:
  assumes "peers_ok (bus_queues s) (resv s) s" "mem_ok (add_mset m F) s" "bus_handle ord m s = Ret s'"
  shows "mem_ok F s'"
proof -
  define r where "r = (case be_Uint32 (hdr_bytes (msgs s m)) of Some i \<Rightarrow> (i, drop_hdr4 m s) | None \<Rightarrow> (0, s))"
  obtain i s1 where r: "r = (i, s1)" by fastforce
  then have s1: "bus_peers s1 = bus_peers s" "nextc s1 = nextc s" "mem_ok (add_mset m F) s1"
    using assms(2) by (auto simp: r_def drop_hdr4_eff mem_ok_msg split: option.splits)
  from assms(3) r obtain t where t: "bus_broadcast ord m i s1 = Ret t" "s' = Free m t"
    by (auto simp: bus_handle_def r_def [symmetric] run_bind_Ret_iff)
  have "\<forall>q \<in> set (map (be_q \<circ> snd) (filter (\<lambda>(j, pe). j \<noteq> i) (peer_list ord (bus_peers s1)))). q < nextc s1"
    using peers_okD [OF assms(1)] s1(1,2) by (fastforce simp: set_peer_list bus_queues_def)
  from mem_ok_bcast [OF this s1(3) t(1) [unfolded bus_broadcast_def]] t(2) show ?thesis
    by (simp add: mem_ok_Free)
qed

lemma bus_receiver_mem:
  assumes "peers_ok (bus_queues s) (resv s) s" "\<not> cclosed (chans s (urq s))" "mem_ok (add_mset m F) s"
    and "bus_receiver pick (urq s) pe (Some m) s = Ret (c, s')"
  shows "mem_ok F s'"
proof -
  let ?s1 = "append_hdr m (be32 (GetID s (be_ep pe))) s"
  have "mem_ok (add_mset m F) ?s1" "urq s < nextc ?s1" "\<not> cclosed (chans ?s1 (urq s))"
    using assms(1-3) by (auto simp: peers_ok_def resv_def append_hdr_eff mem_ok_msg)
  note up = mem_ok_up_try [OF this(1,2) _ this(3)]
  from assms(4) obtain b s1 where u: "up_try pick (urq s) m ?s1 = Ret (b, s1)"
      "s' = (if b = Some True then s1 else Free m s1)"
    by (cases "up_try pick (urq s) m ?s1") (auto simp: bus_receiver_def split: option.splits bool.splits)
  from up [OF u(1)] u(2) show ?thesis by (simp add: mem_ok_Free split: if_splits)
qed

lemma bus_same_refs:
  "bus_fin s = Ret s' \<Longrightarrow> same_refs s s'" "bus_RemoveEndpoint ep s = Ret s' \<Longrightarrow> core_refs s s'"
  "op_Shutdown bus_ops ord s = Ret s' \<Longrightarrow> core_refs s s'"
  by (auto simp: bus_ops_def bus_fin_def w_Done_def run_bind_Ret_iff bus_RemoveEndpoint_def bus_Shutdown_def Let_def
        core_refs_def same_refs_def dest!: ch_close_core close_all_core split: if_splits option.splits)

lemma bus_hooks_tame:
  "op_SendHook bus_ops = Some hook \<or> op_RecvHook bus_ops = Some hook \<Longrightarrow>
   \<exists>b s'. hook m s = Ret (b, s') \<and> tame bus_queues (\<lambda>s. w_cnt (bus_w s)) s s'"
  by (auto simp: bus_ops_def bus_RecvHook_def tame_def same_refs_def sock_eff msg_eff
        bus_queues_def Let_def split: option.splits)

lemma bus_set_tame: "tame bus_queues (\<lambda>s. w_cnt (bus_w s)) s (snd (op_SetOption bus_ops n v s))"
  by (cases v) (simp_all add: bus_ops_def bus_SetOption_def tame_def same_refs_def sock_eff bus_queues_def Let_def)

interpretation bus_mem: mem_sys bus_queues "\<lambda>s. nat (uwqLen s)" bus_AddEndpoint bus_RemoveEndpoint bus_ops
    "\<lambda>s. w_cnt (bus_w s)" bus_fin bus_handle "\<lambda>_. bus_receiver" "\<lambda>_. Block"
  by unfold_locales
     ((rule bus_handle_mem bus_receiver_mem bus_same_refs bus_hooks_tame bus_set_tame; assumption) |
      simp add: bus_receiver_def bus_AddEndpoint_def new_chan_def spawn_def Let_def)+

lemma bus_mem_start: "mem_inv bus_queues (\<lambda>s. w_cnt (bus_w s)) (mem_start (bus_start (socket0 x)))"
proof -
  have "mem_ok {#} (bus_NewProtocol (socket0 x))"
    by (subst mem_ok_same [of "socket0 x"]) (simp_all add: bus_NewProtocol_def same_refs_def)
  from mem_start_inv [OF bus_start_inv [of "socket0 x", unfolded bus_start_def bus_NewSocket_def Let_def] this]
  show ?thesis
    by (simp add: bus_start_def bus_NewSocket_def Let_def bus_ops_def bus_Init_def tame_def same_refs_def
        sock_eff spawn_def)
qed

end
