(* ===== verification/Pub.thy ===== *)
theory Pub
  imports Mem_Sys
begin

text \<open>
  protocol/pub/pub.go: every message of the application goes to every subscriber; what the
  subscribers send is thrown away.
\<close>

section \<open>State\<close>

record pubEp =
  pe_ep :: pref
  pe_q :: cref
  pe_w :: waiter

record pub = socket +
  pub_eps :: "u32 \<rightharpoonup> pubEp"
  pub_raw :: bool
  pub_w :: waiter

definition pub_queues :: "pub \<Rightarrow> u32 \<rightharpoonup> cref" where
  "pub_queues s = map_option pe_q \<circ> pub_eps s"

section \<open>Operations\<close>

definition pub_NewProtocol :: "pub \<Rightarrow> pub" where
  "pub_NewProtocol s = s\<lparr>pub_eps := Map.empty, pub_raw := False, pub_w := \<lparr>w_cnt = 0\<rparr>\<rparr>"

definition pub_Init :: "pub \<Rightarrow> pub" where
  "pub_Init s =
     (let s1 = SetRecvError (Some ErrProtoOp) (s\<lparr>pub_eps := Map.empty\<rparr>)
      in spawn GSender (s1\<lparr>pub_w := w_Add (w_Init (pub_w s1))\<rparr>))"

definition pub_Shutdown :: "u32 list \<Rightarrow> pub \<Rightarrow> pub run" where
  "pub_Shutdown ord s =
     (let peers = pub_eps s;
          s1 = s\<lparr>pub_eps := Map.empty\<rparr>
      in close_all (map (pe_q \<circ> snd) (peer_list ord peers)) s1)"

text \<open>\<^verbatim>\<open>(pe *pubEp) peerSender()\<close>\<close>

definition pubEp_sender ::
  "(mref \<Rightarrow> pub \<Rightarrow> (err option \<times> pub) run) \<Rightarrow> pubEp \<Rightarrow> pub \<Rightarrow> (ctl \<times> pub) run" where
  "pubEp_sender send pe s = peer_sender send (pe_q pe) s"

text \<open>
  What \<^verbatim>\<open>sender\<close> does with a message, and one round of \<^verbatim>\<open>sender\<close>; \<open>ord\<close> is the order of
  the iteration over the map of subscribers.
\<close>

definition pub_handle :: "u32 list \<Rightarrow> mref \<Rightarrow> pub \<Rightarrow> pub run" where
  "pub_handle ord m s =
     run_bind (bcast (map (pe_q \<circ> snd) (peer_list ord (pub_eps s))) m s) (\<lambda>s1. Ret (Free m s1))"

definition pub_fin :: "pub \<Rightarrow> pub run" where
  "pub_fin s = run_bind (w_Done (pub_w s)) (\<lambda>(w, _). Ret (s\<lparr>pub_w := w\<rparr>))"

definition pub_sender :: "u32 list \<Rightarrow> top_arm \<Rightarrow> cref \<Rightarrow> pub \<Rightarrow> ((ctl \<times> cref) \<times> pub) run" where
  "pub_sender ord = sender_loop pub_fin (pub_handle ord)"

definition pub_SetOption :: "string \<Rightarrow> goval \<Rightarrow> pub \<Rightarrow> err option \<times> pub" where
  "pub_SetOption name v s =
     (if name = OptionRaw then
        (case v of VBool b \<Rightarrow> (None, s\<lparr>pub_raw := b\<rparr>) | _ \<Rightarrow> (Some ErrBadValue, s\<lparr>pub_raw := False\<rparr>))
      else (Some ErrBadOption, s))"

definition pub_GetOption :: "string \<Rightarrow> pub \<Rightarrow> err + goval" where
  "pub_GetOption name s = (if name = OptionRaw then Inr (VBool (pub_raw s)) else Inl ErrBadOption)"

definition pub_AddEndpoint :: "pref \<Rightarrow> pub \<Rightarrow> pub" where
  "pub_AddEndpoint ep s =
     (let (q, s1) = new_chan (peer_depth pub_GetOption s) s;
          pe = \<lparr>pe_ep = ep, pe_q = q, pe_w = w_Add (w_Init \<lparr>w_cnt = 0\<rparr>)\<rparr>;
          s2 = s1\<lparr>pub_eps := (pub_eps s1)(GetID s1 ep \<mapsto> pe)\<rparr>
      in spawn (GNullRecv ep) (spawn (GPeerSender q) s2))"

definition pub_RemoveEndpoint :: "pref \<Rightarrow> pub \<Rightarrow> pub run" where
  "pub_RemoveEndpoint ep s =
     (let i = GetID s ep;
          pe = pub_eps s i;
          s1 = s\<lparr>pub_eps := (pub_eps s)(i := None)\<rparr>
      in case pe of None \<Rightarrow> Ret s1 | Some e \<Rightarrow> ch_close (pe_q e) s1)"

definition pub_ops :: "pub protocol_ops" where
  "pub_ops = \<lparr>op_Init = pub_Init, op_Shutdown = pub_Shutdown,
     op_AddEndpoint = (\<lambda>ep s. Ret (pub_AddEndpoint ep s)),
     op_RemoveEndpoint = pub_RemoveEndpoint,
     op_Number = ProtoPub, op_Name = ''pub'', op_PeerNumber = ProtoSub, op_PeerName = ''sub'',
     op_GetOption = pub_GetOption, op_SetOption = pub_SetOption,
     op_RecvHook = None, op_SendHook = None\<rparr>"

definition pub_NewSocket :: "pub \<Rightarrow> pub" where
  "pub_NewSocket s = newSocket pub_ops (pub_NewProtocol s)"

section \<open>The contracts\<close>

interpretation pub: protocol_impl pub_ops
  by unfold_locales
     (auto simp: pub_ops_def pub_SetOption_def pub_GetOption_def core_options_def option_name
        sock_cfg_def sock_eff Let_def split: goval.splits if_splits)

lemma pub_depth: "peer_depth pub_GetOption s = nat (uwqLen s)"
  by (rule peer_depth_core) (simp add: pub_GetOption_def option_name)

lemmas pub_peer_defs = pub_queues_def resv_def pub_AddEndpoint_def pub_RemoveEndpoint_def
  new_chan_def spawn_def GetID_def pub_depth

interpretation pub_tab: peer_table pub_queues resv "\<lambda>s. nat (uwqLen s)" pub_AddEndpoint pub_RemoveEndpoint
  by unfold_locales
     (auto simp: pub_peer_defs ch_close_cases close_on_def Let_def fun_eq_iff split: option.splits)

lemma pub_own: "socket.more s' = socket.more s \<Longrightarrow> pub_eps s' = pub_eps s \<and> pub_w s' = pub_w s"
  by (cases s; cases s') simp

lemma pub_handle_quiet:
  assumes "peers_ok (pub_queues s) (resv s) s"
  shows "\<exists>s'. pub_handle ord m s = Ret s' \<and> quiet s s'"
proof -
  have "\<forall>q \<in> set (map (pe_q \<circ> snd) (peer_list ord (pub_eps s))). \<not> cclosed (chans s q)"
    using peers_okD [OF assms] by (fastforce simp: set_peer_list pub_queues_def)
  from bcast_quiet [OF this, of m] show ?thesis by (auto simp: pub_handle_def intro: quiet_Free)
qed

lemma pub_shutdown_peers:
  assumes "peers_ok (pub_queues s) (resv s) s" "distinct ord"
  shows "\<exists>s'. pub_Shutdown ord s = Ret s' \<and> pub_queues s' = Map.empty \<and> nextc s' = nextc s \<and>
    urq s' = urq s \<and> uwq s' = uwq s \<and> pub_w s' = pub_w s \<and> (\<forall>q \<in> resv s. chans s' q = chans s q)"
  using close_table [OF assms(1) [unfolded pub_queues_def] assms(2), of "s\<lparr>pub_eps := Map.empty\<rparr>"]
  by (auto simp: pub_Shutdown_def pub_queues_def)

lemma pub_rem_keeps:
  "pub_RemoveEndpoint p s = Ret s' \<Longrightarrow> urq s' = urq s \<and> uwq s' = uwq s \<and> pub_w s' = pub_w s"
  by (auto simp: pub_RemoveEndpoint_def ch_close_cases close_on_def Let_def split: option.splits if_splits)

interpretation pub_sys: peer_sys pub_queues "\<lambda>s. nat (uwqLen s)" pub_AddEndpoint pub_RemoveEndpoint
    pub_ops "\<lambda>s. w_cnt (pub_w s)" pub_fin pub_handle "\<lambda>_ _ _ _ mo s. Ret (NullRecv mo s)"
proof unfold_locales
  fix s :: pub and m ord
  show "peers_ok (pub_queues s) (resv s) s \<Longrightarrow> \<exists>s'. pub_handle ord m s = Ret s' \<and> quiet s s'"
    by (rule pub_handle_quiet)
next
  fix s :: pub and ord :: "u32 list"
  assume "peers_ok (pub_queues s) (resv s) s" "distinct ord"
  from pub_shutdown_peers [OF this]
  show "\<exists>s'. op_Shutdown pub_ops ord s = Ret s' \<and> pub_queues s' = Map.empty \<and> nextc s' = nextc s \<and>
    urq s' = urq s \<and> uwq s' = uwq s \<and> w_cnt (pub_w s') = w_cnt (pub_w s) \<and>
    (\<forall>q \<in> resv s. chans s' q = chans s q)"
    by (auto simp: pub_ops_def)
qed (auto simp: pub_ops_def pub_AddEndpoint_def new_chan_def spawn_def pub_queues_def pub_fin_def
       w_Done_def NullRecv_def Let_def dest: pub_own pub_rem_keeps split: option.splits)

text \<open>The configuration right after \<^verbatim>\<open>NewSocket\<close>.\<close>

definition pub_start :: "pub \<Rightarrow> cref option \<times> pub" where
  "pub_start s = (let s1 = pub_NewSocket s in (Some (SendChannel s1), s1))"

lemma pub_start_inv: "sys_inv pub_queues (\<lambda>s. w_cnt (pub_w s)) (pub_start s)"
  by (auto simp: pub_start_def pub_NewSocket_def newSocket_def pub_ops_def pub_Init_def
      pub_NewProtocol_def sys_inv_def new_chan_def spawn_def w_Init_def w_Add_def sock_eff
      peers_ok_def pub_queues_def resv_def defaultQLen_def Let_def)

section \<open>What each operation does\<close>

lemma pub_handle_all:
  assumes "peers_ok (pub_queues s) (resv s) s" "map_order ord (pub_eps s)" "1 \<le> refcnt (msgs s m)"
  shows "pub_handle ord m s = Ret (Free m (s\<lparr>
      chans := (\<lambda>q. if q \<in> takers pe_q (pub_eps s) (\<lambda>_ _. True) s then chan_push m (chans s q) else chans s q),
      msgs := (msgs s)(m := (msgs s m)\<lparr>
        refcnt := refcnt (msgs s m) + int (card (takers pe_q (pub_eps s) (\<lambda>_ _. True) s))\<rparr>)\<rparr>))"
  using bcast_table [OF assms(1) [unfolded pub_queues_def] assms(2,3), of s "\<lambda>_ _. True"]
  by (simp add: pub_handle_def case_prod_unfold)

section \<open>Who holds a message\<close>

lemma pub_handle_mem:
  assumes "peers_ok (pub_queues s) (resv s) s" "mem_ok (add_mset m F) s" "pub_handle ord m s = Ret s'"
  shows "mem_ok F s'"
proof -
  from assms(3) obtain t where t: "bcast (map (pe_q \<circ> snd) (peer_list ord (pub_eps s))) m s = Ret t" "s' = Free m t"
    by (auto simp: pub_handle_def run_bind_Ret_iff)
  have "\<forall>q \<in> set (map (pe_q \<circ> snd) (peer_list ord (pub_eps s))). q < nextc s"
    using peers_okD [OF assms(1)] by (fastforce simp: set_peer_list pub_queues_def)
  from mem_ok_bcast [OF this assms(2) t(1)] t(2) show ?thesis by (simp add: mem_ok_Free)
qed

lemma pub_receiver_mem:
  "mem_ok (add_mset m F) s \<Longrightarrow> Ret (NullRecv (Some m) s) = Ret (c, s') \<Longrightarrow> mem_ok F s'"
  by (auto simp: NullRecv_def mem_ok_Free)

lemma pub_same_refs:
  "pub_fin s = Ret s' \<Longrightarrow> same_refs s s'" "pub_RemoveEndpoint ep s = Ret s' \<Longrightarrow> core_refs s s'"
  "op_Shutdown pub_ops ord s = Ret s' \<Longrightarrow> core_refs s s'"
  by (auto simp: pub_ops_def pub_fin_def w_Done_def run_bind_Ret_iff pub_RemoveEndpoint_def pub_Shutdown_def Let_def
        core_refs_def same_refs_def dest!: ch_close_core close_all_core split: if_splits option.splits)

lemma pub_hooks_tame:
  "op_SendHook pub_ops = Some hook \<or> op_RecvHook pub_ops = Some hook \<Longrightarrow>
   \<exists>b s'. hook m s = Ret (b, s') \<and> tame pub_queues (\<lambda>s. w_cnt (pub_w s)) s s'"
  by (auto simp: pub_ops_def  tame_def same_refs_def sock_eff msg_eff
        pub_queues_def Let_def split: option.splits)

lemma pub_set_tame: "tame pub_queues (\<lambda>s. w_cnt (pub_w s)) s (snd (op_SetOption pub_ops n v s))"
  by (cases v) (simp_all add: pub_ops_def pub_SetOption_def tame_def same_refs_def sock_eff pub_queues_def Let_def)

interpretation pub_mem: mem_sys pub_queues "\<lambda>s. nat (uwqLen s)" pub_AddEndpoint pub_RemoveEndpoint pub_ops
    "\<lambda>s. w_cnt (pub_w s)" pub_fin pub_handle "\<lambda>_ _ _ _ mo s. Ret (NullRecv mo s)" "\<lambda>_. Block"
  by unfold_locales
     ((rule pub_handle_mem pub_receiver_mem pub_same_refs pub_hooks_tame pub_set_tame; assumption) |
      simp add: NullRecv_def pub_AddEndpoint_def new_chan_def spawn_def Let_def)+

lemma pub_mem_start: "mem_inv pub_queues (\<lambda>s. w_cnt (pub_w s)) (mem_start (pub_start (socket0 x)))"
proof -
  have "mem_ok {#} (pub_NewProtocol (socket0 x))"
    by (subst mem_ok_same [of "socket0 x"]) (simp_all add: pub_NewProtocol_def same_refs_def)
  from mem_start_inv [OF pub_start_inv [of "socket0 x", unfolded pub_start_def pub_NewSocket_def Let_def] this]
  show ?thesis
    by (simp add: pub_start_def pub_NewSocket_def Let_def pub_ops_def pub_Init_def tame_def same_refs_def
        sock_eff spawn_def)
qed

end
