(* ===== verification/Star.thy ===== *)
theory Star
  imports Mem_Sys
begin

text \<open>
  protocol/star/star.go: every message reaches every member. A message from the network
  goes up, and unless the socket is raw also to the other peers, as long as its hop count
  is below the limit.
\<close>

section \<open>State\<close>

record starEp =
  se_ep :: pref
  se_q :: cref

record star = socket +
  star_eps :: "u32 \<rightharpoonup> starEp"
  star_raw :: bool
  star_w :: waiter
  star_ttl :: int

definition star_queues :: "star \<Rightarrow> u32 \<rightharpoonup> cref" where
  "star_queues s = map_option se_q \<circ> star_eps s"

section \<open>Operations\<close>

definition star_NewProtocol :: "star \<Rightarrow> star" where
  "star_NewProtocol s = s\<lparr>star_eps := Map.empty, star_raw := False, star_w := \<lparr>w_cnt = 0\<rparr>, star_ttl := 0\<rparr>"

definition star_Init :: "star \<Rightarrow> star" where
  "star_Init s =
     spawn GSender (s\<lparr>star_eps := Map.empty, star_ttl := 8, star_w := w_Add (w_Init (star_w s))\<rparr>)"

definition star_Shutdown :: "u32 list \<Rightarrow> star \<Rightarrow> star run" where
  "star_Shutdown ord s =
     (let peers = star_eps s;
          s1 = s\<lparr>star_eps := Map.empty\<rparr>
      in close_all (map (se_q \<circ> snd) (peer_list ord peers)) s1)"

text \<open>\<^verbatim>\<open>(pe *starEp) sender()\<close>\<close>

definition starEp_sender ::
  "(mref \<Rightarrow> star \<Rightarrow> (err option \<times> star) run) \<Rightarrow> starEp \<Rightarrow> star \<Rightarrow> (ctl \<times> star) run" where
  "starEp_sender send pe s = peer_sender send (se_q pe) s"

text \<open>
  \<^verbatim>\<open>broadcast(m, sender)\<close>: \<open>snder = None\<close> is a message of the application. \<open>ord\<close> is the order
  of the iteration over the map of peers.
\<close>

definition star_broadcast :: "u32 list \<Rightarrow> up_arm \<Rightarrow> mref \<Rightarrow> starEp option \<Rightarrow> star \<Rightarrow> star run" where
  "star_broadcast ord pick m snder s =
     run_bind
       (if snder = None \<or> \<not> star_raw s
        then bcast (map (se_q \<circ> snd) (filter (\<lambda>(i, pe). snder \<noteq> Some pe) (peer_list ord (star_eps s)))) m s
        else Ret s) (\<lambda>s1.
     if snder \<noteq> None
     then run_bind (up_try pick (RecvChannel s1) m s1) (\<lambda>(up, s2).
            Ret (if up = Some True then s2 else Free m s2))
     else Ret (Free m s1))"

definition star_fin :: "star \<Rightarrow> star run" where
  "star_fin s = run_bind (w_Done (star_w s)) (\<lambda>(w, _). Ret (s\<lparr>star_w := w\<rparr>))"

text \<open>One round of \<^verbatim>\<open>sender\<close> (no upward send, so the arm does not matter).\<close>

definition star_sender :: "u32 list \<Rightarrow> top_arm \<Rightarrow> cref \<Rightarrow> star \<Rightarrow> ((ctl \<times> cref) \<times> star) run" where
  "star_sender ord = sender_loop star_fin (\<lambda>m. star_broadcast ord UUp m None)"

text \<open>One round of \<^verbatim>\<open>receiver\<close>, after \<^verbatim>\<open>pe.ep.RecvMsg()\<close> returned \<open>mo\<close>.\<close>

definition star_receiver ::
  "u32 list \<Rightarrow> up_arm \<Rightarrow> cref \<Rightarrow> starEp \<Rightarrow> mref option \<Rightarrow> star \<Rightarrow> (ctl \<times> star) run" where
  "star_receiver ord pick rq pe mo s =
     (case mo of
        None \<Rightarrow> Ret (Exit, s)
      | Some m \<Rightarrow>
         (case body (msgs s m) of
            b0 # b1 # b2 # b3 # rest \<Rightarrow>
              if b0 \<noteq> 0 \<or> b1 \<noteq> 0 \<or> b2 \<noteq> 0 then Ret (Loop, Free m s)
              else if star_ttl s \<le> uint b3 then Ret (Loop, Free m s)
              else
                let s1 = append_hdr m [0, 0, 0, b3 + 1] s;
                    s2 = set_body m rest s1
                in run_bind (star_broadcast ord pick m (Some pe) s2) (\<lambda>s3. Ret (Loop, s3))
          | _ \<Rightarrow> Ret (Loop, Free m s)))"

definition star_SendHook :: "mref \<Rightarrow> star \<Rightarrow> (bool \<times> star) run" where
  "star_SendHook m s = (if star_raw s then Ret (True, s) else Ret (True, append_hdr m [0, 0, 0, 0] s))"

definition star_SetOption :: "string \<Rightarrow> goval \<Rightarrow> star \<Rightarrow> err option \<times> star" where
  "star_SetOption name v s =
     (if name = OptionRaw then
        (case v of VBool b \<Rightarrow> (None, s\<lparr>star_raw := b\<rparr>) | _ \<Rightarrow> (Some ErrBadValue, s\<lparr>star_raw := False\<rparr>))
      else if name = OptionTTL then
        (case v of
           VInt t \<Rightarrow> if t < 1 \<or> t > 255 then (Some ErrBadValue, s) else (None, s\<lparr>star_ttl := t\<rparr>)
         | _ \<Rightarrow> (Some ErrBadValue, s))
      else (Some ErrBadOption, s))"

definition star_GetOption :: "string \<Rightarrow> star \<Rightarrow> err + goval" where
  "star_GetOption name s =
     (if name = OptionRaw then Inr (VBool (star_raw s))
      else if name = OptionTTL then Inr (VInt (star_ttl s))
      else Inl ErrBadOption)"

definition star_AddEndpoint :: "pref \<Rightarrow> star \<Rightarrow> star" where
  "star_AddEndpoint ep s =
     (let (q, s1) = new_chan (peer_depth star_GetOption s) s;
          s2 = s1\<lparr>star_eps := (star_eps s1)(GetID s1 ep \<mapsto> \<lparr>se_ep = ep, se_q = q\<rparr>)\<rparr>
      in spawn (GReceiver ep) (spawn (GPeerSender q) s2))"

definition star_RemoveEndpoint :: "pref \<Rightarrow> star \<Rightarrow> star run" where
  "star_RemoveEndpoint ep s =
     (case star_eps s (GetID s ep) of
        None \<Rightarrow> Ret s
      | Some peer \<Rightarrow> ch_close (se_q peer) (s\<lparr>star_eps := (star_eps s)(GetID s ep := None)\<rparr>))"

definition star_ops :: "star protocol_ops" where
  "star_ops = \<lparr>op_Init = star_Init, op_Shutdown = star_Shutdown,
     op_AddEndpoint = (\<lambda>ep s. Ret (star_AddEndpoint ep s)),
     op_RemoveEndpoint = star_RemoveEndpoint,
     op_Number = ProtoStar, op_Name = ''star'', op_PeerNumber = ProtoStar, op_PeerName = ''star'',
     op_GetOption = star_GetOption, op_SetOption = star_SetOption,
     op_RecvHook = None, op_SendHook = Some star_SendHook\<rparr>"

definition star_NewSocket :: "star \<Rightarrow> star" where
  "star_NewSocket s = newSocket star_ops (star_NewProtocol s)"

section \<open>The contracts\<close>

interpretation star: protocol_impl star_ops
  by unfold_locales
     (auto simp: star_ops_def star_SetOption_def star_GetOption_def core_options_def option_name
        sock_cfg_def sock_eff Let_def split: goval.splits if_splits)

lemma star_depth: "peer_depth star_GetOption s = nat (uwqLen s)"
  by (rule peer_depth_core) (simp add: star_GetOption_def option_name)

lemmas star_peer_defs = star_queues_def resv_def star_AddEndpoint_def star_RemoveEndpoint_def
  new_chan_def spawn_def GetID_def star_depth

interpretation star_tab: peer_table star_queues resv "\<lambda>s. nat (uwqLen s)" star_AddEndpoint star_RemoveEndpoint
  by unfold_locales
     (auto simp: star_peer_defs ch_close_cases close_on_def Let_def fun_eq_iff split: option.splits)

lemma star_own: "socket.more s' = socket.more s \<Longrightarrow> star_eps s' = star_eps s \<and> star_w s' = star_w s"
  by (cases s; cases s') simp

lemma star_spread_quiet:
  assumes "peers_ok (star_queues s) (resv s) s"
  shows "\<exists>t. (if snder = None \<or> \<not> star_raw s
        then bcast (map (se_q \<circ> snd) (filter (\<lambda>(i, pe). snder \<noteq> Some pe) (peer_list ord (star_eps s)))) m s
        else Ret s) = Ret t \<and> quiet s t"
proof -
  have "\<forall>q \<in> set (map (se_q \<circ> snd) (filter (\<lambda>(i, pe). snder \<noteq> Some pe) (peer_list ord (star_eps s)))).
      \<not> cclosed (chans s q)"
    using peers_okD [OF assms] by (fastforce simp: set_peer_list star_queues_def)
  from bcast_quiet [OF this, of m] show ?thesis by simp
qed

lemma star_broadcast_quiet:
  assumes "peers_ok (star_queues s) (resv s) s" "snder \<noteq> None \<longrightarrow> \<not> cclosed (chans s (urq s))"
  shows "\<exists>s'. star_broadcast ord pick m snder s = Ret s' \<and> quiet s s'"
proof -
  obtain t where t: "(if snder = None \<or> \<not> star_raw s
        then bcast (map (se_q \<circ> snd) (filter (\<lambda>(i, pe). snder \<noteq> Some pe) (peer_list ord (star_eps s)))) m s
        else Ret s) = Ret t" "quiet s t"
    using star_spread_quiet [OF assms(1)] by blast
  show ?thesis
  proof (cases "snder = None")
    case True
    with t show ?thesis by (simp add: star_broadcast_def quiet_Free)
  next
    case False
    with assms(2) t(2) have "\<not> cclosed (chans t (urq t))" by (simp add: quiet_def)
    from up_try_quiet [OF this, of pick m] obtain b u
      where u: "up_try pick (urq t) m t = Ret (b, u)" "quiet t u" by blast
    have "quiet s u" using t(2) u(2) by (rule quiet_trans)
    moreover have "star_broadcast ord pick m snder s = Ret (if b = Some True then u else Free m u)"
      unfolding star_broadcast_def t(1) using u(1) False by (simp add: RecvChannel_def)
    ultimately show ?thesis by (simp add: quiet_Free)
  qed
qed

lemma star_receiver_quiet:
  assumes "peers_ok (star_queues s) (resv s) s" "\<not> cclosed (chans s (urq s))"
  shows "\<exists>c s'. star_receiver ord pick rq pe mo s = Ret (c, s') \<and> quiet s s'"
proof (cases "\<exists>m b0 b1 b2 b3 rest. mo = Some m \<and> body (msgs s m) = b0 # b1 # b2 # b3 # rest")
  case False
  then show ?thesis
    by (auto simp: star_receiver_def split: option.split list.split)
next
  case True
  then obtain m b0 b1 b2 b3 rest where m: "mo = Some m" "body (msgs s m) = b0 # b1 # b2 # b3 # rest"
    by blast
  define s2 where "s2 = set_body m rest (append_hdr m [0, 0, 0, b3 + 1] s)"
  have q: "quiet s s2" by (simp add: s2_def append_hdr_eff set_body_def)
  have "peers_ok (star_queues s2) (resv s2) s2" "\<not> cclosed (chans s2 (urq s2))"
    using assms q star_own [of s2 s] peers_ok_quiet [OF assms(1) q]
    by (simp_all add: quiet_def star_queues_def)
  with star_broadcast_quiet [of s2 "Some pe"] obtain t
    where t: "star_broadcast ord pick m (Some pe) s2 = Ret t" "quiet s2 t" by blast
  have "quiet s t" using q t(2) by (rule quiet_trans)
  with m t(1) show ?thesis by (simp add: star_receiver_def s2_def [symmetric])
qed

lemma star_shutdown_peers:
  assumes "peers_ok (star_queues s) (resv s) s" "distinct ord"
  shows "\<exists>s'. star_Shutdown ord s = Ret s' \<and> star_queues s' = Map.empty \<and> nextc s' = nextc s \<and>
    urq s' = urq s \<and> uwq s' = uwq s \<and> star_w s' = star_w s \<and> (\<forall>q \<in> resv s. chans s' q = chans s q)"
  using close_table [OF assms(1) [unfolded star_queues_def] assms(2), of "s\<lparr>star_eps := Map.empty\<rparr>"]
  by (auto simp: star_Shutdown_def star_queues_def)

lemma star_rem_keeps:
  "star_RemoveEndpoint p s = Ret s' \<Longrightarrow> urq s' = urq s \<and> uwq s' = uwq s \<and> star_w s' = star_w s"
  by (auto simp: star_RemoveEndpoint_def ch_close_cases close_on_def Let_def split: option.splits if_splits)

interpretation star_sys: peer_sys star_queues "\<lambda>s. nat (uwqLen s)" star_AddEndpoint star_RemoveEndpoint
    star_ops "\<lambda>s. w_cnt (star_w s)" star_fin "\<lambda>ord m. star_broadcast ord UUp m None" star_receiver
proof unfold_locales
  fix s :: star and m ord
  show "peers_ok (star_queues s) (resv s) s \<Longrightarrow> \<exists>s'. star_broadcast ord UUp m None s = Ret s' \<and> quiet s s'"
    by (rule star_broadcast_quiet) simp_all
next
  fix s :: star and ord pe mo pick
  assume "peers_ok (star_queues s) (resv s) s" "\<not> cclosed (chans s (urq s))"
  from star_receiver_quiet [OF this]
  show "star_receiver ord pick (urq s) pe mo s \<noteq> Panic \<and>
    (\<forall>c s'. star_receiver ord pick (urq s) pe mo s = Ret (c, s') \<longrightarrow> quiet s s')"
    by (metis prod.inject run.distinct(3) run.inject)
next
  fix s :: star and ord :: "u32 list"
  assume "peers_ok (star_queues s) (resv s) s" "distinct ord"
  from star_shutdown_peers [OF this]
  show "\<exists>s'. op_Shutdown star_ops ord s = Ret s' \<and> star_queues s' = Map.empty \<and> nextc s' = nextc s \<and>
    urq s' = urq s \<and> uwq s' = uwq s \<and> w_cnt (star_w s') = w_cnt (star_w s) \<and>
    (\<forall>q \<in> resv s. chans s' q = chans s q)"
    by (auto simp: star_ops_def)
qed (auto simp: star_ops_def star_AddEndpoint_def new_chan_def spawn_def star_queues_def star_fin_def
       w_Done_def Let_def dest: star_own star_rem_keeps)

text \<open>The configuration right after \<^verbatim>\<open>NewSocket\<close>.\<close>

definition star_start :: "star \<Rightarrow> cref option \<times> star" where
  "star_start s = (let s1 = star_NewSocket s in (Some (SendChannel s1), s1))"

lemma star_start_inv: "sys_inv star_queues (\<lambda>s. w_cnt (star_w s)) (star_start s)"
  by (auto simp: star_start_def star_NewSocket_def newSocket_def star_ops_def star_Init_def
      star_NewProtocol_def sys_inv_def new_chan_def spawn_def w_Init_def w_Add_def sock_eff
      peers_ok_def star_queues_def resv_def defaultQLen_def Let_def)

section \<open>What each operation does\<close>

text \<open>A malformed message, or one at the hop limit, is dropped and nothing else happens.\<close>

lemma star_receiver_drop:
  assumes "\<nexists>b rest. body (msgs s m) = 0 # 0 # 0 # b # rest \<and> uint b < star_ttl s"
  shows "star_receiver ord pick rq pe (Some m) s = Ret (Loop, Free m s)"
  using assms by (auto simp: star_receiver_def split: list.split)

text \<open>
  The state after the hop count was moved to the header and increased, and the outcome of
  a received message of a cooked socket: every other peer and the application get it.
\<close>

definition star_hopped :: "mref \<Rightarrow> byte \<Rightarrow> bytes \<Rightarrow> star \<Rightarrow> star" where
  "star_hopped m b rest s = s\<lparr>msgs := (msgs s)(m := (msgs s m)\<lparr>
     hdr := slice_append (hdr (msgs s m)) [0, 0, 0, b + 1], body := rest\<rparr>)\<rparr>"

lemma star_receiver_raw:
  assumes "body (msgs s m) = 0 # 0 # 0 # b # rest" "uint b < star_ttl s" "star_raw s"
    and "\<not> cclosed (chans s (urq s))" "\<not> closeq s"
  shows "star_receiver ord pick rq pe (Some m) s = Ret (Loop,
    if chan_room (chans s (urq s)) then push_on (urq s) m (star_hopped m b rest s)
    else Free m (star_hopped m b rest s))"
proof -
  have h: "set_body m rest (append_hdr m [0, 0, 0, b + 1] s) = star_hopped m b rest s"
    by (simp add: set_body_def append_hdr_eff star_hopped_def)
  have "\<not> cclosed (chans (star_hopped m b rest s) (urq s))" using assms by (simp add: star_hopped_def)
  from up_try_cases [OF this, of pick m] assms h show ?thesis
    by (simp add: star_receiver_def star_broadcast_def RecvChannel_def star_hopped_def)
qed

lemma star_receiver_cooked:
  fixes s :: star and pe :: starEp and m :: mref
  assumes "body (msgs s m) = 0 # 0 # 0 # b # rest" "uint b < star_ttl s" "\<not> star_raw s"
    and "\<not> cclosed (chans s (urq s))" "\<not> closeq s" "1 \<le> refcnt (msgs s m)"
    and "peers_ok (star_queues s) (resv s) s" "map_order ord (star_eps s)"
  defines "T \<equiv> takers se_q (star_eps s) (\<lambda>_ e. Some pe \<noteq> Some e) s"
  defines "t \<equiv> (star_hopped m b rest s)\<lparr>
      chans := (\<lambda>q. if q \<in> T then chan_push m (chans s q) else chans s q),
      msgs := (msgs s)(m := (msgs s m)\<lparr>hdr := slice_append (hdr (msgs s m)) [0, 0, 0, b + 1],
        body := rest, refcnt := refcnt (msgs s m) + int (card T)\<rparr>)\<rparr>"
  shows "star_receiver ord pick rq pe (Some m) s = Ret (Loop,
    if chan_room (chans s (urq s)) then push_on (urq s) m t else Free m t)"
proof -
  have h: "set_body m rest (append_hdr m [0, 0, 0, b + 1] s) = star_hopped m b rest s"
    by (simp add: set_body_def append_hdr_eff star_hopped_def)
  have bc: "bcast (map (se_q \<circ> snd) (filter (\<lambda>(i, e). Some pe \<noteq> Some e) (peer_list ord (star_eps s)))) m
      (star_hopped m b rest s) = Ret t"
    using bcast_table [OF assms(7) [unfolded star_queues_def] assms(8,6),
        of "star_hopped m b rest s" "\<lambda>_ e. Some pe \<noteq> Some e"]
    by (simp add: star_hopped_def t_def T_def)
  have "urq s \<notin> T"
    using peers_okD [OF assms(7)] by (fastforce simp: T_def takers_def star_queues_def resv_def)
  then have u: "chans t (urq t) = chans s (urq s)" "closeq t = closeq s" "urq t = urq s"
    by (simp_all add: t_def star_hopped_def)
  from up_try_cases [of t "urq t" pick m] u assms(1-5) h bc show ?thesis
    by (simp add: star_receiver_def star_broadcast_def RecvChannel_def)
       (simp add: star_hopped_def)
qed

section \<open>Who holds a message\<close>

lemma star_broadcast_mem:
  assumes "peers_ok (star_queues s) (resv s) s" "snder \<noteq> None \<longrightarrow> \<not> cclosed (chans s (urq s))"
    and "mem_ok (add_mset m F) s" "star_broadcast ord pick m snder s = Ret s'"
  shows "mem_ok F s'"
proof -
  let ?qs = "map (se_q \<circ> snd) (filter (\<lambda>(i, pe). snder \<noteq> Some pe) (peer_list ord (star_eps s)))"
  obtain t where t: "(if snder = None \<or> \<not> star_raw s then bcast ?qs m s else Ret s) = Ret t" "quiet s t"
    using star_spread_quiet [OF assms(1), of snder ord m] by blast
  have "\<forall>q \<in> set ?qs. q < nextc s"
    using peers_okD [OF assms(1)] by (fastforce simp: set_peer_list star_queues_def)
  from mem_ok_bcast [OF this assms(3), of t] t(1) assms(3) have m: "mem_ok (add_mset m F) t"
    by (auto split: if_splits)
  show ?thesis
  proof (cases "snder = None")
    case True
    with assms(4) m show ?thesis
      unfolding star_broadcast_def t(1) run_bind.simps by (auto intro: mem_ok_Free)
  next
    case False
    have q: "RecvChannel t < nextc t" "\<not> cclosed (chans t (RecvChannel t))"
      using False assms(1,2) t(2) by (auto simp: quiet_def peers_ok_def resv_def RecvChannel_def)
    from assms(4) False obtain b u where u: "up_try pick (RecvChannel t) m t = Ret (b, u)"
        "s' = (if b = Some True then u else Free m u)"
      unfolding star_broadcast_def t(1) run_bind.simps by (auto simp: run_bind_Ret_iff)
    from mem_ok_up_try [OF m q(1) u(1) q(2)] u(2) show ?thesis by (simp add: mem_ok_Free split: if_splits)
  qed
qed

lemma star_handle_mem:
  "peers_ok (star_queues s) (resv s) s \<Longrightarrow> mem_ok (add_mset m F) s \<Longrightarrow>
   star_broadcast ord UUp m None s = Ret s' \<Longrightarrow> mem_ok F s'"
  by (rule star_broadcast_mem) simp_all

lemma star_receiver_mem:
  assumes "peers_ok (star_queues s) (resv s) s" "\<not> cclosed (chans s (urq s))" "mem_ok (add_mset m F) s"
    and "star_receiver ord pick (urq s) pe (Some m) s = Ret (c, s')"
  shows "mem_ok F s'"
proof (cases "\<exists>b0 b1 b2 b3 rest. body (msgs s m) = b0 # b1 # b2 # b3 # rest \<and>
    \<not> (b0 \<noteq> 0 \<or> b1 \<noteq> 0 \<or> b2 \<noteq> 0) \<and> \<not> star_ttl s \<le> uint b3")
  case False
  then have "s' = Free m s"
    using assms(4) by (auto simp: star_receiver_def split: list.splits if_splits)
  with assms(3) show ?thesis by (simp add: mem_ok_Free)
next
  case True
  then obtain b0 b1 b2 b3 rest where b: "body (msgs s m) = b0 # b1 # b2 # b3 # rest"
    "\<not> (b0 \<noteq> 0 \<or> b1 \<noteq> 0 \<or> b2 \<noteq> 0)" "\<not> star_ttl s \<le> uint b3"
    by blast
  define s2 where "s2 = set_body m rest (append_hdr m [0, 0, 0, b3 + 1] s)"
  have q: "quiet s s2" by (simp add: s2_def append_hdr_eff set_body_def)
  have "mem_ok (add_mset m F) s2" using assms(3) by (simp add: s2_def)
  moreover have "peers_ok (star_queues s2) (resv s2) s2" "\<not> cclosed (chans s2 (urq s2))"
    using assms(1,2) q star_own [of s2 s] peers_ok_quiet [OF assms(1) q] by (simp_all add: quiet_def star_queues_def)
  moreover have "star_broadcast ord pick m (Some pe) s2 = Ret s'"
    using assms(4) b by (auto simp: star_receiver_def s2_def run_bind_Ret_iff)
  ultimately show ?thesis using star_broadcast_mem by blast
qed

lemma star_same_refs:
  "star_fin s = Ret s' \<Longrightarrow> same_refs s s'" "star_RemoveEndpoint ep s = Ret s' \<Longrightarrow> core_refs s s'"
  "op_Shutdown star_ops ord s = Ret s' \<Longrightarrow> core_refs s s'"
  by (auto simp: star_ops_def star_fin_def w_Done_def run_bind_Ret_iff star_RemoveEndpoint_def star_Shutdown_def Let_def
        core_refs_def same_refs_def dest!: ch_close_core close_all_core split: if_splits option.splits)

lemma star_hooks_tame:
  "op_SendHook star_ops = Some hook \<or> op_RecvHook star_ops = Some hook \<Longrightarrow>
   \<exists>b s'. hook m s = Ret (b, s') \<and> tame star_queues (\<lambda>s. w_cnt (star_w s)) s s'"
  by (auto simp: star_ops_def star_SendHook_def tame_def same_refs_def sock_eff msg_eff
        star_queues_def Let_def split: option.splits)

lemma star_set_tame: "tame star_queues (\<lambda>s. w_cnt (star_w s)) s (snd (op_SetOption star_ops n v s))"
  by (cases v) (simp_all add: star_ops_def star_SetOption_def tame_def same_refs_def sock_eff star_queues_def Let_def)

interpretation star_mem: mem_sys star_queues "\<lambda>s. nat (uwqLen s)" star_AddEndpoint star_RemoveEndpoint star_ops
    "\<lambda>s. w_cnt (star_w s)" star_fin "\<lambda>ord m. star_broadcast ord UUp m None" star_receiver "\<lambda>_. Block"
  by unfold_locales
     ((rule star_handle_mem star_receiver_mem star_same_refs star_hooks_tame star_set_tame; assumption) |
      simp add: star_receiver_def star_AddEndpoint_def new_chan_def spawn_def Let_def)+

lemma star_mem_start: "mem_inv star_queues (\<lambda>s. w_cnt (star_w s)) (mem_start (star_start (socket0 x)))"
proof -
  have "mem_ok {#} (star_NewProtocol (socket0 x))"
    by (subst mem_ok_same [of "socket0 x"]) (simp_all add: star_NewProtocol_def same_refs_def)
  from mem_start_inv [OF star_start_inv [of "socket0 x", unfolded star_start_def star_NewSocket_def Let_def] this]
  show ?thesis
    by (simp add: star_start_def star_NewSocket_def Let_def star_ops_def star_Init_def tame_def same_refs_def
        sock_eff spawn_def)
qed

end
