(* ===== verification/Surveyor.thy ===== *)
theory Surveyor
  imports Mem_Sys
begin

text \<open>
  protocol/surveyor/surveyor.go: a survey is sent to every respondent under a fresh survey
  identifier; only answers to the current survey are handed to the application, and only
  until the survey's time is over.
\<close>

section \<open>State\<close>

text \<open>
  \<open>sv_timer\<close> is the armed timer and the duration it was last reset to; when it fires is up
  to the clock. The fields \<^verbatim>\<open>timeout\<close> and \<^verbatim>\<open>init\<close> of the Go struct are never used.
\<close>

record surveyorP =
  sp_q :: cref
  sp_ep :: pref

record surveyor = socket +
  sv_peers :: "u32 \<rightharpoonup> surveyorP"
  sv_raw :: bool
  sv_nextID :: u32
  sv_surveyID :: u32
  sv_duration :: dur
  sv_timer :: "dur option"
  sv_w :: waiter
  sv_ttl :: int

definition sv_queues :: "surveyor \<Rightarrow> u32 \<rightharpoonup> cref" where
  "sv_queues s = map_option sp_q \<circ> sv_peers s"

section \<open>Operations\<close>

definition defaultSurveyTime :: dur where "defaultSurveyTime = 1000000000"

definition sv_NewProtocol :: "surveyor \<Rightarrow> surveyor" where
  "sv_NewProtocol s = s\<lparr>sv_peers := Map.empty, sv_raw := False, sv_nextID := 0, sv_surveyID := 0,
     sv_duration := defaultSurveyTime, sv_timer := None, sv_w := \<lparr>w_cnt = 0\<rparr>, sv_ttl := 0\<rparr>"

definition sv_Init :: "surveyor \<Rightarrow> surveyor" where
  "sv_Init s =
     (let s1 = SetRecvError (Some ErrProtoState) (s\<lparr>sv_peers := Map.empty\<rparr>);
          s2 = s1\<lparr>sv_timer := None, sv_w := w_Add (w_Init (sv_w s1))\<rparr>
      in spawn GSender s2)"

text \<open>The timer's function; a timer that was stopped does not fire.\<close>

definition sv_timer_fires :: "surveyor \<Rightarrow> surveyor run" where
  "sv_timer_fires s =
     (case sv_timer s of
        None \<Rightarrow> Block
      | Some d \<Rightarrow> Ret (SetRecvError (Some ErrProtoState) (s\<lparr>sv_timer := None\<rparr>)))"

definition sv_Shutdown :: "u32 list \<Rightarrow> surveyor \<Rightarrow> surveyor run" where
  "sv_Shutdown ord s =
     (let peers = sv_peers s;
          s1 = s\<lparr>sv_peers := Map.empty\<rparr>
      in close_all (map (sp_q \<circ> snd) (peer_list ord peers)) s1)"

text \<open>
  What \<^verbatim>\<open>sender\<close> does with a message, and one round of \<^verbatim>\<open>sender\<close>. Its own reference to the
  message is not released.
\<close>

definition sv_handle :: "u32 list \<Rightarrow> mref \<Rightarrow> surveyor \<Rightarrow> surveyor run" where
  "sv_handle ord m s = bcast (map (sp_q \<circ> snd) (peer_list ord (sv_peers s))) m s"

definition sv_fin :: "surveyor \<Rightarrow> surveyor run" where
  "sv_fin s = run_bind (w_Done (sv_w s)) (\<lambda>(w, _). Ret (s\<lparr>sv_w := w\<rparr>))"

definition sv_sender :: "u32 list \<Rightarrow> top_arm \<Rightarrow> cref \<Rightarrow> surveyor \<Rightarrow> ((ctl \<times> cref) \<times> surveyor) run" where
  "sv_sender ord = sender_loop sv_fin (sv_handle ord)"

text \<open>\<^verbatim>\<open>(peer *surveyorP) sender()\<close> and one round of \<^verbatim>\<open>(peer *surveyorP) receiver()\<close>\<close>

definition surveyorP_sender ::
  "(mref \<Rightarrow> surveyor \<Rightarrow> (err option \<times> surveyor) run) \<Rightarrow> surveyorP \<Rightarrow> surveyor \<Rightarrow> (ctl \<times> surveyor) run" where
  "surveyorP_sender send peer s = peer_sender send (sp_q peer) s"

definition sv_receiver :: "up_arm \<Rightarrow> cref \<Rightarrow> surveyorP \<Rightarrow> mref option \<Rightarrow> surveyor \<Rightarrow> (ctl \<times> surveyor) run" where
  "sv_receiver pick rq peer mo s =
     (case mo of
        None \<Rightarrow> Ret (Exit, s)
      | Some m \<Rightarrow>
          if length (body (msgs s m)) < 4 then Ret (Loop, Free m s)
          else run_bind (up_send pick rq m (move4 m s)) (\<lambda>(up, s1).
                 Ret (if up then Loop else Exit, s1)))"

definition sv_AddEndpoint :: "pref \<Rightarrow> surveyor \<Rightarrow> surveyor" where
  "sv_AddEndpoint ep s =
     (let (q, s1) = new_chan 1 s;
          s2 = s1\<lparr>sv_peers := (sv_peers s1)(GetID s1 ep \<mapsto> \<lparr>sp_q = q, sp_ep = ep\<rparr>)\<rparr>
      in spawn (GPeerSender q) (spawn (GReceiver ep) s2))"

definition sv_RemoveEndpoint :: "pref \<Rightarrow> surveyor \<Rightarrow> surveyor run" where
  "sv_RemoveEndpoint ep s =
     (let i = GetID s ep;
          peer = sv_peers s i;
          s1 = s\<lparr>sv_peers := (sv_peers s)(i := None)\<rparr>
      in case peer of None \<Rightarrow> Ret s1 | Some p \<Rightarrow> ch_close (sp_q p) s1)"

definition sv_SendHook :: "mref \<Rightarrow> surveyor \<Rightarrow> (bool \<times> surveyor) run" where
  "sv_SendHook m s =
     (if sv_raw s then Ret (True, s)
      else
        let s1 = s\<lparr>sv_surveyID := sv_nextID s OR 0x80000000\<rparr>;
            s2 = s1\<lparr>sv_nextID := sv_nextID s1 + 1\<rparr>;
            s3 = SetRecvError None s2;
            s4 = append_hdr m (be32 (sv_surveyID s3)) s3
        in Ret (True, if 0 < sv_duration s4 then s4\<lparr>sv_timer := Some (sv_duration s4)\<rparr> else s4))"

definition sv_RecvHook :: "mref \<Rightarrow> surveyor \<Rightarrow> (bool \<times> surveyor) run" where
  "sv_RecvHook m s =
     (if sv_raw s then Ret (True, s)
      else
        (case be_Uint32 (hdr_bytes (msgs s m)) of
           None \<Rightarrow> Ret (False, s)
         | Some i \<Rightarrow> if i \<noteq> sv_surveyID s then Ret (False, s) else Ret (True, drop_hdr4 m s)))"

definition sv_SetOption :: "string \<Rightarrow> goval \<Rightarrow> surveyor \<Rightarrow> err option \<times> surveyor" where
  "sv_SetOption name v s =
     (if name = OptionRaw then
        (case v of
           VBool b \<Rightarrow>
             let s1 = s\<lparr>sv_raw := b\<rparr>
             in if b then (None, SetRecvError None (s1\<lparr>sv_timer := None\<rparr>))
                else (None, SetRecvError (Some ErrProtoState) s1)
         | _ \<Rightarrow> (Some ErrBadValue, s\<lparr>sv_raw := False\<rparr>))
      else if name = OptionSurveyTime then
        (case v of
           VDur d \<Rightarrow> (None, s\<lparr>sv_duration := d\<rparr>)
         | _ \<Rightarrow> (Some ErrBadValue, s\<lparr>sv_duration := 0\<rparr>))
      else if name = OptionTTL then
        (case v of
           VInt t \<Rightarrow> if t < 1 \<or> t > 255 then (Some ErrBadValue, s) else (None, s\<lparr>sv_ttl := t\<rparr>)
         | _ \<Rightarrow> (Some ErrBadValue, s))
      else (Some ErrBadOption, s))"

definition sv_GetOption :: "string \<Rightarrow> surveyor \<Rightarrow> err + goval" where
  "sv_GetOption name s =
     (if name = OptionRaw then Inr (VBool (sv_raw s))
      else if name = OptionSurveyTime then Inr (VDur (sv_duration s))
      else if name = OptionTTL then Inr (VInt (sv_ttl s))
      else Inl ErrBadOption)"

definition sv_ops :: "surveyor protocol_ops" where
  "sv_ops = \<lparr>op_Init = sv_Init, op_Shutdown = sv_Shutdown,
     op_AddEndpoint = (\<lambda>ep s. Ret (sv_AddEndpoint ep s)),
     op_RemoveEndpoint = sv_RemoveEndpoint,
     op_Number = ProtoSurveyor, op_Name = ''surveyor'',
     op_PeerNumber = ProtoRespondent, op_PeerName = ''respondent'',
     op_GetOption = sv_GetOption, op_SetOption = sv_SetOption,
     op_RecvHook = Some sv_RecvHook, op_SendHook = Some sv_SendHook\<rparr>"

definition sv_NewSocket :: "surveyor \<Rightarrow> surveyor" where
  "sv_NewSocket s = newSocket sv_ops (sv_NewProtocol s)"

section \<open>The contracts\<close>

interpretation sv: protocol_impl sv_ops
  by unfold_locales
     (auto simp: sv_ops_def sv_SetOption_def sv_GetOption_def core_options_def option_name
        sock_cfg_def sock_eff Let_def split: goval.splits if_splits)

lemmas sv_peer_defs = sv_queues_def resv_def sv_AddEndpoint_def sv_RemoveEndpoint_def
  new_chan_def spawn_def GetID_def

interpretation sv_tab: peer_table sv_queues resv "\<lambda>_. 1" sv_AddEndpoint sv_RemoveEndpoint
  by unfold_locales
     (auto simp: sv_peer_defs ch_close_cases close_on_def Let_def fun_eq_iff split: option.splits)

lemma sv_own: "socket.more s' = socket.more s \<Longrightarrow> sv_peers s' = sv_peers s \<and> sv_w s' = sv_w s"
  by (cases s; cases s') simp

lemma sv_handle_quiet:
  assumes "peers_ok (sv_queues s) (resv s) s"
  shows "\<exists>s'. sv_handle ord m s = Ret s' \<and> quiet s s'"
  unfolding sv_handle_def
proof (rule bcast_quiet)
  show "\<forall>q \<in> set (map (sp_q \<circ> snd) (peer_list ord (sv_peers s))). \<not> cclosed (chans s q)"
    using peers_okD [OF assms] by (fastforce simp: set_peer_list sv_queues_def)
qed

lemma sv_receiver_quiet:
  assumes "\<not> cclosed (chans s (urq s))"
  shows "sv_receiver pick (urq s) pe mo s \<noteq> Panic \<and>
    (\<forall>c s'. sv_receiver pick (urq s) pe mo s = Ret (c, s') \<longrightarrow> quiet s s')"
proof (cases mo)
  case None
  then show ?thesis by (simp add: sv_receiver_def)
next
  case (Some r)
  have q: "quiet s (move4 r s)" by (simp add: move4_eff)
  have "\<not> cclosed (chans (move4 r s) (urq s))" using assms by (simp add: move4_eff)
  from up_send_cases [OF this, of pick r] Some q show ?thesis
    by (auto simp: sv_receiver_def intro: quiet_trans)
qed

lemma sv_shutdown_peers:
  assumes "peers_ok (sv_queues s) (resv s) s" "distinct ord"
  shows "\<exists>s'. sv_Shutdown ord s = Ret s' \<and> sv_queues s' = Map.empty \<and> nextc s' = nextc s \<and>
    urq s' = urq s \<and> uwq s' = uwq s \<and> sv_w s' = sv_w s \<and> (\<forall>q \<in> resv s. chans s' q = chans s q)"
  using close_table [OF assms(1) [unfolded sv_queues_def] assms(2), of "s\<lparr>sv_peers := Map.empty\<rparr>"]
  by (auto simp: sv_Shutdown_def sv_queues_def)

lemma sv_rem_keeps:
  "sv_RemoveEndpoint p s = Ret s' \<Longrightarrow> urq s' = urq s \<and> uwq s' = uwq s \<and> sv_w s' = sv_w s"
  by (auto simp: sv_RemoveEndpoint_def ch_close_cases close_on_def Let_def split: option.splits if_splits)

interpretation sv_sys: peer_sys sv_queues "\<lambda>_. 1" sv_AddEndpoint sv_RemoveEndpoint
    sv_ops "\<lambda>s. w_cnt (sv_w s)" sv_fin sv_handle "\<lambda>_. sv_receiver"
proof unfold_locales
  fix s :: surveyor and m ord
  show "peers_ok (sv_queues s) (resv s) s \<Longrightarrow> \<exists>s'. sv_handle ord m s = Ret s' \<and> quiet s s'"
    by (rule sv_handle_quiet)
next
  fix s :: surveyor and pe mo pick
  show "\<not> cclosed (chans s (urq s)) \<Longrightarrow> sv_receiver pick (urq s) pe mo s \<noteq> Panic \<and>
    (\<forall>c s'. sv_receiver pick (urq s) pe mo s = Ret (c, s') \<longrightarrow> quiet s s')"
    by (rule sv_receiver_quiet)
next
  fix s :: surveyor and ord :: "u32 list"
  assume "peers_ok (sv_queues s) (resv s) s" "distinct ord"
  from sv_shutdown_peers [OF this]
  show "\<exists>s'. op_Shutdown sv_ops ord s = Ret s' \<and> sv_queues s' = Map.empty \<and> nextc s' = nextc s \<and>
    urq s' = urq s \<and> uwq s' = uwq s \<and> w_cnt (sv_w s') = w_cnt (sv_w s) \<and>
    (\<forall>q \<in> resv s. chans s' q = chans s q)"
    by (auto simp: sv_ops_def)
qed (auto simp: sv_ops_def sv_AddEndpoint_def new_chan_def spawn_def sv_queues_def sv_fin_def
       w_Done_def Let_def dest: sv_own sv_rem_keeps)

text \<open>The configuration right after \<^verbatim>\<open>NewSocket\<close>.\<close>

definition sv_start :: "surveyor \<Rightarrow> cref option \<times> surveyor" where
  "sv_start s = (let s1 = sv_NewSocket s in (Some (SendChannel s1), s1))"

lemma sv_start_inv: "sys_inv sv_queues (\<lambda>s. w_cnt (sv_w s)) (sv_start s)"
  by (auto simp: sv_start_def sv_NewSocket_def newSocket_def sv_ops_def sv_Init_def
      sv_NewProtocol_def sys_inv_def new_chan_def spawn_def w_Init_def w_Add_def sock_eff
      peers_ok_def sv_queues_def resv_def defaultQLen_def Let_def)

section \<open>What each operation does\<close>

text \<open>The sender keeps its own reference: the count ends one above the number of holders.\<close>

lemma sv_handle_all:
  assumes "peers_ok (sv_queues s) (resv s) s" "map_order ord (sv_peers s)" "1 \<le> refcnt (msgs s m)"
  shows "sv_handle ord m s = Ret (s\<lparr>
      chans := (\<lambda>q. if q \<in> takers sp_q (sv_peers s) (\<lambda>_ _. True) s then chan_push m (chans s q) else chans s q),
      msgs := (msgs s)(m := (msgs s m)\<lparr>
        refcnt := refcnt (msgs s m) + int (card (takers sp_q (sv_peers s) (\<lambda>_ _. True) s))\<rparr>)\<rparr>)"
  using bcast_table [OF assms(1) [unfolded sv_queues_def] assms(2,3), of s "\<lambda>_ _. True"]
  by (simp add: sv_handle_def case_prod_unfold)

lemma sv_SendHook_cooked:
  assumes "\<not> sv_raw s" "sv_SendHook m s = Ret (b, s')"
  shows "b" and "sv_surveyID s' = sv_nextID s OR 0x80000000" and "sv_nextID s' = sv_nextID s + 1"
    and "slice_bytes (hdr (msgs s' m)) = slice_bytes (hdr (msgs s m)) @ be32 (sv_surveyID s')"
    and "recverr s' = None" and "\<not> sv_raw s'" and "0 < sv_duration s \<Longrightarrow> sv_timer s' = Some (sv_duration s)"
  using assms by (auto simp: sv_SendHook_def Let_def sock_eff append_hdr_eff split: if_splits)

text \<open>Exactly the answers that carry the current survey identifier are accepted.\<close>

lemma sv_RecvHook_iff:
  assumes "\<not> sv_raw s"
  shows "(\<exists>s'. sv_RecvHook m s = Ret (True, s')) \<longleftrightarrow>
    be_Uint32 (hdr_bytes (msgs s m)) = Some (sv_surveyID s)"
  using assms by (auto simp: sv_RecvHook_def split: option.split)

lemma sv_RecvHook_reject:
  assumes "\<not> sv_raw s" "be_Uint32 (hdr_bytes (msgs s m)) \<noteq> Some (sv_surveyID s)"
  shows "sv_RecvHook m s = Ret (False, s)"
  using assms by (auto simp: sv_RecvHook_def split: option.split)

text \<open>When the survey's time is over, receiving fails with ErrProtoState.\<close>

lemma sv_timer_ends_survey:
  "sv_timer s = Some d \<Longrightarrow> \<exists>s'. sv_timer_fires s = Ret s' \<and> recverr s' = Some ErrProtoState \<and> sv_timer s' = None"
  by (simp add: sv_timer_fires_def sock_eff)

section \<open>Who holds a message\<close>

lemma sv_handle_mem:
  assumes "peers_ok (sv_queues s) (resv s) s" "mem_ok (add_mset m F) s" "sv_handle ord m s = Ret s'"
  shows "mem_ok F s'"
proof -
  have "\<forall>q \<in> set (map (sp_q \<circ> snd) (peer_list ord (sv_peers s))). q < nextc s"
    using peers_okD [OF assms(1)] by (fastforce simp: set_peer_list sv_queues_def)
  from mem_ok_bcast [OF this assms(2) assms(3) [unfolded sv_handle_def]] show ?thesis
    by (blast intro: mem_ok_drop)
qed

lemma sv_receiver_mem:
  assumes "peers_ok (sv_queues s) (resv s) s" "\<not> cclosed (chans s (urq s))" "mem_ok (add_mset m F) s"
    and "sv_receiver pick (urq s) pe (Some m) s = Ret (c, s')"
  shows "mem_ok F s'"
proof -
  have "mem_ok (add_mset m F) (move4 m s)" "urq s < nextc (move4 m s)" "\<not> cclosed (chans (move4 m s) (urq s))"
    using assms(1-3) by (auto simp: peers_ok_def resv_def move4_eff mem_ok_msg)
  note up = mem_ok_up_send [OF this(1,2) _ this(3)]
  from assms(3,4) show ?thesis
    by (auto simp: sv_receiver_def run_bind_Ret_iff dest!: up split: if_splits intro: mem_ok_Free mem_ok_drop)
qed

lemma sv_timer_tame: "run_keeps (tame sv_queues (\<lambda>s. w_cnt (sv_w s)) s) (sv_timer_fires s)"
  by (simp add: sv_timer_fires_def tame_def same_refs_def sv_queues_def sock_eff split: option.split)

lemma sv_same_refs:
  "sv_fin s = Ret s' \<Longrightarrow> same_refs s s'" "sv_RemoveEndpoint ep s = Ret s' \<Longrightarrow> core_refs s s'"
  "op_Shutdown sv_ops ord s = Ret s' \<Longrightarrow> core_refs s s'"
  by (auto simp: sv_ops_def sv_fin_def w_Done_def run_bind_Ret_iff sv_RemoveEndpoint_def sv_Shutdown_def Let_def
        core_refs_def same_refs_def dest!: ch_close_core close_all_core split: if_splits option.splits)

lemma sv_hooks_tame:
  "op_SendHook sv_ops = Some hook \<or> op_RecvHook sv_ops = Some hook \<Longrightarrow>
   \<exists>b s'. hook m s = Ret (b, s') \<and> tame sv_queues (\<lambda>s. w_cnt (sv_w s)) s s'"
  by (auto simp: sv_ops_def sv_SendHook_def sv_RecvHook_def tame_def same_refs_def sock_eff msg_eff
        sv_queues_def Let_def split: option.splits)

lemma sv_set_tame: "tame sv_queues (\<lambda>s. w_cnt (sv_w s)) s (snd (op_SetOption sv_ops n v s))"
  by (cases v) (simp_all add: sv_ops_def sv_SetOption_def tame_def same_refs_def sock_eff sv_queues_def Let_def)

interpretation sv_mem: mem_sys sv_queues "\<lambda>_. 1" sv_AddEndpoint sv_RemoveEndpoint sv_ops
    "\<lambda>s. w_cnt (sv_w s)" sv_fin sv_handle "\<lambda>_. sv_receiver" "sv_timer_fires"
  by unfold_locales
     ((rule sv_handle_mem sv_receiver_mem sv_timer_tame sv_same_refs sv_hooks_tame sv_set_tame; assumption) |
      simp add: sv_receiver_def sv_AddEndpoint_def new_chan_def spawn_def Let_def)+

lemma sv_mem_start: "mem_inv sv_queues (\<lambda>s. w_cnt (sv_w s)) (mem_start (sv_start (socket0 x)))"
proof -
  have "mem_ok {#} (sv_NewProtocol (socket0 x))"
    by (subst mem_ok_same [of "socket0 x"]) (simp_all add: sv_NewProtocol_def same_refs_def)
  from mem_start_inv [OF sv_start_inv [of "socket0 x", unfolded sv_start_def sv_NewSocket_def Let_def] this]
  show ?thesis
    by (simp add: sv_start_def sv_NewSocket_def Let_def sv_ops_def sv_Init_def tame_def same_refs_def
        sock_eff spawn_def)
qed

end
