(* ===== verification/Respondent.thy ===== *)
theory Respondent
  imports Mem_Sys
begin

text \<open>
  protocol/respondent/respondent.go: the answering side of a survey. Unlike rep, the sender
  looks the peer up under the lock and queues the message after it released the lock, so the
  model has the two steps apart (\<open>resp_lookup\<close>, \<open>resp_push\<close>).
\<close>

section \<open>State\<close>

record respPeer =
  rp_q :: cref
  rp_ep :: pref

record resp = socket +
  resp_peers :: "u32 \<rightharpoonup> respPeer"
  resp_raw :: bool
  resp_ttl :: int
  resp_backtrace :: "bytes option"
  resp_w :: waiter

definition resp_queues :: "resp \<Rightarrow> u32 \<rightharpoonup> cref" where
  "resp_queues s = map_option rp_q \<circ> resp_peers s"

section \<open>Operations\<close>

definition resp_NewProtocol :: "resp \<Rightarrow> resp" where
  "resp_NewProtocol s = s\<lparr>resp_peers := Map.empty, resp_raw := False, resp_ttl := 0,
     resp_backtrace := None, resp_w := \<lparr>w_cnt = 0\<rparr>\<rparr>"

definition resp_Init :: "resp \<Rightarrow> resp" where
  "resp_Init s =
     (let s1 = s\<lparr>resp_ttl := 8, resp_peers := Map.empty, resp_w := w_Init (resp_w s)\<rparr>;
          s2 = SetSendError (Some ErrProtoState) s1
      in spawn GSender (s2\<lparr>resp_w := w_Add (resp_w s2)\<rparr>))"

definition resp_Shutdown :: "u32 list \<Rightarrow> resp \<Rightarrow> resp run" where
  "resp_Shutdown ord s =
     (let peers = resp_peers s;
          s1 = s\<lparr>resp_peers := Map.empty\<rparr>
      in close_all (map (rp_q \<circ> snd) (peer_list ord peers)) s1)"

text \<open>
  The middle of \<^verbatim>\<open>sender\<close> up to the unlock: the peer a message goes to, or \<open>None\<close> when the
  message was dropped. Then the send to that peer's queue.
\<close>

definition resp_lookup :: "mref \<Rightarrow> resp \<Rightarrow> (respPeer option \<times> resp) run" where
  "resp_lookup m s =
     (if length (hdr_bytes (msgs s m)) < 4 then Ret (None, Free m s)
      else
        (case be_Uint32 (hdr_bytes (msgs s m)) of
           None \<Rightarrow> Panic
         | Some i \<Rightarrow>
             let s1 = drop_hdr4 m s
             in (case resp_peers s1 i of
                   None \<Rightarrow> Ret (None, Free m s1)
                 | Some peer \<Rightarrow> Ret (Some peer, s1))))"

definition resp_push :: "mref \<Rightarrow> respPeer \<Rightarrow> resp \<Rightarrow> resp run" where
  "resp_push m peer s = offer (rp_q peer) m s"

definition resp_route :: "mref \<Rightarrow> resp \<Rightarrow> resp run" where
  "resp_route m s =
     run_bind (resp_lookup m s) (\<lambda>(p, s1). case p of None \<Rightarrow> Ret s1 | Some peer \<Rightarrow> resp_push m peer s1)"

definition resp_fin :: "resp \<Rightarrow> resp run" where
  "resp_fin s = run_bind (w_Done (resp_w s)) (\<lambda>(w, _). Ret (s\<lparr>resp_w := w\<rparr>))"

text \<open>One round of \<^verbatim>\<open>sender\<close> when nothing comes between the two steps.\<close>

definition resp_sender :: "top_arm \<Rightarrow> cref \<Rightarrow> resp \<Rightarrow> ((ctl \<times> cref) \<times> resp) run" where
  "resp_sender = sender_loop resp_fin resp_route"

text \<open>\<^verbatim>\<open>(peer *respPeer) sender()\<close>\<close>

definition respPeer_sender ::
  "(mref \<Rightarrow> resp \<Rightarrow> (err option \<times> resp) run) \<Rightarrow> respPeer \<Rightarrow> resp \<Rightarrow> (ctl \<times> resp) run" where
  "respPeer_sender send peer s = peer_sender send (rp_q peer) s"

text \<open>One round of \<^verbatim>\<open>receiver\<close>: a message with a bad backtrace is dropped and the loop goes on.\<close>

definition resp_receiver :: "up_arm \<Rightarrow> cref \<Rightarrow> pref \<Rightarrow> mref option \<Rightarrow> resp \<Rightarrow> (ctl \<times> resp) run" where
  "resp_receiver pick rq ep mo s =
     (case mo of
        None \<Rightarrow> Ret (Exit, s)
      | Some m \<Rightarrow>
          let s1 = append_hdr m (be32 (GetID s ep)) s;
              (ok, s2) = backtrace_loop (resp_ttl s1) 0 m s1
          in if \<not> ok then Ret (Loop, s2)
             else run_bind (up_send pick rq m s2) (\<lambda>(up, s3).
                    Ret (if up then (Loop, s3) else (Exit, Free m s3))))"

definition resp_RecvHook :: "mref \<Rightarrow> resp \<Rightarrow> (bool \<times> resp) run" where
  "resp_RecvHook m s =
     (if resp_raw s then Ret (True, s)
      else if length (hdr_bytes (msgs s m)) < 4 then Ret (False, s)
      else Ret (True, SetSendError None (s\<lparr>resp_backtrace := Some (hdr_bytes (msgs s m))\<rparr>)))"

definition resp_SendHook :: "mref \<Rightarrow> resp \<Rightarrow> (bool \<times> resp) run" where
  "resp_SendHook m s =
     (if resp_raw s then Ret (True, s)
      else
        let s1 = SetSendError (Some ErrProtoState) s;
            h = slice_append (map_option (\<lambda>_. []) (hdr (msgs s1 m))) (slice_bytes (resp_backtrace s1));
            s2 = (set_hdr m h s1)\<lparr>resp_backtrace := None\<rparr>
        in Ret (hdr_bytes (msgs s2 m) \<noteq> [], s2))"

definition resp_AddEndpoint :: "pref \<Rightarrow> resp \<Rightarrow> resp" where
  "resp_AddEndpoint ep s =
     (let (q, s1) = new_chan 1 s;
          s2 = s1\<lparr>resp_peers := (resp_peers s1)(GetID s1 ep \<mapsto> \<lparr>rp_q = q, rp_ep = ep\<rparr>)\<rparr>
      in spawn (GPeerSender q) (spawn (GReceiver ep) s2))"

definition resp_RemoveEndpoint :: "pref \<Rightarrow> resp \<Rightarrow> resp run" where
  "resp_RemoveEndpoint ep s =
     (let i = GetID s ep;
          peer = resp_peers s i;
          s1 = s\<lparr>resp_peers := (resp_peers s)(i := None)\<rparr>
      in case peer of None \<Rightarrow> Ret s1 | Some p \<Rightarrow> ch_close (rp_q p) s1)"

definition resp_SetOption :: "string \<Rightarrow> goval \<Rightarrow> resp \<Rightarrow> err option \<times> resp" where
  "resp_SetOption name v s =
     (if name = OptionRaw then
        (case v of
           VBool b \<Rightarrow>
             let s1 = s\<lparr>resp_raw := b\<rparr>
             in if b then (None, SetSendError None s1)
                else (None, SetSendError (Some ErrProtoState) s1)
         | _ \<Rightarrow> (Some ErrBadValue, s\<lparr>resp_raw := False\<rparr>))
      else if name = OptionTTL then
        (case v of
           VInt t \<Rightarrow> if t < 1 \<or> t > 255 then (Some ErrBadValue, s) else (None, s\<lparr>resp_ttl := t\<rparr>)
         | _ \<Rightarrow> (Some ErrBadValue, s))
      else (Some ErrBadOption, s))"

definition resp_GetOption :: "string \<Rightarrow> resp \<Rightarrow> err + goval" where
  "resp_GetOption name s =
     (if name = OptionRaw then Inr (VBool (resp_raw s))
      else if name = OptionTTL then Inr (VInt (resp_ttl s))
      else Inl ErrBadOption)"

definition resp_ops :: "resp protocol_ops" where
  "resp_ops = \<lparr>op_Init = resp_Init, op_Shutdown = resp_Shutdown,
     op_AddEndpoint = (\<lambda>ep s. Ret (resp_AddEndpoint ep s)),
     op_RemoveEndpoint = resp_RemoveEndpoint,
     op_Number = ProtoRespondent, op_Name = ''respondent'',
     op_PeerNumber = ProtoSurveyor, op_PeerName = ''surveyor'',
     op_GetOption = resp_GetOption, op_SetOption = resp_SetOption,
     op_RecvHook = Some resp_RecvHook, op_SendHook = Some resp_SendHook\<rparr>"

definition resp_NewSocket :: "resp \<Rightarrow> resp" where
  "resp_NewSocket s = newSocket resp_ops (resp_NewProtocol s)"

section \<open>The contracts\<close>

interpretation resp: protocol_impl resp_ops
  by unfold_locales
     (auto simp: resp_ops_def resp_SetOption_def resp_GetOption_def core_options_def option_name
        sock_cfg_def sock_eff Let_def split: goval.splits if_splits)

lemmas resp_peer_defs = resp_queues_def resv_def resp_AddEndpoint_def resp_RemoveEndpoint_def
  new_chan_def spawn_def GetID_def

interpretation resp_tab: peer_table resp_queues resv "\<lambda>_. 1" resp_AddEndpoint resp_RemoveEndpoint
  by unfold_locales
     (auto simp: resp_peer_defs ch_close_cases close_on_def Let_def fun_eq_iff split: option.splits)

lemma resp_own:
  "socket.more s' = socket.more s \<Longrightarrow> resp_peers s' = resp_peers s \<and> resp_w s' = resp_w s"
  by (cases s; cases s') simp

lemma resp_route_quiet:
  assumes "peers_ok (resp_queues s) (resv s) s"
  shows "\<exists>s'. resp_route m s = Ret s' \<and> quiet s s'"
proof (cases "be_Uint32 (hdr_bytes (msgs s m))")
  case None
  then show ?thesis by (simp add: resp_route_def resp_lookup_def be_Uint32_None_iff)
next
  case (Some v)
  then have n: "\<not> length (hdr_bytes (msgs s m)) < 4"
    using be_Uint32_None_iff [of "hdr_bytes (msgs s m)"] by simp
  show ?thesis
  proof (cases "resp_peers s v")
    case None
    with Some n show ?thesis by (simp add: resp_route_def resp_lookup_def drop_hdr4_eff)
  next
    case (Some pe)
    then have "\<not> cclosed (chans s (rp_q pe))"
      using peers_okD [OF assms, of v] by (simp add: resp_queues_def)
    with Some n \<open>be_Uint32 _ = _\<close> show ?thesis
      by (simp add: resp_route_def resp_lookup_def resp_push_def drop_hdr4_eff offer_cases Let_def)
  qed
qed

lemma resp_receiver_quiet:
  assumes "\<not> cclosed (chans s (urq s))"
  shows "resp_receiver pick (urq s) ep mo s \<noteq> Panic \<and>
    (\<forall>c s'. resp_receiver pick (urq s) ep mo s = Ret (c, s') \<longrightarrow> quiet s s')"
proof (cases mo)
  case None
  then show ?thesis by (simp add: resp_receiver_def)
next
  case (Some r)
  define s1 where "s1 = append_hdr r (be32 (GetID s ep)) s"
  obtain ok s2 where bl: "backtrace_loop (resp_ttl s1) 0 r s1 = (ok, s2)" by fastforce
  have "quiet s s1" by (simp add: s1_def append_hdr_eff)
  also have "quiet s1 s2" using backtrace_loop_quiet [of s1 "resp_ttl s1" 0 r] bl by simp
  finally have q: "quiet s s2" .
  then have "\<not> cclosed (chans s2 (urq s))" using assms by (simp add: quiet_def)
  from up_send_cases [OF this, of pick r] show ?thesis
    using Some bl q by (auto simp: resp_receiver_def s1_def [symmetric] intro: quiet_trans)
qed

lemma resp_shutdown_peers:
  assumes "peers_ok (resp_queues s) (resv s) s" "distinct ord"
  shows "\<exists>s'. resp_Shutdown ord s = Ret s' \<and> resp_queues s' = Map.empty \<and> nextc s' = nextc s \<and>
    urq s' = urq s \<and> uwq s' = uwq s \<and> resp_w s' = resp_w s \<and> (\<forall>q \<in> resv s. chans s' q = chans s q)"
  using close_table [OF assms(1) [unfolded resp_queues_def] assms(2), of "s\<lparr>resp_peers := Map.empty\<rparr>"]
  by (auto simp: resp_Shutdown_def resp_queues_def)

lemma resp_rem_keeps:
  "resp_RemoveEndpoint p s = Ret s' \<Longrightarrow> urq s' = urq s \<and> uwq s' = uwq s \<and> resp_w s' = resp_w s"
  by (auto simp: resp_RemoveEndpoint_def ch_close_cases close_on_def Let_def split: option.splits if_splits)

interpretation resp_sys: peer_sys resp_queues "\<lambda>_. 1" resp_AddEndpoint resp_RemoveEndpoint resp_ops
    "\<lambda>s. w_cnt (resp_w s)" resp_fin "\<lambda>_. resp_route" "\<lambda>_. resp_receiver"
proof unfold_locales
  fix s :: resp and m
  show "peers_ok (resp_queues s) (resv s) s \<Longrightarrow> \<exists>s'. resp_route m s = Ret s' \<and> quiet s s'"
    by (rule resp_route_quiet)
next
  fix s :: resp and p mo pick
  show "\<not> cclosed (chans s (urq s)) \<Longrightarrow> resp_receiver pick (urq s) p mo s \<noteq> Panic \<and>
    (\<forall>c s'. resp_receiver pick (urq s) p mo s = Ret (c, s') \<longrightarrow> quiet s s')"
    by (rule resp_receiver_quiet)
next
  fix s :: resp and ord :: "u32 list"
  assume "peers_ok (resp_queues s) (resv s) s" "distinct ord"
  from resp_shutdown_peers [OF this]
  show "\<exists>s'. op_Shutdown resp_ops ord s = Ret s' \<and> resp_queues s' = Map.empty \<and> nextc s' = nextc s \<and>
    urq s' = urq s \<and> uwq s' = uwq s \<and> w_cnt (resp_w s') = w_cnt (resp_w s) \<and>
    (\<forall>q \<in> resv s. chans s' q = chans s q)"
    by (auto simp: resp_ops_def)
qed (auto simp: resp_ops_def resp_AddEndpoint_def new_chan_def spawn_def resp_queues_def resp_fin_def
       w_Done_def Let_def dest: resp_own resp_rem_keeps)

definition resp_start :: "resp \<Rightarrow> cref option \<times> resp" where
  "resp_start s = (let s1 = resp_NewSocket s in (Some (SendChannel s1), s1))"

lemma resp_start_inv: "sys_inv resp_queues (\<lambda>s. w_cnt (resp_w s)) (resp_start s)"
  by (auto simp: resp_start_def resp_NewSocket_def newSocket_def resp_ops_def resp_Init_def
      resp_NewProtocol_def sys_inv_def new_chan_def spawn_def w_Init_def w_Add_def sock_eff
      peers_ok_def resp_queues_def resv_def defaultQLen_def Let_def)

section \<open>The lookup and the push as separate steps\<close>

text \<open>
  What the code allows: after the sender looked the peer up it holds no lock, and another
  goroutine may remove the endpoint before the message is queued. A configuration is the
  message and peer the sender is about to serve, if any, and the state.
\<close>

datatype resp_event = PLookup mref | PPush | PAdd pref | PRemove pref

fun resp_fine_step :: "resp_event \<Rightarrow> (mref \<times> respPeer) option \<times> resp \<Rightarrow>
    ((mref \<times> respPeer) option \<times> resp) run" where
  "resp_fine_step (PLookup m) (None, s) =
     run_bind (resp_lookup m s) (\<lambda>(p, s1). Ret (map_option (Pair m) p, s1))"
| "resp_fine_step (PLookup m) (Some x, s) = Block"
| "resp_fine_step PPush (None, s) = Block"
| "resp_fine_step PPush (Some (m, peer), s) = run_bind (resp_push m peer s) (\<lambda>s1. Ret (None, s1))"
| "resp_fine_step (PAdd ep) (x, s) = Ret (x, resp_AddEndpoint ep s)"
| "resp_fine_step (PRemove ep) (x, s) = run_bind (resp_RemoveEndpoint ep s) (\<lambda>s1. Ret (x, s1))"

text \<open>The peer goes away between the two steps: the send hits a closed channel.\<close>

lemma resp_push_after_remove:
  assumes "resp_lookup m s = Ret (Some peer, s1)" "resp_RemoveEndpoint ep s1 = Ret s2"
    and "resp_peers s1 (GetID s1 ep) = Some peer"
  shows "resp_push m peer s2 = Panic"
proof -
  have "\<not> cclosed (chans s1 (rp_q peer))" and "s2 = close_on (rp_q peer) (s1\<lparr>resp_peers := (resp_peers s1)(GetID s1 ep := None)\<rparr>)"
    using assms(2,3) by (auto simp: resp_RemoveEndpoint_def ch_close_cases close_on_def Let_def split: if_splits)
  then show ?thesis by (simp add: resp_push_def offer_cases close_on_def)
qed

section \<open>What each operation does\<close>

lemma resp_receiver_bad:
  assumes "hdr (msgs s r) = Some []" "bt_parse (resp_ttl s) 0 (body (msgs s r)) = None"
  shows "\<exists>h b. resp_receiver pick rq ep (Some r) s =
    Ret (Loop, Free r (s\<lparr>msgs := (msgs s)(r := (msgs s r)\<lparr>hdr := Some h, body := b\<rparr>)\<rparr>))"
proof -
  let ?s1 = "append_hdr r (be32 (GetID s ep)) s"
  have h1: "hdr (msgs ?s1 r) = Some (be32 (GetID s ep))" and h2: "body (msgs ?s1 r) = body (msgs s r)"
    using assms(1) by (simp_all add: append_hdr_eff)
  have "bt_parse (resp_ttl ?s1) 0 (body (msgs ?s1 r)) = None"
    using assms(2) h2 by (simp add: append_hdr_eff)
  with backtrace_loop_parse [OF h1, of "resp_ttl ?s1" 0] obtain h b
    where "backtrace_loop (resp_ttl ?s1) 0 r ?s1 =
      (False, Free r (?s1\<lparr>msgs := (msgs ?s1)(r := (msgs ?s1 r)\<lparr>hdr := Some h, body := b\<rparr>)\<rparr>))"
    by auto
  then show ?thesis
    by (intro exI [of _ h] exI [of _ b]) (simp add: resp_receiver_def append_hdr_eff)
qed

lemma resp_hooks_answer:
  assumes "\<not> resp_raw s" "4 \<le> length (hdr_bytes (msgs s m))" "resp_RecvHook m s = Ret (b, s1)"
    and "hdr (msgs s1 a) = Some h" "resp_SendHook a s1 = Ret (c, s2)"
  shows "b \<and> c \<and> hdr (msgs s2 a) = Some (hdr_bytes (msgs s m)) \<and> resp_backtrace s2 = None \<and>
    senderr s1 = None \<and> senderr s2 = Some ErrProtoState"
  using assms
  by (auto simp: resp_RecvHook_def resp_SendHook_def sock_eff set_hdr_def hdr_bytes_def Let_def)

text \<open>Without a survey to answer the message is dropped.\<close>

lemma resp_SendHook_nothing:
  assumes "\<not> resp_raw s" "resp_backtrace s = None" "resp_SendHook a s = Ret (c, s')"
  shows "\<not> c"
  using assms
  by (auto simp: resp_SendHook_def sock_eff set_hdr_def hdr_bytes_def slice_append_def Let_def split: option.splits)

section \<open>Who holds a message\<close>

lemma resp_route_mem:
  assumes "peers_ok (resp_queues s) (resv s) s" "mem_ok (add_mset m F) s" "resp_route m s = Ret s'"
  shows "mem_ok F s'"
proof (cases "length (hdr_bytes (msgs s m)) < 4")
  case True
  with assms(2,3) show ?thesis by (auto simp: resp_route_def resp_lookup_def resp_push_def mem_ok_Free)
next
  case False
  then obtain i where i: "be_Uint32 (hdr_bytes (msgs s m)) = Some i"
    using be_Uint32_None_iff [of "hdr_bytes (msgs s m)"] by auto
  have m: "mem_ok (add_mset m F) (drop_hdr4 m s)" using assms(2) by simp
  show ?thesis
  proof (cases "resp_peers s i")
    case None
    with assms(3) False i mem_ok_Free [OF m] show ?thesis by (auto simp: resp_route_def resp_lookup_def resp_push_def drop_hdr4_eff)
  next
    case (Some pe)
    have "rp_q pe < nextc (drop_hdr4 m s)"
      using peers_okD [OF assms(1), of i "rp_q pe"] Some by (simp add: resp_queues_def drop_hdr4_eff)
    moreover have "offer (rp_q pe) m (drop_hdr4 m s) = Ret s'"
      using assms(3) False i Some by (simp add: resp_route_def resp_lookup_def resp_push_def drop_hdr4_eff)
    ultimately show ?thesis using mem_ok_offer(1) [OF m] by blast
  qed
qed

lemma resp_receiver_mem:
  assumes "peers_ok (resp_queues s) (resv s) s" "\<not> cclosed (chans s (urq s))" "mem_ok (add_mset m F) s"
    and "resp_receiver pick (urq s) ep (Some m) s = Ret (c, s')"
  shows "mem_ok F s'"
proof -
  let ?s1 = "append_hdr m (be32 (GetID s ep)) s"
  obtain ok s2 where b: "backtrace_loop (resp_ttl ?s1) 0 m ?s1 = (ok, s2)" by fastforce
  have "mem_ok (add_mset m F) ?s1" "urq s < nextc ?s1" "\<not> cclosed (chans ?s1 (urq s))"
    using assms(1-3) by (auto simp: peers_ok_def resv_def append_hdr_eff mem_ok_msg)
  note take = mem_ok_take_request [OF this(1) b this(2,3)]
  show ?thesis
  proof (cases ok)
    case False
    with assms(4) b take(1) show ?thesis by (simp add: resp_receiver_def)
  next
    case True
    with assms(4) b take(2) show ?thesis
      by (fastforce simp: resp_receiver_def run_bind_Ret_iff split: if_splits)
  qed
qed

lemma resp_same_refs:
  "resp_fin s = Ret s' \<Longrightarrow> same_refs s s'" "resp_RemoveEndpoint ep s = Ret s' \<Longrightarrow> core_refs s s'"
  "op_Shutdown resp_ops ord s = Ret s' \<Longrightarrow> core_refs s s'"
  by (auto simp: resp_ops_def resp_fin_def w_Done_def run_bind_Ret_iff resp_RemoveEndpoint_def resp_Shutdown_def Let_def
        core_refs_def same_refs_def dest!: ch_close_core close_all_core split: if_splits option.splits)

lemma resp_hooks_tame:
  "op_SendHook resp_ops = Some hook \<or> op_RecvHook resp_ops = Some hook \<Longrightarrow>
   \<exists>b s'. hook m s = Ret (b, s') \<and> tame resp_queues (\<lambda>s. w_cnt (resp_w s)) s s'"
  by (auto simp: resp_ops_def resp_SendHook_def resp_RecvHook_def tame_def same_refs_def sock_eff set_hdr_def
        resp_queues_def Let_def)

lemma resp_set_tame: "tame resp_queues (\<lambda>s. w_cnt (resp_w s)) s (snd (op_SetOption resp_ops n v s))"
  by (cases v) (simp_all add: resp_ops_def resp_SetOption_def tame_def same_refs_def sock_eff resp_queues_def Let_def)

interpretation resp_mem: mem_sys resp_queues "\<lambda>_. 1" resp_AddEndpoint resp_RemoveEndpoint resp_ops
    "\<lambda>s. w_cnt (resp_w s)" resp_fin "\<lambda>_. resp_route" "\<lambda>_. resp_receiver" "\<lambda>_. Block"
  by unfold_locales
     ((rule resp_route_mem resp_receiver_mem resp_same_refs resp_hooks_tame resp_set_tame; assumption) |
      simp add: resp_receiver_def resp_AddEndpoint_def new_chan_def spawn_def Let_def)+

lemma resp_mem_start: "mem_inv resp_queues (\<lambda>s. w_cnt (resp_w s)) (mem_start (resp_start (socket0 x)))"
proof -
  have "mem_ok {#} (resp_NewProtocol (socket0 x))"
    by (subst mem_ok_same [of "socket0 x"]) (simp_all add: resp_NewProtocol_def same_refs_def)
  from mem_start_inv [OF resp_start_inv [of "socket0 x", unfolded resp_start_def resp_NewSocket_def Let_def] this]
  show ?thesis
    by (simp add: resp_start_def resp_NewSocket_def Let_def resp_ops_def resp_Init_def tame_def same_refs_def
        sock_eff spawn_def)
qed

end
