(* ===== verification/Req.thy ===== *)
theory Req
  imports Peer_Sys
begin

text \<open>
  protocol/req/req.go: the request side. The outstanding request is kept and sent again by
  the resender goroutine when the waker timer fires, until a reply with its identifier
  comes. The peers' senders compete for the messages of the send and the resend channel.
\<close>

section \<open>State\<close>

record reqEp =
  qe_ep :: pref
  qe_cq :: cref

text \<open>
  The waker is the duration it is armed for, and whether a tick waits in its channel (a
  timer that is stopped or reset after it fired leaves its tick there). \<open>req_once\<close> is the
  \<^verbatim>\<open>sync.Once\<close> that starts the resender.
\<close>

record req = socket +
  req_eps :: "u32 \<rightharpoonup> reqEp"
  req_resend :: cref
  req_raw :: bool
  req_retry :: dur
  req_nextid :: u32
  req_waker :: "dur option"
  req_tick :: bool
  req_w :: waiter
  req_once :: bool
  req_reqmsg :: "mref option"
  req_reqid :: u32

definition req_cqs :: "req \<Rightarrow> u32 \<rightharpoonup> cref" where
  "req_cqs s = map_option qe_cq \<circ> req_eps s"

section \<open>Operations\<close>

definition req_NewProtocol :: "req \<Rightarrow> req" where
  "req_NewProtocol s = s\<lparr>req_eps := Map.empty, req_raw := False, req_retry := 0, req_nextid := 0,
     req_waker := None, req_tick := False, req_w := \<lparr>w_cnt = 0\<rparr>, req_once := False,
     req_reqmsg := None, req_reqid := 0\<rparr>"

text \<open>\<open>now\<close> is \<^verbatim>\<open>uint32(time.Now().UnixNano())\<close>.\<close>

definition req_Init :: "u32 \<Rightarrow> req \<Rightarrow> req" where
  "req_Init now s =
     (let (q, s1) = new_chan 0 (s\<lparr>req_eps := Map.empty\<rparr>);
          s2 = s1\<lparr>req_resend := q, req_w := w_Init (req_w s1), req_nextid := now,
                  req_retry := 60 * 1000000000, req_waker := None\<rparr>
      in SetRecvError (Some ErrProtoState) s2)"

text \<open>Shutdown only waits.\<close>

definition req_Shutdown :: "u32 list \<Rightarrow> req \<Rightarrow> req run" where
  "req_Shutdown ord s = Ret s"

definition req_nextID :: "req \<Rightarrow> u32 \<times> req" where
  "req_nextID s = (req_nextid s OR 0x80000000, s\<lparr>req_nextid := req_nextid s + 1\<rparr>)"

definition req_fin :: "req \<Rightarrow> req run" where
  "req_fin s = run_bind (w_Done (req_w s)) (\<lambda>(w, _). Ret (s\<lparr>req_w := w\<rparr>))"

text \<open>\<^verbatim>\<open>if r.retry > 0 { r.waker.Reset(r.retry) } else { r.waker.Stop() }\<close>\<close>

definition req_rearm :: "req \<Rightarrow> req" where
  "req_rearm s = (if 0 < req_retry s then s\<lparr>req_waker := Some (req_retry s)\<rparr> else s\<lparr>req_waker := None\<rparr>)"

text \<open>The run-time's part: an armed waker fires.\<close>

definition req_fire :: "req \<Rightarrow> req run" where
  "req_fire s = (case req_waker s of None \<Rightarrow> Block | Some d \<Rightarrow> Ret (s\<lparr>req_waker := None, req_tick := True\<rparr>))"

text \<open>
  The resender: it waits for a tick, takes a reference to the outstanding request, sends
  it to the resend channel (which may block) and arms the waker again.
\<close>

datatype resender = RsWait | RsPush mref | RsGone

datatype rs_arm = RsTick | RsClose

definition req_resender_wait :: "rs_arm \<Rightarrow> req \<Rightarrow> (resender \<times> req) run" where
  "req_resender_wait pick s =
     (case go_select [(RsTick, req_tick s), (RsClose, closeq s)] None pick of
        None \<Rightarrow> Block
      | Some RsClose \<Rightarrow> run_bind (req_fin s) (\<lambda>s1. Ret (RsGone, s1))
      | Some RsTick \<Rightarrow>
          let s1 = s\<lparr>req_tick := False\<rparr>
          in (case req_reqmsg s1 of
                None \<Rightarrow> Ret (RsWait, s1)
              | Some m \<Rightarrow> Ret (RsPush m, Dup m s1)))"

definition req_resender_push :: "mref \<Rightarrow> req \<Rightarrow> (resender \<times> req) run" where
  "req_resender_push m s = run_bind (ch_send (req_resend s) m s) (\<lambda>s1. Ret (RsWait, req_rearm s1))"

text \<open>
  One round of \<^verbatim>\<open>receiver\<close>, after \<^verbatim>\<open>ep.RecvMsg()\<close> returned \<open>mo\<close>. The \<^verbatim>\<open>break\<close> in the
  close arm leaves the select only, so the loop goes on.
\<close>

definition req_receiver :: "up_arm \<Rightarrow> cref \<Rightarrow> mref option \<Rightarrow> req \<Rightarrow> (ctl \<times> req) run" where
  "req_receiver pick rq mo s =
     (case mo of
        None \<Rightarrow> Ret (Exit, s)
      | Some m \<Rightarrow>
          if length (body (msgs s m)) < 4 then Ret (Loop, Free m s)
          else run_bind (up_send pick rq m (move4 m s)) (\<lambda>(up, s1).
                 Ret (Loop, if up then s1 else Free m s1)))"

text \<open>
  A peer's sender: it takes a message from the resend or the send channel and hands it to
  the endpoint; on an error it gives the message to the resend channel (which may block)
  and leaves. A nil message would be dereferenced by the endpoint.
\<close>

datatype req_arm = QResend | QSend | QClose | QGone

datatype req_snd = SdLoop | SdPush mref | SdGone

definition req_sender_take ::
  "(mref \<Rightarrow> req \<Rightarrow> (err option \<times> req) run) \<Rightarrow> reqEp \<Rightarrow> req_arm \<Rightarrow> cref \<Rightarrow> req \<Rightarrow> (req_snd \<times> req) run" where
  "req_sender_take send pe pick sq s =
     (let serve = (\<lambda>(mo, s1). case mo of
              None \<Rightarrow> Panic
            | Some m \<Rightarrow> run_bind (send m s1) (\<lambda>(e, s2).
                Ret (if e \<noteq> None then SdPush m else SdLoop, s2)));
          leave = run_bind (req_fin s) (\<lambda>s1. Ret (SdGone, s1))
      in case go_select [(QResend, recv_ready (req_resend s) s), (QSend, recv_ready sq s),
                         (QClose, closeq s), (QGone, recv_ready (qe_cq pe) s)] None pick of
           None \<Rightarrow> Block
         | Some QResend \<Rightarrow> run_bind (ch_recv (req_resend s) s) serve
         | Some QSend \<Rightarrow> run_bind (ch_recv sq s) serve
         | Some QClose \<Rightarrow> leave
         | Some QGone \<Rightarrow> leave)"

definition req_sender_push :: "mref \<Rightarrow> req \<Rightarrow> (req_snd \<times> req) run" where
  "req_sender_push m s =
     run_bind (ch_send (req_resend s) m s) (\<lambda>s1. run_bind (req_fin s1) (\<lambda>s2. Ret (SdGone, s2)))"

definition req_AddEndpoint :: "pref \<Rightarrow> req \<Rightarrow> req" where
  "req_AddEndpoint ep s =
     (let s0 = (if req_once s then s
                else spawn GResender (s\<lparr>req_once := True, req_w := w_Add (req_w s)\<rparr>));
          (q, s1) = new_chan 0 s0;
          s2 = s1\<lparr>req_eps := (req_eps s1)(GetID s1 ep \<mapsto> \<lparr>qe_ep = ep, qe_cq = q\<rparr>)\<rparr>;
          s3 = spawn (GReceiver ep) s2
      in spawn (GPipeSender ep) (s3\<lparr>req_w := w_Add (req_w s3)\<rparr>))"

definition req_RemoveEndpoint :: "pref \<Rightarrow> req \<Rightarrow> req run" where
  "req_RemoveEndpoint ep s =
     (let i = GetID s ep;
          pe = req_eps s i;
          s1 = s\<lparr>req_eps := (req_eps s)(i := None)\<rparr>
      in case pe of None \<Rightarrow> Ret s1 | Some e \<Rightarrow> ch_close (qe_cq e) s1)"

definition req_SendHook :: "mref \<Rightarrow> req \<Rightarrow> (bool \<times> req) run" where
  "req_SendHook m s =
     (if req_raw s then Ret (True, s)
      else
        let (v, s1) = req_nextID s;
            s2 = s1\<lparr>req_reqid := v\<rparr>;
            s3 = append_hdr m (be32 v) s2;
            s4 = (Dup m s3)\<lparr>req_reqmsg := Some m\<rparr>
        in Ret (True, SetRecvError None (req_rearm s4)))"

definition req_RecvHook :: "mref \<Rightarrow> req \<Rightarrow> (bool \<times> req) run" where
  "req_RecvHook m s =
     (if req_raw s then Ret (True, s)
      else
        (case be_Uint32 (hdr_bytes (msgs s m)) of
           None \<Rightarrow> Ret (False, s)
         | Some v \<Rightarrow>
            (case req_reqmsg s of
               None \<Rightarrow> Ret (False, s)
             | Some r \<Rightarrow>
                 if v \<noteq> req_reqid s then Ret (False, s)
                 else
                   let s1 = s\<lparr>req_waker := None, req_reqmsg := None\<rparr>
                   in Ret (True, SetRecvError (Some ErrProtoState) (Free r s1)))))"

definition req_SetOption :: "string \<Rightarrow> goval \<Rightarrow> req \<Rightarrow> err option \<times> req" where
  "req_SetOption name v s =
     (if name = OptionRaw then
        (case v of
           VBool b \<Rightarrow>
             let s1 = s\<lparr>req_raw := b\<rparr>
             in if b then (None, SetRecvError None s1)
                else (None, SetRecvError (Some ErrProtoState) s1)
         | _ \<Rightarrow> (Some ErrBadValue, s\<lparr>req_raw := False\<rparr>))
      else if name = OptionRetryTime then
        (case v of
           VDur d \<Rightarrow> (None, s\<lparr>req_retry := d\<rparr>)
         | _ \<Rightarrow> (Some ErrBadValue, s\<lparr>req_retry := 0\<rparr>))
      else (Some ErrBadOption, s))"

definition req_GetOption :: "string \<Rightarrow> req \<Rightarrow> err + goval" where
  "req_GetOption name s =
     (if name = OptionRaw then Inr (VBool (req_raw s))
      else if name = OptionRetryTime then Inr (VDur (req_retry s))
      else Inl ErrBadOption)"

definition req_ops :: "u32 \<Rightarrow> req protocol_ops" where
  "req_ops now = \<lparr>op_Init = req_Init now, op_Shutdown = req_Shutdown,
     op_AddEndpoint = (\<lambda>ep s. Ret (req_AddEndpoint ep s)),
     op_RemoveEndpoint = req_RemoveEndpoint,
     op_Number = ProtoReq, op_Name = ''req'', op_PeerNumber = ProtoRep, op_PeerName = ''rep'',
     op_GetOption = req_GetOption, op_SetOption = req_SetOption,
     op_RecvHook = Some req_RecvHook, op_SendHook = Some req_SendHook\<rparr>"

definition req_NewSocket :: "u32 \<Rightarrow> req \<Rightarrow> req" where
  "req_NewSocket now s = newSocket (req_ops now) (req_NewProtocol s)"

section \<open>The contracts\<close>

interpretation req: protocol_impl "req_ops now" for now
  by unfold_locales
     (auto simp: req_ops_def req_SetOption_def req_GetOption_def core_options_def option_name
        sock_cfg_def sock_eff Let_def split: goval.splits if_splits)

lemmas req_peer_defs = req_cqs_def resv_def req_AddEndpoint_def req_RemoveEndpoint_def
  new_chan_def spawn_def GetID_def

interpretation req_tab: peer_table req_cqs resv "\<lambda>_. 0" req_AddEndpoint req_RemoveEndpoint
  by unfold_locales
     (auto simp: req_peer_defs ch_close_cases close_on_def Let_def fun_eq_iff split: option.splits)

section \<open>The hooks\<close>

lemma req_rearm_eq: "req_rearm s = s\<lparr>req_waker := (if 0 < req_retry s then Some (req_retry s) else None)\<rparr>"
  by (simp add: req_rearm_def)

lemma req_SendHook_cooked:
  assumes "\<not> req_raw s" "req_SendHook m s = Ret (b, s')"
  shows "b" and "req_reqid s' = mark_id (req_nextid s)" and "req_nextid s' = req_nextid s + 1"
    and "slice_bytes (hdr (msgs s' m)) = slice_bytes (hdr (msgs s m)) @ be32 (req_reqid s')"
    and "req_reqmsg s' = Some m" and "refcnt (msgs s' m) = refcnt (msgs s m) + 1"
    and "recverr s' = None" and "\<not> req_raw s'" and "req_retry s' = req_retry s"
    and "req_waker s' = (if 0 < req_retry s then Some (req_retry s) else None)"
    and "req_tick s' = req_tick s"
  using assms
  by (auto simp: req_SendHook_def req_nextID_def req_rearm_eq mark_id_def Let_def sock_eff
      append_hdr_eff Dup_def upd_msg_def)

lemma req_RecvHook_iff:
  assumes "\<not> req_raw s"
  shows "(\<exists>s'. req_RecvHook m s = Ret (True, s')) \<longleftrightarrow>
    req_reqmsg s \<noteq> None \<and> be_Uint32 (hdr_bytes (msgs s m)) = Some (req_reqid s)"
  using assms by (auto simp: req_RecvHook_def Let_def split: option.split)

lemma req_RecvHook_accept:
  assumes "\<not> req_raw s" "req_RecvHook m s = Ret (True, s')"
  shows "req_reqmsg s' = None" and "req_waker s' = None" and "recverr s' = Some ErrProtoState"
    and "\<not> req_raw s'" and "req_retry s' = req_retry s" and "req_tick s' = req_tick s"
    and "req_nextid s' = req_nextid s" and "req_reqid s' = req_reqid s"
  using assms by (auto simp: req_RecvHook_def Let_def sock_eff Free_eff split: option.splits if_splits)

lemma req_RecvHook_reject:
  assumes "\<not> req_raw s"
    "req_reqmsg s = None \<or> be_Uint32 (hdr_bytes (msgs s m)) \<noteq> Some (req_reqid s)"
  shows "req_RecvHook m s = Ret (False, s)"
  using assms by (auto simp: req_RecvHook_def split: option.split)

text \<open>A reply is accepted once: the second reply to the same request is rejected.\<close>

lemma req_RecvHook_once:
  assumes "\<not> req_raw s" "req_RecvHook m s = Ret (True, s')"
  shows "req_RecvHook m' s' = Ret (False, s')"
  using req_RecvHook_accept [OF assms] by (intro req_RecvHook_reject) auto

section \<open>A reply to an abandoned request\<close>

text \<open>\<open>k\<close> further requests are sent.\<close>

fun req_sends :: "mref list \<Rightarrow> req \<Rightarrow> req run" where
  "req_sends [] s = Ret s"
| "req_sends (m # ms) s = run_bind (req_SendHook m s) (\<lambda>(b, s1). req_sends ms s1)"

lemma req_SendHook_Ret: "\<exists>b s'. req_SendHook m s = Ret (b, s')"
  by (auto simp: req_SendHook_def req_nextID_def Let_def)

lemma req_sends_id:
  "\<not> req_raw s \<Longrightarrow> \<exists>s'. req_sends ms s = Ret s' \<and> \<not> req_raw s' \<and>
     req_nextid s' = req_nextid s + of_nat (length ms) \<and>
     (ms \<noteq> [] \<longrightarrow> req_reqid s' = mark_id (req_nextid s + of_nat (length ms - 1)))"
proof (induction ms arbitrary: s)
  case Nil
  then show ?case by simp
next
  case (Cons m ms)
  obtain b s1 where s1: "req_SendHook m s = Ret (b, s1)" using req_SendHook_Ret by blast
  note sh = req_SendHook_cooked [OF Cons.prems s1]
  from Cons.IH [OF sh(8)] obtain s' where s': "req_sends ms s1 = Ret s'" "\<not> req_raw s'"
      "req_nextid s' = req_nextid s1 + of_nat (length ms)"
      "ms \<noteq> [] \<longrightarrow> req_reqid s' = mark_id (req_nextid s1 + of_nat (length ms - 1))"
    by blast
  have "req_reqid s' = mark_id (req_nextid s + of_nat (length ms))"
  proof (cases ms)
    case Nil
    with s'(1) sh(2) show ?thesis by simp
  next
    case (Cons a as)
    with s'(4) sh(3) show ?thesis by (simp add: ac_simps)
  qed
  moreover have "req_nextid s' = req_nextid s + of_nat (length (m # ms))"
    using s'(3) sh(3) by (simp add: ac_simps)
  moreover have "req_sends (m # ms) s = Ret s'" using s1 s'(1) by simp
  ultimately show ?case using s'(2) by simp
qed

section \<open>Retrying\<close>

text \<open>The part of the system that keeps the outstanding request alive.\<close>

datatype req_event =
    QSent mref
  | QReply mref
  | QFire
  | QWait rs_arm
  | QPush

fun req_step :: "req_event \<Rightarrow> resender \<times> req \<Rightarrow> (resender \<times> req) run" where
  "req_step (QSent m) (ph, s) = run_bind (req_SendHook m s) (\<lambda>(b, s1). Ret (ph, s1))"
| "req_step (QReply m) (ph, s) = run_bind (req_RecvHook m s) (\<lambda>(b, s1). Ret (ph, s1))"
| "req_step QFire (ph, s) = run_bind (req_fire s) (\<lambda>s1. Ret (ph, s1))"
| "req_step (QWait pick) (RsWait, s) = req_resender_wait pick s"
| "req_step QPush (RsPush m, s) = req_resender_push m s"
| "req_step _ (ph, s) = Block"

text \<open>
  While a request is outstanding, the retry time is positive and the socket is open, there
  is always a reason for it to be sent again: the waker is armed, its tick is waiting, or
  the resender is about to send. And what the resender is about to send is a request.
\<close>

definition req_alive :: "resender \<times> req \<Rightarrow> bool" where
  "req_alive c \<longleftrightarrow> (case c of (ph, s) \<Rightarrow>
     \<not> req_raw s \<and> \<not> closeq s \<and> 0 < req_retry s \<and> \<not> cclosed (chans s (req_resend s)) \<and> ph \<noteq> RsGone \<and>
     (req_reqmsg s \<noteq> None \<longrightarrow> req_waker s \<noteq> None \<or> req_tick s \<or> (\<exists>m. ph = RsPush m)))"

lemma req_fields_quiet:
  assumes "req_SendHook m s = Ret (b, s') \<or> req_RecvHook m s = Ret (b, s')"
  shows "closeq s' = closeq s \<and> req_raw s' = req_raw s \<and> req_retry s' = req_retry s \<and>
    chans s' = chans s \<and> req_resend s' = req_resend s"
proof (cases "req_SendHook m s = Ret (b, s')")
  case True
  then show ?thesis
    by (auto simp: req_SendHook_def req_nextID_def req_rearm_eq Let_def sock_eff msg_eff split: if_splits)
next
  case False
  with assms have "req_RecvHook m s = Ret (b, s')" by blast
  then show ?thesis
    by (auto simp: req_RecvHook_def Let_def sock_eff msg_eff split: if_splits option.splits)
qed

lemma req_alive_send:
  assumes "req_alive (ph, s)"
  shows "run_keeps req_alive (req_step (QSent m) (ph, s))"
proof -
  obtain b s1 where s1: "req_SendHook m s = Ret (b, s1)" using req_SendHook_Ret by blast
  have "\<not> req_raw s" "0 < req_retry s" using assms by (simp_all add: req_alive_def)
  with req_SendHook_cooked [OF _ s1] req_fields_quiet [of m s b s1] s1 assms
  show ?thesis by (simp add: req_alive_def)
qed

lemma req_alive_reply:
  assumes "req_alive (ph, s)"
  shows "run_keeps req_alive (req_step (QReply m) (ph, s))"
proof (cases "\<exists>s'. req_RecvHook m s = Ret (True, s')")
  case True
  then obtain s' where s': "req_RecvHook m s = Ret (True, s')" by blast
  have "\<not> req_raw s" using assms by (simp add: req_alive_def)
  with req_RecvHook_accept [OF _ s'] req_fields_quiet [of m s True s'] s' assms
  show ?thesis by (simp add: req_alive_def)
next
  case False
  have "\<not> req_raw s" using assms by (simp add: req_alive_def)
  with False req_RecvHook_iff req_RecvHook_reject have "req_RecvHook m s = Ret (False, s)" by blast
  with assms show ?thesis by simp
qed

lemma req_alive_step:
  assumes "req_alive c"
  shows "run_keeps req_alive (req_step e c)"
proof -
  obtain ph s where c: "c = (ph, s)" by fastforce
  show ?thesis
  proof (cases e)
    case (QSent m)
    show ?thesis unfolding c QSent using assms c by (intro req_alive_send) simp
  next
    case (QReply m)
    show ?thesis unfolding c QReply using assms c by (intro req_alive_reply) simp
  next
    case QFire
    then show ?thesis
      using assms c by (cases "req_waker s") (auto simp: req_fire_def req_alive_def)
  next
    case (QWait pick)
    then show ?thesis
      using assms c
      by (cases ph; cases "req_reqmsg s"; cases pick)
         (auto simp: req_resender_wait_def go_select_def req_alive_def Let_def Dup_def upd_msg_def)
  next
    case QPush
    then show ?thesis
      using assms c
      by (cases ph) (auto simp: req_resender_push_def req_rearm_def ch_send_cases req_alive_def push_on_def chan_push_def)
  qed
qed

text \<open>The request that goes out again is the outstanding one, with a reference of its own.\<close>

lemma req_resender_wait_push:
  assumes "req_resender_wait pick s = Ret (RsPush m, s')"
  shows "req_reqmsg s = Some m \<and> req_reqmsg s' = Some m \<and> refcnt (msgs s' m) = refcnt (msgs s m) + 1 \<and>
    hdr (msgs s' m) = hdr (msgs s m) \<and> body (msgs s' m) = body (msgs s m)"
  using assms
  by (auto simp: req_resender_wait_def Let_def Dup_def upd_msg_def run_bind_Ret_iff
      split: option.splits rs_arm.splits)

lemma req_resender_idle:
  "req_reqmsg s = None \<Longrightarrow> req_resender_wait RsTick s = Ret (ph, s') \<Longrightarrow> req_tick s \<Longrightarrow>
   ph = RsWait \<and> s' = s\<lparr>req_tick := False\<rparr>"
  by (simp add: req_resender_wait_def go_select_def)

section \<open>Receiving\<close>

text \<open>A reply's identifier moves from the body to the header.\<close>

lemma req_receiver_up:
  assumes "hdr (msgs s r) = Some h" "body (msgs s r) = be32 v @ payload"
    and "\<not> cclosed (chans s rq)" "chan_room (chans s rq)" "\<not> closeq s"
  shows "req_receiver pick rq (Some r) s = Ret (Loop, push_on rq r
    (s\<lparr>msgs := (msgs s)(r := (msgs s r)\<lparr>hdr := Some (h @ be32 v), body := payload\<rparr>)\<rparr>))"
  using assms by (simp add: req_receiver_def up_send_cases move4_eff)

lemma req_receiver_short:
  "length (body (msgs s r)) < 4 \<Longrightarrow> req_receiver pick rq (Some r) s = Ret (Loop, Free r s)"
  by (simp add: req_receiver_def)

end
