(* ===== verification/Sub.thy ===== *)
theory Sub
  imports Peer_Sys
begin

text \<open>
  protocol/sub/sub.go: messages are passed up when their body starts with one of the
  subscribed topics. The list of subscriptions is kept without duplicates and behaves as a
  set, although unsubscribing moves the last entry into the gap.
\<close>

section \<open>State\<close>

record sub = socket +
  subs :: "bytes list"
  sub_raw :: bool

section \<open>Operations\<close>

definition sub_NewProtocol :: "sub \<Rightarrow> sub" where
  "sub_NewProtocol s = s\<lparr>subs := [], sub_raw := False\<rparr>"

definition sub_Init :: "sub \<Rightarrow> sub" where
  "sub_Init s = SetSendError (Some ErrProtoOp) (s\<lparr>subs := []\<rparr>)"

definition sub_Shutdown :: "u32 list \<Rightarrow> sub \<Rightarrow> sub run" where
  "sub_Shutdown ord s = Ret s"

definition HasPrefix :: "bytes \<Rightarrow> bytes \<Rightarrow> bool" where
  "HasPrefix s pre \<longleftrightarrow> length pre \<le> length s \<and> take (length pre) s = pre"

fun sub_matched :: "bytes list \<Rightarrow> bytes \<Rightarrow> bool" where
  "sub_matched [] b = False"
| "sub_matched (t # ts) b = (if HasPrefix b t then True else sub_matched ts b)"

text \<open>One round of \<^verbatim>\<open>receiver\<close>, after \<^verbatim>\<open>ep.RecvMsg()\<close> returned \<open>mo\<close>.\<close>

definition sub_receiver :: "up_arm \<Rightarrow> cref \<Rightarrow> mref option \<Rightarrow> sub \<Rightarrow> (ctl \<times> sub) run" where
  "sub_receiver pick rq mo s =
     (case mo of
        None \<Rightarrow> Ret (Exit, s)
      | Some m \<Rightarrow>
          if \<not> sub_matched (subs s) (body (msgs s m)) then Ret (Loop, Free m s)
          else run_bind (up_try pick rq m s) (\<lambda>(up, s1).
                 Ret (case up of
                        Some True \<Rightarrow> (Loop, s1)
                      | Some False \<Rightarrow> (Exit, Free m s1)
                      | None \<Rightarrow> (Loop, Free m s1))))"

definition sub_AddEndpoint :: "pref \<Rightarrow> sub \<Rightarrow> sub run" where
  "sub_AddEndpoint ep s = Ret (spawn (GReceiver ep) s)"

definition sub_RemoveEndpoint :: "pref \<Rightarrow> sub \<Rightarrow> sub run" where
  "sub_RemoveEndpoint ep s = Ret s"

text \<open>The loops over the list of subscriptions.\<close>

fun sub_present :: "bytes list \<Rightarrow> bytes \<Rightarrow> bool" where
  "sub_present [] vb = False"
| "sub_present (t # ts) vb = (if t = vb then True else sub_present ts vb)"

fun sub_index :: "bytes list \<Rightarrow> bytes \<Rightarrow> nat \<Rightarrow> nat option" where
  "sub_index [] vb i = None"
| "sub_index (t # ts) vb i = (if t = vb then Some i else sub_index ts vb (Suc i))"

text \<open>
  A Go string converts to the bytes of its UTF-8 encoding; here a string is already the
  list of its bytes, as characters.
\<close>

definition string_bytes :: "string \<Rightarrow> bytes" where
  "string_bytes = map (\<lambda>c. of_nat (of_char c))"

definition sub_SetOption :: "string \<Rightarrow> goval \<Rightarrow> sub \<Rightarrow> err option \<times> sub" where
  "sub_SetOption name v s =
     (if name = OptionRaw then
        (case v of VBool b \<Rightarrow> (None, s\<lparr>sub_raw := b\<rparr>) | _ \<Rightarrow> (Some ErrBadValue, s\<lparr>sub_raw := False\<rparr>))
      else if name \<noteq> OptionSubscribe \<and> name \<noteq> OptionUnsubscribe then (Some ErrBadOption, s)
      else
        (case (case v of VBytes b \<Rightarrow> Some b | VStr t \<Rightarrow> Some (string_bytes t) | _ \<Rightarrow> None) of
           None \<Rightarrow> (Some ErrBadValue, s)
         | Some vb \<Rightarrow>
             if name = OptionSubscribe then
               (if sub_present (subs s) vb then (None, s) else (None, s\<lparr>subs := subs s @ [vb]\<rparr>))
             else
               (case sub_index (subs s) vb 0 of
                  None \<Rightarrow> (Some ErrBadValue, s)
                | Some i \<Rightarrow>
                    let moved = (subs s)[i := subs s ! (length (subs s) - 1)]
                    in (None, s\<lparr>subs := take (length moved - 1) moved\<rparr>))))"

definition sub_GetOption :: "string \<Rightarrow> sub \<Rightarrow> err + goval" where
  "sub_GetOption name s = (if name = OptionRaw then Inr (VBool (sub_raw s)) else Inl ErrBadOption)"

definition sub_ops :: "sub protocol_ops" where
  "sub_ops = \<lparr>op_Init = sub_Init, op_Shutdown = sub_Shutdown,
     op_AddEndpoint = sub_AddEndpoint, op_RemoveEndpoint = sub_RemoveEndpoint,
     op_Number = ProtoSub, op_Name = ''sub'', op_PeerNumber = ProtoPub, op_PeerName = ''pub'',
     op_GetOption = sub_GetOption, op_SetOption = sub_SetOption,
     op_RecvHook = None, op_SendHook = None\<rparr>"

definition sub_NewSocket :: "sub \<Rightarrow> sub" where
  "sub_NewSocket s = newSocket sub_ops (sub_NewProtocol s)"

section \<open>The contract\<close>

interpretation sub: protocol_impl sub_ops
  by unfold_locales
     (auto simp: sub_ops_def sub_SetOption_def sub_GetOption_def core_options_def option_name
        sock_cfg_def sock_eff Let_def split: goval.splits option.splits if_splits)

section \<open>Subscriptions as a set\<close>

lemma HasPrefix_iff: "HasPrefix s pre \<longleftrightarrow> (\<exists>rest. s = pre @ rest)"
  by (auto simp: HasPrefix_def) (metis append_take_drop_id)

lemma sub_matched_iff: "sub_matched ts b \<longleftrightarrow> (\<exists>t \<in> set ts. HasPrefix b t)"
  by (induction ts) auto

lemma sub_present_iff: "sub_present ts vb \<longleftrightarrow> vb \<in> set ts"
  by (induction ts) auto

lemma sub_index_Some:
  "sub_index ts vb k = Some i \<Longrightarrow> k \<le> i \<and> i - k < length ts \<and> ts ! (i - k) = vb"
proof (induction ts arbitrary: k)
  case Nil
  then show ?case by simp
next
  case (Cons t ts)
  show ?case
  proof (cases "t = vb")
    case True
    with Cons.prems show ?thesis by simp
  next
    case False
    with Cons have "Suc k \<le> i \<and> i - Suc k < length ts \<and> ts ! (i - Suc k) = vb" by simp
    then obtain d where "i = Suc k + d" "d < length ts" "ts ! d = vb"
      by (metis add_diff_cancel_left' le_add_diff_inverse)
    then show ?thesis by simp
  qed
qed

lemma sub_index_None: "sub_index ts vb k = None \<longleftrightarrow> vb \<notin> set ts"
  by (induction ts arbitrary: k) auto

text \<open>The swap with the last entry removes exactly the topic.\<close>

lemma swap_remove_butlast:
  assumes "i < length ts"
  shows "take (length ts - 1) (ts[i := ts ! (length ts - 1)]) =
    (if i = length ts - 1 then butlast ts else (butlast ts)[i := last ts])"
  using assms
  by (cases ts rule: rev_cases) (auto simp: list_update_append nth_append)

lemma set_swap_remove:
  assumes "distinct ts" "i < length ts"
  shows "set (take (length ts - 1) (ts[i := ts ! (length ts - 1)])) = set ts - {ts ! i}"
    and "distinct (take (length ts - 1) (ts[i := ts ! (length ts - 1)]))"
proof -
  obtain us u where ts: "ts = us @ [u]" using assms(2) by (cases ts rule: rev_cases) auto
  have d: "distinct us" "u \<notin> set us" using assms(1) ts by auto
  show "set (take (length ts - 1) (ts[i := ts ! (length ts - 1)])) = set ts - {ts ! i}"
  proof (cases "i = length us")
    case True
    with ts d show ?thesis by (simp add: list_update_append)
  next
    case False
    with assms(2) ts have i: "i < length us" by simp
    have "set (us[i := u]) = insert u (set us - {us ! i})"
      using d(1) i by (simp add: set_update_distinct)
    with i d ts show ?thesis by (auto simp: list_update_append nth_append)
  qed
  show "distinct (take (length ts - 1) (ts[i := ts ! (length ts - 1)]))"
  proof (cases "i = length us")
    case True
    with ts d show ?thesis by (simp add: list_update_append)
  next
    case False
    with assms(2) ts d show ?thesis by (simp add: list_update_append distinct_list_update)
  qed
qed

lemma sub_Subscribe:
  assumes "distinct (subs s)"
  shows "\<exists>s'. sub_SetOption OptionSubscribe (VBytes vb) s = (None, s') \<and> distinct (subs s') \<and>
    set (subs s') = insert vb (set (subs s))"
  using assms by (auto simp: sub_SetOption_def option_name sub_present_iff)

lemma sub_Unsubscribe:
  assumes "distinct (subs s)" "vb \<in> set (subs s)"
  shows "\<exists>s'. sub_SetOption OptionUnsubscribe (VBytes vb) s = (None, s') \<and> distinct (subs s') \<and>
    set (subs s') = set (subs s) - {vb}"
proof -
  from assms(2) obtain i where i: "sub_index (subs s) vb 0 = Some i"
    using sub_index_None [of "subs s" vb 0] by auto
  from sub_index_Some [OF i] have "i < length (subs s)" "subs s ! i = vb" by simp_all
  with set_swap_remove [OF assms(1)] i show ?thesis
    by (auto simp: sub_SetOption_def option_name Let_def)
qed

lemma sub_Unsubscribe_absent:
  "vb \<notin> set (subs s) \<Longrightarrow> sub_SetOption OptionUnsubscribe (VBytes vb) s = (Some ErrBadValue, s)"
  using sub_index_None [of "subs s" vb 0] by (simp add: sub_SetOption_def option_name)

definition sub_topic :: "goval \<Rightarrow> bytes option" where
  "sub_topic v = (case v of VBytes b \<Rightarrow> Some b | VStr t \<Rightarrow> Some (string_bytes t) | _ \<Rightarrow> None)"

lemma sub_SetOption_subs:
  "subs (snd (sub_SetOption name v s)) = subs s \<or>
   (\<exists>vb. vb \<notin> set (subs s) \<and> subs (snd (sub_SetOption name v s)) = subs s @ [vb]) \<or>
   (\<exists>i < length (subs s). subs (snd (sub_SetOption name v s)) =
      take (length (subs s) - 1) ((subs s)[i := subs s ! (length (subs s) - 1)]))"
proof (cases "name = OptionSubscribe \<or> name = OptionUnsubscribe")
  case False
  then show ?thesis by (auto simp: sub_SetOption_def split: goval.split)
next
  case True
  show ?thesis
  proof (cases "sub_topic v")
    case None
    with True show ?thesis by (auto simp: sub_SetOption_def sub_topic_def option_name split: goval.splits)
  next
    case (Some vb)
    note topic = Some [unfolded sub_topic_def]
    show ?thesis
    proof (cases "name = OptionSubscribe")
      case True
      with topic show ?thesis by (simp add: sub_SetOption_def sub_present_iff option_name)
    next
      case False
      with True have name: "name = OptionUnsubscribe" by simp
      show ?thesis
      proof (cases "sub_index (subs s) vb 0")
        case None
        with topic name show ?thesis by (simp add: sub_SetOption_def option_name)
      next
        case (Some i)
        with sub_index_Some [OF Some] topic name show ?thesis
          by (auto simp: sub_SetOption_def option_name Let_def)
      qed
    qed
  qed
qed

lemma sub_distinct: "distinct (subs s) \<Longrightarrow> distinct (subs (snd (sub_SetOption name v s)))"
  using sub_SetOption_subs [of name v s] set_swap_remove(2) [of "subs s"] by auto

text \<open>
  A history of subscriptions: what the list holds against what a set would hold. A topic
  that is not subscribed cannot be removed, and nothing happens.
\<close>

datatype sub_op = Subscribe bytes | Unsubscribe bytes

fun sub_do :: "sub_op \<Rightarrow> sub \<Rightarrow> sub" where
  "sub_do (Subscribe t) s = snd (sub_SetOption OptionSubscribe (VBytes t) s)"
| "sub_do (Unsubscribe t) s = snd (sub_SetOption OptionUnsubscribe (VBytes t) s)"

fun topics_do :: "sub_op \<Rightarrow> bytes set \<Rightarrow> bytes set" where
  "topics_do (Subscribe t) A = insert t A"
| "topics_do (Unsubscribe t) A = A - {t}"

lemma sub_do_refines:
  assumes "distinct (subs s)"
  shows "distinct (subs (sub_do e s)) \<and> set (subs (sub_do e s)) = topics_do e (set (subs s))"
proof (cases e)
  case (Subscribe t)
  obtain s' where "sub_SetOption OptionSubscribe (VBytes t) s = (None, s')" "distinct (subs s')"
    "set (subs s') = insert t (set (subs s))"
    using sub_Subscribe [OF assms, of t] by blast
  with Subscribe show ?thesis by simp
next
  case (Unsubscribe t)
  show ?thesis
  proof (cases "t \<in> set (subs s)")
    case True
    obtain s' where "sub_SetOption OptionUnsubscribe (VBytes t) s = (None, s')" "distinct (subs s')"
      "set (subs s') = set (subs s) - {t}"
      using sub_Unsubscribe [OF assms True] by blast
    with Unsubscribe show ?thesis by simp
  next
    case False
    with sub_Unsubscribe_absent [OF False] assms Unsubscribe show ?thesis by simp
  qed
qed

lemma sub_history_refines:
  "distinct (subs s) \<Longrightarrow> distinct (subs (fold sub_do es s)) \<and>
     set (subs (fold sub_do es s)) = fold topics_do es (set (subs s))"
proof (induction es arbitrary: s)
  case Nil
  then show ?case by simp
next
  case (Cons e es)
  from sub_do_refines [OF Cons.prems, of e] Cons.IH [of "sub_do e s"] show ?case by simp
qed

section \<open>Filtering\<close>

lemma sub_receiver_filter:
  assumes "\<not> cclosed (chans s rq)" "chan_room (chans s rq)" "\<not> closeq s"
  shows "sub_receiver pick rq (Some m) s = Ret (Loop,
    if \<exists>t \<in> set (subs s). HasPrefix (body (msgs s m)) t then push_on rq m s else Free m s)"
  using assms by (simp add: sub_receiver_def sub_matched_iff up_try_cases)

lemma sub_receiver_quiet:
  "\<not> cclosed (chans s rq) \<Longrightarrow> \<exists>c s'. sub_receiver pick rq mo s = Ret (c, s') \<and> quiet s s'"
  by (cases mo) (auto simp: sub_receiver_def up_try_cases)

end
