(* ===== verification/Direct.thy ===== *)
theory Direct
  imports Peer_Sys
begin

text \<open>
  The goroutines of the protocols without queues of their own (push, pull, pair): a sender
  for each peer that takes messages straight from the socket's send channel, and a receiver
  that passes everything up.
\<close>

section \<open>The two loops\<close>

datatype direct_arm = DMsg | DGone | DClose

text \<open>
  One round of a peer's sender; \<open>cq\<close> is closed when the peer goes away, \<open>sq\<close> is the send
  channel the goroutine holds, \<open>fin\<close> its deferred \<^verbatim>\<open>w.Done()\<close> and \<open>send\<close> the endpoint's
  \<^verbatim>\<open>SendMsg\<close>.
\<close>

definition direct_sender ::
  "('a socket_scheme \<Rightarrow> 'a socket_scheme run) \<Rightarrow>
   (mref \<Rightarrow> 'a socket_scheme \<Rightarrow> (err option \<times> 'a socket_scheme) run) \<Rightarrow>
   cref \<Rightarrow> direct_arm \<Rightarrow> cref \<Rightarrow> 'a socket_scheme \<Rightarrow> ((ctl \<times> cref) \<times> 'a socket_scheme) run" where
  "direct_sender fin send cq pick sq s =
     (let leave = (\<lambda>t. run_bind (fin t) (\<lambda>t'. Ret ((Exit, sq), t')))
      in case go_select [(DMsg, recv_ready sq s), (DGone, recv_ready cq s), (DClose, closeq s)] None pick of
           None \<Rightarrow> Block
         | Some DGone \<Rightarrow> leave s
         | Some DClose \<Rightarrow> leave s
         | Some DMsg \<Rightarrow>
             run_bind (ch_recv sq s) (\<lambda>(m, s1).
               case m of
                 None \<Rightarrow> Ret ((Loop, SendChannel s1), s1)
               | Some r \<Rightarrow>
                   run_bind (send r s1) (\<lambda>(e, s2).
                     if e \<noteq> None then leave (Free r s2) else Ret ((Loop, sq), s2))))"

text \<open>One round of a receiver that sends everything up.\<close>

definition direct_receiver ::
  "up_arm \<Rightarrow> cref \<Rightarrow> mref option \<Rightarrow> 'a socket_scheme \<Rightarrow> (ctl \<times> 'a socket_scheme) run" where
  "direct_receiver pick rq mo s =
     (case mo of
        None \<Rightarrow> Ret (Exit, s)
      | Some m \<Rightarrow> run_bind (up_send pick rq m s) (\<lambda>(up, s1). Ret (if up then Loop else Exit, s1)))"

section \<open>What they do\<close>

text \<open>
  A message that is taken from the send channel is handed to this peer's endpoint and to no
  other: each message goes to exactly one peer.
\<close>

lemma direct_arm_ready:
  assumes "go_select [(DMsg, a), (DGone, b), (DClose, c)] None pick = Some d"
  shows "case d of DMsg \<Rightarrow> a | DGone \<Rightarrow> b | DClose \<Rightarrow> c"
  using go_select_ready [OF assms] by (cases d) auto

lemma direct_sender_cases:
  assumes "direct_sender fin send cq pick sq s = Ret ((c, sq'), s')"
  shows "(\<exists>x xs e s2. cbuf (chans s sq) = x # xs \<and> send x (pop_on sq s) = Ret (e, s2) \<and>
            (if e = None then c = Loop \<and> sq' = sq \<and> s' = s2 else c = Exit \<and> fin (Free x s2) = Ret s')) \<or>
         (cbuf (chans s sq) = [] \<and> cclosed (chans s sq) \<and> c = Loop \<and> sq' = uwq s \<and> s' = s) \<or>
         (c = Exit \<and> (closeq s \<or> recv_ready cq s) \<and> fin s = Ret s')"
proof -
  from assms obtain d
    where d: "go_select [(DMsg, recv_ready sq s), (DGone, recv_ready cq s), (DClose, closeq s)] None pick = Some d"
    by (auto simp: direct_sender_def Let_def split: option.splits)
  note rdy = direct_arm_ready [OF d]
  show ?thesis
  proof (cases d)
    case DMsg
    show ?thesis
    proof (cases "cbuf (chans s sq)")
      case Nil
      with assms d DMsg rdy show ?thesis
        by (auto simp: direct_sender_def ch_recv_cases recv_ready_iff SendChannel_def)
    next
      case (Cons x xs)
      from assms d DMsg Cons obtain e s2 where "send x (pop_on sq s) = Ret (e, s2)"
          "(if e \<noteq> None then run_bind (fin (Free x s2)) (\<lambda>t'. Ret ((Exit, sq), t'))
            else Ret ((Loop, sq), s2)) = Ret ((c, sq'), s')"
        by (auto simp: direct_sender_def ch_recv_cases run_bind_Ret_iff)
      with Cons show ?thesis by (auto simp: run_bind_Ret_iff split: if_splits)
    qed
  qed (use assms d rdy in \<open>auto simp: direct_sender_def run_bind_Ret_iff\<close>)
qed

lemma direct_receiver_up:
  assumes "\<not> cclosed (chans s rq)" "chan_room (chans s rq)" "\<not> closeq s"
  shows "direct_receiver pick rq (Some m) s = Ret (Loop, push_on rq m s)"
  using assms by (simp add: direct_receiver_def up_send_cases)

lemma direct_receiver_quiet:
  "\<not> cclosed (chans s rq) \<Longrightarrow> direct_receiver pick rq mo s \<noteq> Panic \<and>
   (\<forall>c s'. direct_receiver pick rq mo s = Ret (c, s') \<longrightarrow> quiet s s')"
  by (cases mo) (auto simp: direct_receiver_def up_send_cases)

end
