(* ===== verification/Push.thy ===== *)
theory Push
  imports Direct
begin

text \<open>
  protocol/push/push.go: the peers' senders compete for the messages of one send channel,
  so the load is spread over the peers that are ready.
\<close>

section \<open>State and operations\<close>

record pushEp =
  he_ep :: pref
  he_cq :: cref

record push = socket +
  push_raw :: bool
  push_w :: waiter
  push_eps :: "u32 \<rightharpoonup> pushEp"

definition push_cqs :: "push \<Rightarrow> u32 \<rightharpoonup> cref" where
  "push_cqs s = map_option he_cq \<circ> push_eps s"

definition push_NewProtocol :: "push \<Rightarrow> push" where
  "push_NewProtocol s = s\<lparr>push_raw := False, push_w := \<lparr>w_cnt = 0\<rparr>, push_eps := Map.empty\<rparr>"

definition push_Init :: "push \<Rightarrow> push" where
  "push_Init s =
     (SetRecvError (Some ErrProtoOp) (s\<lparr>push_w := w_Init (push_w s)\<rparr>))\<lparr>push_eps := Map.empty\<rparr>"

text \<open>Shutdown only waits.\<close>

definition push_Shutdown :: "u32 list \<Rightarrow> push \<Rightarrow> push run" where
  "push_Shutdown ord s = Ret s"

definition push_fin :: "push \<Rightarrow> push run" where
  "push_fin s = run_bind (w_Done (push_w s)) (\<lambda>(w, _). Ret (s\<lparr>push_w := w\<rparr>))"

definition push_sender ::
  "(mref \<Rightarrow> push \<Rightarrow> (err option \<times> push) run) \<Rightarrow> pushEp \<Rightarrow> direct_arm \<Rightarrow> cref \<Rightarrow> push \<Rightarrow>
   ((ctl \<times> cref) \<times> push) run" where
  "push_sender send ep = direct_sender push_fin send (he_cq ep)"

definition push_AddEndpoint :: "pref \<Rightarrow> push \<Rightarrow> push" where
  "push_AddEndpoint ep s =
     (let (q, s1) = new_chan 0 s;
          s2 = s1\<lparr>push_eps := (push_eps s1)(GetID s1 ep \<mapsto> \<lparr>he_ep = ep, he_cq = q\<rparr>)\<rparr>;
          s3 = s2\<lparr>push_w := w_Add (push_w s2)\<rparr>
      in spawn (GNullRecv ep) (spawn (GPipeSender ep) s3))"

definition push_RemoveEndpoint :: "pref \<Rightarrow> push \<Rightarrow> push run" where
  "push_RemoveEndpoint ep s =
     (let i = GetID s ep;
          pe = push_eps s i;
          s1 = s\<lparr>push_eps := (push_eps s)(i := None)\<rparr>
      in case pe of None \<Rightarrow> Ret s1 | Some e \<Rightarrow> ch_close (he_cq e) s1)"

definition push_SetOption :: "string \<Rightarrow> goval \<Rightarrow> push \<Rightarrow> err option \<times> push" where
  "push_SetOption name v s =
     (if name = OptionRaw then
        (case v of VBool b \<Rightarrow> (None, s\<lparr>push_raw := b\<rparr>) | _ \<Rightarrow> (Some ErrBadValue, s\<lparr>push_raw := False\<rparr>))
      else (Some ErrBadOption, s))"

definition push_GetOption :: "string \<Rightarrow> push \<Rightarrow> err + goval" where
  "push_GetOption name s = (if name = OptionRaw then Inr (VBool (push_raw s)) else Inl ErrBadOption)"

definition push_ops :: "push protocol_ops" where
  "push_ops = \<lparr>op_Init = push_Init, op_Shutdown = push_Shutdown,
     op_AddEndpoint = (\<lambda>ep s. Ret (push_AddEndpoint ep s)),
     op_RemoveEndpoint = push_RemoveEndpoint,
     op_Number = ProtoPush, op_Name = ''push'', op_PeerNumber = ProtoPull, op_PeerName = ''pull'',
     op_GetOption = push_GetOption, op_SetOption = push_SetOption,
     op_RecvHook = None, op_SendHook = None\<rparr>"

definition push_NewSocket :: "push \<Rightarrow> push" where
  "push_NewSocket s = newSocket push_ops (push_NewProtocol s)"

section \<open>The contracts\<close>

interpretation push: protocol_impl push_ops
  by unfold_locales
     (auto simp: push_ops_def push_SetOption_def push_GetOption_def core_options_def option_name
        sock_cfg_def sock_eff Let_def split: goval.splits if_splits)

lemmas push_peer_defs = push_cqs_def resv_def push_AddEndpoint_def push_RemoveEndpoint_def
  new_chan_def spawn_def GetID_def

interpretation push_tab: peer_table push_cqs resv "\<lambda>_. 0" push_AddEndpoint push_RemoveEndpoint
  by unfold_locales
     (auto simp: push_peer_defs ch_close_cases close_on_def Let_def fun_eq_iff split: option.splits)

text \<open>A push socket cannot receive.\<close>

lemma push_cannot_receive:
  "RecvMsg push_ops now (r # rs) (push_NewSocket s) = Ret (Inl ErrProtoOp, push_NewSocket s)"
  by (rule RecvMsg_recverr)
     (simp add: push_NewSocket_def newSocket_def push_ops_def push_Init_def sock_eff new_chan_def)

text \<open>A message taken by a peer's sender whose endpoint accepts it goes to that peer alone.\<close>

lemma push_sender_takes:
  assumes "push_sender send ep pick sq s = Ret ((Loop, sq), s')" "cbuf (chans s sq) = x # xs"
    "\<And>m t. \<exists>e u. send m t = Ret (e, u)"
  shows "send x (pop_on sq s) = Ret (None, s')"
  using direct_sender_cases [OF assms(1) [unfolded push_sender_def]] assms(2)
  by (auto split: if_splits)

end
