(* ===== verification/Pull.thy ===== *)
theory Pull
  imports Direct
begin

text \<open>
  protocol/pull/pull.go: whatever the peers send goes up; nothing can be sent.
\<close>

section \<open>State and operations\<close>

record pull = socket +
  pull_raw :: bool

definition pull_NewProtocol :: "pull \<Rightarrow> pull" where
  "pull_NewProtocol s = s\<lparr>pull_raw := False\<rparr>"

definition pull_Init :: "pull \<Rightarrow> pull" where
  "pull_Init s = SetSendError (Some ErrProtoOp) s"

definition pull_Shutdown :: "u32 list \<Rightarrow> pull \<Rightarrow> pull run" where
  "pull_Shutdown ord s = Ret s"

definition pull_receiver :: "up_arm \<Rightarrow> cref \<Rightarrow> mref option \<Rightarrow> pull \<Rightarrow> (ctl \<times> pull) run" where
  "pull_receiver = direct_receiver"

definition pull_AddEndpoint :: "pref \<Rightarrow> pull \<Rightarrow> pull run" where
  "pull_AddEndpoint ep s = Ret (spawn (GReceiver ep) s)"

definition pull_RemoveEndpoint :: "pref \<Rightarrow> pull \<Rightarrow> pull run" where
  "pull_RemoveEndpoint ep s = Ret s"

definition pull_SendHook :: "mref \<Rightarrow> pull \<Rightarrow> (bool \<times> pull) run" where
  "pull_SendHook m s = Ret (False, s)"

definition pull_SetOption :: "string \<Rightarrow> goval \<Rightarrow> pull \<Rightarrow> err option \<times> pull" where
  "pull_SetOption name v s =
     (if name = OptionRaw then
        (case v of VBool b \<Rightarrow> (None, s\<lparr>pull_raw := b\<rparr>) | _ \<Rightarrow> (Some ErrBadValue, s\<lparr>pull_raw := False\<rparr>))
      else (Some ErrBadOption, s))"

definition pull_GetOption :: "string \<Rightarrow> pull \<Rightarrow> err + goval" where
  "pull_GetOption name s = (if name = OptionRaw then Inr (VBool (pull_raw s)) else Inl ErrBadOption)"

definition pull_ops :: "pull protocol_ops" where
  "pull_ops = \<lparr>op_Init = pull_Init, op_Shutdown = pull_Shutdown,
     op_AddEndpoint = pull_AddEndpoint, op_RemoveEndpoint = pull_RemoveEndpoint,
     op_Number = ProtoPull, op_Name = ''pull'', op_PeerNumber = ProtoPush, op_PeerName = ''push'',
     op_GetOption = pull_GetOption, op_SetOption = pull_SetOption,
     op_RecvHook = None, op_SendHook = Some pull_SendHook\<rparr>"

definition pull_NewSocket :: "pull \<Rightarrow> pull" where
  "pull_NewSocket s = newSocket pull_ops (pull_NewProtocol s)"

section \<open>The contract\<close>

interpretation pull: protocol_impl pull_ops
  by unfold_locales
     (auto simp: pull_ops_def pull_SetOption_def pull_GetOption_def core_options_def option_name
        sock_cfg_def sock_eff Let_def split: goval.splits if_splits)

text \<open>A pull socket cannot send, and no setting of the raw option changes that.\<close>

lemma pull_senderr:
  "senderr (pull_NewSocket s) = Some ErrProtoOp"
  "senderr (snd (pull_SetOption n v s)) = senderr s"
  by (auto simp: pull_NewSocket_def newSocket_def pull_ops_def pull_Init_def pull_SetOption_def
      sock_eff new_chan_def split: goval.split)

lemma pull_receiver_up:
  assumes "\<not> cclosed (chans s rq)" "chan_room (chans s rq)" "\<not> closeq s"
  shows "pull_receiver pick rq (Some m) s = Ret (Loop, push_on rq m s)"
  using direct_receiver_up [OF assms] by (simp add: pull_receiver_def)

end
