(* ===== verification/Pair.thy ===== *)
theory Pair
  imports Direct
begin

text \<open>
  protocol/pair/pair.go: a socket with one peer. While it has one, every further pipe is
  closed.
\<close>

section \<open>State and operations\<close>

record pairEp =
  ae_ep :: pref
  ae_cq :: cref

record pair = socket +
  pair_peer :: "pairEp option"
  pair_raw :: bool
  pair_w :: waiter

definition pair_NewProtocol :: "pair \<Rightarrow> pair" where
  "pair_NewProtocol s = s\<lparr>pair_peer := None, pair_raw := False, pair_w := \<lparr>w_cnt = 0\<rparr>\<rparr>"

definition pair_Init :: "pair \<Rightarrow> pair" where
  "pair_Init s = s\<lparr>pair_w := w_Init (pair_w s)\<rparr>"

definition pair_Shutdown :: "u32 list \<Rightarrow> pair \<Rightarrow> pair run" where
  "pair_Shutdown ord s = Ret s"

definition pair_fin :: "pair \<Rightarrow> pair run" where
  "pair_fin s = run_bind (w_Done (pair_w s)) (\<lambda>(w, _). Ret (s\<lparr>pair_w := w\<rparr>))"

definition pair_sender ::
  "(mref \<Rightarrow> pair \<Rightarrow> (err option \<times> pair) run) \<Rightarrow> pairEp \<Rightarrow> direct_arm \<Rightarrow> cref \<Rightarrow> pair \<Rightarrow>
   ((ctl \<times> cref) \<times> pair) run" where
  "pair_sender send ep = direct_sender pair_fin send (ae_cq ep)"

definition pair_receiver :: "up_arm \<Rightarrow> cref \<Rightarrow> mref option \<Rightarrow> pair \<Rightarrow> (ctl \<times> pair) run" where
  "pair_receiver = direct_receiver"

definition pair_RemoveEndpoint :: "pref \<Rightarrow> pair \<Rightarrow> pair run" where
  "pair_RemoveEndpoint ep s =
     (case pair_peer s of
        None \<Rightarrow> Ret s
      | Some peer \<Rightarrow>
          if ae_ep peer = ep then ch_close (ae_cq peer) (s\<lparr>pair_peer := None\<rparr>) else Ret s)"

definition pair_AddEndpoint :: "pref \<Rightarrow> pair \<Rightarrow> pair run" where
  "pair_AddEndpoint ep s =
     (let (q, s1) = new_chan 0 s
      in if pair_peer s1 \<noteq> None then ep_Close pair_RemoveEndpoint ep s1
         else
           let s2 = s1\<lparr>pair_peer := Some \<lparr>ae_ep = ep, ae_cq = q\<rparr>\<rparr>;
               s3 = s2\<lparr>pair_w := w_Add (pair_w s2)\<rparr>
           in Ret (spawn (GPipeSender ep) (spawn (GReceiver ep) s3)))"

definition pair_SetOption :: "string \<Rightarrow> goval \<Rightarrow> pair \<Rightarrow> err option \<times> pair" where
  "pair_SetOption name v s =
     (if name = OptionRaw then
        (case v of VBool b \<Rightarrow> (None, s\<lparr>pair_raw := b\<rparr>) | _ \<Rightarrow> (Some ErrBadValue, s\<lparr>pair_raw := False\<rparr>))
      else (Some ErrBadOption, s))"

definition pair_GetOption :: "string \<Rightarrow> pair \<Rightarrow> err + goval" where
  "pair_GetOption name s = (if name = OptionRaw then Inr (VBool (pair_raw s)) else Inl ErrBadOption)"

definition pair_ops :: "pair protocol_ops" where
  "pair_ops = \<lparr>op_Init = pair_Init, op_Shutdown = pair_Shutdown,
     op_AddEndpoint = pair_AddEndpoint, op_RemoveEndpoint = pair_RemoveEndpoint,
     op_Number = ProtoPair, op_Name = ''pair'', op_PeerNumber = ProtoPair, op_PeerName = ''pair'',
     op_GetOption = pair_GetOption, op_SetOption = pair_SetOption,
     op_RecvHook = None, op_SendHook = None\<rparr>"

definition pair_NewSocket :: "pair \<Rightarrow> pair" where
  "pair_NewSocket s = newSocket pair_ops (pair_NewProtocol s)"

section \<open>The contract\<close>

interpretation pair: protocol_impl pair_ops
  by unfold_locales
     (auto simp: pair_ops_def pair_SetOption_def pair_GetOption_def core_options_def option_name
        sock_cfg_def sock_eff Let_def split: goval.splits if_splits)

section \<open>One peer at a time\<close>

text \<open>
  The peer's close channel is open and allocated, and the peer's pipe is not closing: the
  protocol has a peer exactly while that peer's pipe is alive.
\<close>

definition pair_ok :: "pair \<Rightarrow> bool" where
  "pair_ok s \<longleftrightarrow> (case pair_peer s of None \<Rightarrow> True
     | Some pe \<Rightarrow> ae_cq pe < nextc s \<and> \<not> cclosed (chans s (ae_cq pe)) \<and>
         ae_cq pe \<notin> resv s \<and> \<not> p_closing (ptab s (ae_ep pe)) \<and> p_sock (ptab s (ae_ep pe))) \<and>
     (\<forall>q \<in> resv s. q < nextc s)"

lemma pair_add_first:
  assumes "pair_peer s = None" "pair_ok s" "\<not> p_closing (ptab s ep)" "p_sock (ptab s ep)"
  shows "\<exists>s'. pair_AddEndpoint ep s = Ret s' \<and> pair_ok s' \<and> map_option ae_ep (pair_peer s') = Some ep"
  using assms by (auto simp: pair_AddEndpoint_def pair_ok_def new_chan_def spawn_def resv_def Let_def)

text \<open>A second pipe is closed at once, and the first peer stays.\<close>

lemma pair_add_second:
  assumes "pair_peer s = Some pe" "ae_ep pe \<noteq> ep" "pair_ok s" "\<not> p_closing (ptab s ep)"
  shows "\<exists>s'. pair_AddEndpoint ep s = Ret s' \<and> pair_ok s' \<and> pair_peer s' = Some pe \<and>
    p_closing (ptab s' ep) \<and> \<not> p_open (ptab s' ep)"
  using assms
  by (auto simp: pair_AddEndpoint_def ep_Close_def remPipe_def pair_RemoveEndpoint_def upd_pipe_def
      pair_ok_def new_chan_def resv_def Let_def)

text \<open>When the peer's pipe closes, the protocol is free for another one.\<close>

lemma pair_remove:
  assumes "pair_peer s = Some pe" "pair_ok s"
  shows "\<exists>s'. pair_RemoveEndpoint (ae_ep pe) s = Ret s' \<and> pair_ok s' \<and> pair_peer s' = None"
  using assms by (auto simp: pair_RemoveEndpoint_def ch_close_cases close_on_def pair_ok_def resv_def)

lemma pair_remove_other:
  assumes "\<And>pe. pair_peer s = Some pe \<Longrightarrow> ae_ep pe \<noteq> ep"
  shows "pair_RemoveEndpoint ep s = Ret s"
  using assms by (auto simp: pair_RemoveEndpoint_def split: option.split)

text \<open>
  Pipes come (the core hands each one over once, when it is open and attached) and go, in
  any order: the protocol never panics, and its peer, if any, is a pipe that is not closing.
\<close>

lemma pair_close_ok:
  assumes "pair_ok s"
  shows "\<exists>s'. ep_Close pair_RemoveEndpoint p s = Ret s' \<and> pair_ok s'"
proof (cases "p_closing (ptab s p)")
  case True
  with assms show ?thesis by (simp add: ep_Close_def Let_def)
next
  case open_p: False
  show ?thesis
  proof (cases "\<exists>pe. pair_peer s = Some pe \<and> ae_ep pe = p")
    case True
    then obtain pe where pe: "pair_peer s = Some pe" "ae_ep pe = p" by blast
    with assms open_p show ?thesis
      by (auto simp: ep_Close_def remPipe_def pair_RemoveEndpoint_def upd_pipe_def ch_close_cases
          close_on_def pair_ok_def resv_def Let_def)
  next
    case False
    with assms open_p show ?thesis
      by (auto simp: ep_Close_def remPipe_def pair_RemoveEndpoint_def upd_pipe_def
          pair_ok_def resv_def Let_def split: option.splits)
  qed
qed

datatype pair_event = PairAdd pref | PairClose pref

fun pair_step :: "pair_event \<Rightarrow> pair \<Rightarrow> pair run" where
  "pair_step (PairAdd ep) s =
     (if p_closing (ptab s ep) \<or> \<not> p_sock (ptab s ep) \<or> map_option ae_ep (pair_peer s) = Some ep
      then Block else pair_AddEndpoint ep s)"
| "pair_step (PairClose ep) s = ep_Close pair_RemoveEndpoint ep s"

lemma pair_step_keeps: "pair_ok s \<Longrightarrow> run_keeps pair_ok (pair_step e s)"
proof (cases e)
  case (PairAdd ep)
  assume ok: "pair_ok s"
  show ?thesis
  proof (cases "pair_peer s")
    case None
    with pair_add_first [OF None ok, of ep] PairAdd show ?thesis by auto
  next
    case (Some pe)
    with pair_add_second [OF Some _ ok, of ep] PairAdd show ?thesis by auto
  qed
next
  case (PairClose ep)
  assume "pair_ok s"
  from pair_close_ok [OF this, of ep] PairClose show ?thesis by auto
qed

end
