(* ===== verification/Fresh_Sockets.thy ===== *)
theory Fresh_Sockets
  imports Rep Bus Pub Star Surveyor Respondent Req Sub Push Pull Pair
begin

text \<open>
  The zero values of the protocols' structs, from which Go's \<^verbatim>\<open>new\<close> and the \<^verbatim>\<open>NewSocket\<close>
  functions start, and bundles of the equations that compute a fresh socket. The properties
  are shown to apply to sockets made this way.
\<close>

section \<open>Zero values\<close>

definition zero_rep :: rep where
  "zero_rep = socket0 \<lparr>rep_eps = Map.empty, rep_backtrace = None, rep_raw = False, rep_ttl = 0,
     rep_w = \<lparr>w_cnt = 0\<rparr>\<rparr>"

definition zero_req :: req where
  "zero_req = socket0 \<lparr>req_eps = Map.empty, req_resend = 0, req_raw = False, req_retry = 0,
     req_nextid = 0, req_waker = None, req_tick = False, req_w = \<lparr>w_cnt = 0\<rparr>, req_once = False,
     req_reqmsg = None, req_reqid = 0\<rparr>"

definition zero_bus :: bus where
  "zero_bus = socket0 \<lparr>bus_peers = Map.empty, bus_raw = False, bus_w = \<lparr>w_cnt = 0\<rparr>\<rparr>"

definition zero_star :: star where
  "zero_star = socket0 \<lparr>star_eps = Map.empty, star_raw = False, star_w = \<lparr>w_cnt = 0\<rparr>, star_ttl = 0\<rparr>"

definition zero_pub :: pub where
  "zero_pub = socket0 \<lparr>pub_eps = Map.empty, pub_raw = False, pub_w = \<lparr>w_cnt = 0\<rparr>\<rparr>"

definition zero_surveyor :: surveyor where
  "zero_surveyor = socket0 \<lparr>sv_peers = Map.empty, sv_raw = False, sv_nextID = 0, sv_surveyID = 0,
     sv_duration = 0, sv_timer = None, sv_w = \<lparr>w_cnt = 0\<rparr>, sv_ttl = 0\<rparr>"

definition zero_resp :: resp where
  "zero_resp = socket0 \<lparr>resp_peers = Map.empty, resp_raw = False, resp_ttl = 0,
     resp_backtrace = None, resp_w = \<lparr>w_cnt = 0\<rparr>\<rparr>"

definition zero_sub :: sub where
  "zero_sub = socket0 \<lparr>subs = [], sub_raw = False\<rparr>"

definition zero_push :: push where
  "zero_push = socket0 \<lparr>push_raw = False, push_w = \<lparr>w_cnt = 0\<rparr>, push_eps = Map.empty\<rparr>"

definition zero_pull :: pull where
  "zero_pull = socket0 \<lparr>pull_raw = False\<rparr>"

definition zero_pair :: pair where
  "zero_pair = socket0 \<lparr>pair_peer = None, pair_raw = False, pair_w = \<lparr>w_cnt = 0\<rparr>\<rparr>"

section \<open>Computing a fresh socket\<close>

lemmas fresh_core = newSocket_def socket0_def new_chan_def spawn_def sock_eff w_Init_def w_Add_def
  defaultQLen_def Let_def

lemmas rep_fresh = zero_rep_def rep_NewSocket_def rep_ops_def rep_Init_def rep_NewProtocol_def fresh_core
lemmas req_fresh = zero_req_def req_NewSocket_def req_ops_def req_Init_def req_NewProtocol_def fresh_core
lemmas bus_fresh = zero_bus_def bus_NewSocket_def bus_ops_def bus_Init_def bus_NewProtocol_def fresh_core
lemmas star_fresh = zero_star_def star_NewSocket_def star_ops_def star_Init_def star_NewProtocol_def fresh_core
lemmas pub_fresh = zero_pub_def pub_NewSocket_def pub_ops_def pub_Init_def pub_NewProtocol_def fresh_core
lemmas sv_fresh = zero_surveyor_def sv_NewSocket_def sv_ops_def sv_Init_def sv_NewProtocol_def
  defaultSurveyTime_def fresh_core
lemmas resp_fresh = zero_resp_def resp_NewSocket_def resp_ops_def resp_Init_def resp_NewProtocol_def fresh_core
lemmas sub_fresh = zero_sub_def sub_NewSocket_def sub_ops_def sub_Init_def sub_NewProtocol_def fresh_core
lemmas push_fresh = zero_push_def push_NewSocket_def push_ops_def push_Init_def push_NewProtocol_def fresh_core
lemmas pull_fresh = zero_pull_def pull_NewSocket_def pull_ops_def pull_Init_def pull_NewProtocol_def fresh_core
lemmas pair_fresh = zero_pair_def pair_NewSocket_def pair_ops_def pair_Init_def pair_NewProtocol_def fresh_core

end
