(* ===== verification/Pair_Link.thy ===== *)
theory Pair_Link
  imports Pair Mem_Sys "HOL-Library.Sublist"
begin

text \<open>
  Two connected pair sockets, each with its application, its sender and its receiver
  goroutine, and a reliable connection in each direction (that a stream connection carries
  whole messages in order is the round trip of theory \<open>Conn\<close>). The abstract specification of
  the whole is a queue in each direction; the refinement is that what was sent and not yet
  received lies, in order, in the sender's queue, on the wire and in the receiver's queue,
  although both sockets recycle messages all the time.
\<close>

section \<open>One side\<close>

text \<open>The bytes of the messages in a channel.\<close>

definition frame :: "message \<Rightarrow> bytes" where
  "frame m = hdr_bytes m @ body m"

definition queued :: "cref \<Rightarrow> 'a heap_scheme \<Rightarrow> bytes list" where
  "queued q s = map (\<lambda>m. frame (msgs s m)) (cbuf (chans s q))"

text \<open>
  A side whose socket is connected and open, with no send deadline and without best effort.
  The messages to receive have no header.
\<close>

definition side_ok :: "pair \<Rightarrow> bool" where
  "side_ok s \<longleftrightarrow> mem_ok {#} s \<and> uwq s \<noteq> urq s \<and> uwq s < nextc s \<and> urq s < nextc s \<and>
     \<not> cclosed (chans s (uwq s)) \<and> \<not> cclosed (chans s (urq s)) \<and> \<not> closeq s \<and>
     0 < ccap (chans s (uwq s)) \<and> 0 < ccap (chans s (urq s)) \<and>
     senderr s = None \<and> recverr s = None \<and> wdeadline s = 0 \<and> \<not> bestEffort s \<and>
     (\<forall>m \<in> set (cbuf (chans s (urq s))). hdr (msgs s m) = Some []) \<and>
     (case pair_peer s of None \<Rightarrow> False | Some pe \<Rightarrow> \<not> recv_ready (ae_cq pe) s \<and> ae_cq pe \<notin> resv s)"

text \<open>The state of a side aside from messages and the content of its two queues.\<close>

definition side_frame :: "pair \<Rightarrow> _" where
  "side_frame s = (uwq s, urq s, nextc s, closeq s, senderr s, recverr s, wdeadline s, bestEffort s, pair_peer s)"

text \<open>A new message is in no queue, so making it changes no queue's bytes.\<close>

lemma new_not_queued:
  assumes "NewMessage fresh n s = (m, s1)" "mem_ok F s"
  shows "m \<notin> set (cbuf (chans s q))"
  using NewMessage_fresh(1) [OF assms(1) mem_ok_D(1) [OF assms(2)]] mem_ok_queued(1) [OF assms(2), of m q] by blast

lemma queued_cong:
  assumes "cbuf (chans s' q) = cbuf (chans s q)"
    and "\<And>m. m \<in> set (cbuf (chans s q)) \<Longrightarrow> hdr (msgs s' m) = hdr (msgs s m) \<and> body (msgs s' m) = body (msgs s m)"
  shows "queued q s' = queued q s"
  using assms by (simp add: queued_def frame_def hdr_bytes_def cong: map_cong)

text \<open>What every step of a side keeps.\<close>

definition keeps :: "pair \<Rightarrow> pair \<Rightarrow> bool" where
  "keeps s s' \<longleftrightarrow> side_frame s' = side_frame s \<and>
     (\<forall>q. cclosed (chans s' q) = cclosed (chans s q) \<and> ccap (chans s' q) = ccap (chans s q)) \<and>
     (\<forall>q. q \<noteq> uwq s \<longrightarrow> q \<noteq> urq s \<longrightarrow> cbuf (chans s' q) = cbuf (chans s q))"

lemma side_ok_keeps:
  assumes "side_ok s" "keeps s s'" "mem_ok {#} s'" "\<forall>m \<in> set (cbuf (chans s' (urq s))). hdr (msgs s' m) = Some []"
  shows "side_ok s'"
  using assms by (auto simp: side_ok_def keeps_def side_frame_def recv_ready_iff resv_def split: option.splits)

lemma keeps_sel: "keeps s s' \<Longrightarrow> uwq s' = uwq s \<and> urq s' = urq s"
  by (simp add: keeps_def side_frame_def)

text \<open>A step that takes the message \<open>m\<close> from nowhere and puts it, with the bytes \<open>b\<close>, on \<open>q\<close>.\<close>

definition puts :: "cref \<Rightarrow> bytes \<Rightarrow> pair \<Rightarrow> pair \<Rightarrow> bool" where
  "puts q b s s' \<longleftrightarrow> keeps s s' \<and> side_ok s' \<and> queued q s' = queued q s @ [b] \<and>
     (\<forall>r. r \<noteq> q \<longrightarrow> queued r s' = queued r s)"

lemma puts_new:
  assumes "side_ok s" "NewMessage fresh n s = (m, s1)" "q = uwq s \<or> q = urq s"
    and "body x = b" "hdr x = hdr (msgs s1 m)" "refcnt x = refcnt (msgs s1 m)" "bsize x = bsize (msgs s1 m)"
  shows "puts q b s (push_on q m (s1\<lparr>msgs := (msgs s1)(m := x)\<rparr>))"
proof -
  let ?t = "push_on q m (s1\<lparr>msgs := (msgs s1)(m := x)\<rparr>)"
  have ok: "mem_ok {#} s" and q: "q < nextc s" using assms(1,3) by (auto simp: side_ok_def)
  have s1: "chans s1 = chans s" "side_frame s1 = side_frame s" "nextc s1 = nextc s"
    using assms(2) by (auto simp: NewMessage_unfold side_frame_def split: option.splits if_splits)
  note new = new_not_queued [OF assms(2) ok] and frm = NewMessage_frame [OF assms(2)]
  have x: "frame x = b" "hdr x = Some []"
    using NewMessage_fields(3) [OF assms(2)] assms(4,5) by (simp_all add: frame_def hdr_bytes_def)
  have "mem_ok (add_mset m {#}) (s1\<lparr>msgs := (msgs s1)(m := x)\<rparr>)"
    using mem_ok_New [OF assms(2) ok] assms(6,7) by (simp add: mem_ok_msg)
  then have mem: "mem_ok {#} ?t" by (rule mem_ok_push) (simp add: s1 q)
  have k: "keeps s ?t" using s1 assms(3) by (auto simp: keeps_def side_frame_def push_on_def)
  have qd: "queued r ?t = queued r s @ (if r = q then [b] else [])" for r
    using new [of r] frm x(1) by (auto simp: queued_def push_on_def s1)
  have "\<forall>m' \<in> set (cbuf (chans ?t (urq s))). hdr (msgs ?t m') = Some []"
    using assms(1) new [of "urq s"] frm x(2) by (auto simp: side_ok_def push_on_def s1)
  with side_ok_keeps [OF assms(1) k mem] k qd show ?thesis by (simp add: puts_def)
qed

text \<open>A step that takes the oldest message of \<open>q\<close>, whose bytes are \<open>b\<close>, and frees it.\<close>

definition takes_off :: "cref \<Rightarrow> bytes \<Rightarrow> pair \<Rightarrow> pair \<Rightarrow> bool" where
  "takes_off q b s s' \<longleftrightarrow> keeps s s' \<and> side_ok s' \<and> queued q s = b # queued q s' \<and>
     (\<forall>r. r \<noteq> q \<longrightarrow> queued r s' = queued r s)"

lemma takes_off_pop:
  assumes "side_ok s" "cbuf (chans s q) = m # ms" "q = uwq s \<or> q = urq s"
  shows "takes_off q (frame (msgs s m)) s (Free m (pop_on q s))"
proof -
  let ?t = "Free m (pop_on q s)"
  have ok: "mem_ok {#} s" using assms(1) by (simp add: side_ok_def)
  have mem: "mem_ok {#} ?t" using mem_ok_Free [OF mem_ok_pop [OF ok assms(2)]] .
  have k: "keeps s ?t" using assms(3) by (auto simp: keeps_def side_frame_def chan_eff Free_eff)
  have fr: "frame (msgs ?t m') = frame (msgs s m')" for m'
    by (simp add: chan_eff Free_eff frame_def hdr_bytes_def)
  have qd: "queued r ?t = (if r = q then tl (queued r s) else queued r s)" for r
    by (simp add: queued_def fr) (simp add: chan_eff Free_eff map_tl)
  have "queued q s = frame (msgs s m) # queued q ?t"
    using assms(2) by (simp add: qd) (simp add: queued_def)
  moreover have "\<forall>m' \<in> set (cbuf (chans ?t (urq s))). hdr (msgs ?t m') = Some []"
    using assms(1,2) by (auto simp: side_ok_def chan_eff Free_eff dest: list.set_sel(2))
  ultimately show ?thesis using side_ok_keeps [OF assms(1) k mem] k qd by (simp add: takes_off_def)
qed

section \<open>The calls and goroutines of a side\<close>

lemma send_puts:
  assumes "side_ok s"
  shows "if chan_room (chans s (uwq s))
    then \<exists>s'. Send pair_ops fresh now t pick b s = Ret (None, s') \<and> puts (uwq s) b s s'
    else Send pair_ops fresh now t pick b s = Block"
proof -
  obtain m s1 where n: "NewMessage fresh (length b) s = (m, s1)" by fastforce
  have s1: "chans s1 = chans s" "uwq s1 = uwq s" "closeq s1 = closeq s" "senderr s1 = senderr s"
      "wdeadline s1 = wdeadline s" "bestEffort s1 = bestEffort s"
    using n by (auto simp: NewMessage_unfold split: option.splits if_splits)
  have o: "\<not> cclosed (chans s (uwq s))" "\<not> closeq s" "senderr s = None" "wdeadline s = 0" "\<not> bestEffort s"
    using assms by (auto simp: side_ok_def)
  let ?x = "(msgs s1 m)\<lparr>body := b, expire := None\<rparr>"
  let ?s' = "push_on (uwq s) m (s1\<lparr>msgs := (msgs s1)(m := ?x)\<rparr>)"
  have "Send pair_ops fresh now t pick b s = (if chan_room (chans s (uwq s)) then Ret (None, ?s') else Block)"
    using NewMessage_fields(2) [OF n] o s1
    by (simp add: Send_def n SendMsg_def SendMsg_start_def SendMsg_select_def pair_ops_def set_body_def upd_msg_def
        go_select_def timer_ready_def mkTimer_def chan_cases Let_def)
  moreover have "puts (uwq s) b s ?s'"
    using puts_new [OF assms n, where q = "uwq s" and x = ?x and b = b] by simp
  ultimately show ?thesis by simp
qed

lemma receiver_puts:
  assumes "side_ok s" "arrival fresh p b s = (m, s1)"
  shows "if chan_room (chans s (urq s))
    then \<exists>s'. pair_receiver pick (urq s1) (Some m) s1 = Ret (Loop, s') \<and> puts (urq s) b s s'
    else pair_receiver pick (urq s1) (Some m) s1 = Block"
proof -
  obtain t where n: "NewMessage fresh (length b) s = (m, t)" and
      s1: "s1 = upd_msg m (\<lambda>x. x\<lparr>body := b, port := Some p\<rparr>) t"
    using assms(2) by (auto simp: arrival_def split: prod.splits)
  have c: "chans s1 = chans s" "urq s1 = urq s" "closeq s1 = closeq s"
    using n s1 by (auto simp: NewMessage_unfold upd_msg_def split: option.splits if_splits)
  have o: "\<not> cclosed (chans s (urq s))" "\<not> closeq s" using assms(1) by (auto simp: side_ok_def)
  have "pair_receiver pick (urq s1) (Some m) s1 =
      (if chan_room (chans s (urq s)) then Ret (Loop, push_on (urq s) m s1) else Block)"
    using o c by (simp add: pair_receiver_def direct_receiver_def up_send_cases)
  moreover have "puts (urq s) b s (push_on (urq s) m s1)"
    using puts_new [OF assms(1) n, where q = "urq s" and x = "(msgs t m)\<lparr>body := b, port := Some p\<rparr>" and b = b]
    by (simp add: s1 upd_msg_def)
  ultimately show ?thesis by simp
qed

text \<open>The transport takes every message.\<close>

lemma sender_takes:
  assumes "side_ok s" "pair_peer s = Some pe" "cbuf (chans s (uwq s)) = m # ms"
  shows "\<exists>s'. pair_sender (tran_send None True) pe pick (uwq s) s = Ret ((Loop, uwq s), s') \<and>
    takes_off (uwq s) (frame (msgs s m)) s s'"
proof -
  have o: "\<not> closeq s" "\<not> recv_ready (ae_cq pe) s" using assms(1,2) by (auto simp: side_ok_def)
  have "pair_sender (tran_send None True) pe pick (uwq s) s = Ret ((Loop, uwq s), Free m (pop_on (uwq s) s))"
    using assms(3) o
    by (simp add: pair_sender_def direct_sender_def go_select_def ch_recv_cases recv_ready_iff tran_send_def Let_def)
  with takes_off_pop [OF assms(1,3)] show ?thesis by simp
qed

lemma sender_waits:
  assumes "side_ok s" "pair_peer s = Some pe" "cbuf (chans s (uwq s)) = []"
  shows "pair_sender send pe pick (uwq s) s = Block"
  using assms by (simp add: pair_sender_def direct_sender_def go_select_def recv_ready_iff side_ok_def Let_def)

text \<open>A receive returns the oldest message, or fails and changes nothing that matters here.\<close>

lemma keeps_wake: "side_ok s \<Longrightarrow> keeps s (s\<lparr>recverrq := c\<rparr>) \<and> side_ok (s\<lparr>recverrq := c\<rparr>)"
proof
  show k: "keeps s (s\<lparr>recverrq := c\<rparr>)" by (simp add: keeps_def side_frame_def)
  assume s: "side_ok s"
  have "mem_ok {#} (s\<lparr>recverrq := c\<rparr>)"
    using s by (subst mem_ok_same [of s]) (simp_all add: same_refs_def side_ok_def)
  then show "side_ok (s\<lparr>recverrq := c\<rparr>)" by (rule side_ok_keeps [OF s k]) (use s in \<open>simp add: side_ok_def\<close>)
qed

definition idle :: "pair \<Rightarrow> pair \<Rightarrow> bool" where
  "idle s s' \<longleftrightarrow> keeps s s' \<and> side_ok s' \<and> chans s' = chans s \<and> msgs s' = msgs s"

lemma idle_queued: "idle s s' \<Longrightarrow> queued q s' = queued q s"
  by (simp add: idle_def queued_def)

lemma recv_iter_takes:
  assumes "recverr s = None" "\<not> cclosed (chans s (urq s))"
  shows "run_keeps (\<lambda>(r, s'). case r of
       RDone (Inl e) \<Rightarrow> s' = s
     | RDone (Inr m) \<Rightarrow> (\<exists>ms. cbuf (chans s (urq s)) = m # ms) \<and> s' = pop_on (urq s) s
     | RAgain \<Rightarrow> s' = s\<lparr>recverrq := chan_pop (recverrq s)\<rparr>) (RecvMsg_iter pair_ops tmr t pick s)"
  using assms
  by (cases "cbuf (chans s (urq s))")
     (simp_all add: RecvMsg_iter_def pair_ops_def ch_recv_cases split: option.split recv_arm.split)

lemma recv_loop_takes:
  "side_ok s \<Longrightarrow> run_keeps (\<lambda>(r, s'). case r of
       Inl e \<Rightarrow> idle s s'
     | Inr m \<Rightarrow> \<exists>s0 ms. idle s s0 \<and> cbuf (chans s (urq s)) = m # ms \<and> s' = pop_on (urq s) s0)
   (RecvMsg_loop pair_ops tmr rounds s)"
proof (induction rounds arbitrary: s)
  case Nil
  show ?case by simp
next
  case (Cons r rounds)
  obtain t pick where r: "r = (t, pick)" by fastforce
  let ?w = "s\<lparr>recverrq := chan_pop (recverrq s)\<rparr>"
  let ?P = "\<lambda>s (r, s'). case r of Inl e \<Rightarrow> idle s s'
     | Inr m \<Rightarrow> \<exists>s0 ms. idle s s0 \<and> cbuf (chans s (urq s)) = m # ms \<and> s' = pop_on (urq s) s0"
  have id: "idle s s" using Cons.prems by (simp add: idle_def keeps_def)
  have w: "idle s ?w" "side_ok ?w" using keeps_wake [OF Cons.prems] by (simp_all add: idle_def)
  have "idle ?w s' \<Longrightarrow> idle s s'" for s' by (auto simp: idle_def keeps_def side_frame_def)
  then have mono: "?P ?w y \<Longrightarrow> ?P s y" for y by (cases "fst y") (auto simp: split_beta)
  have again: "run_keeps (?P s) (RecvMsg_loop pair_ops tmr rounds ?w)"
    using Cons.IH [OF w(2)] mono by (rule run_keeps_mono)
  have o: "recverr s = None" "\<not> cclosed (chans s (urq s))" using Cons.prems by (auto simp: side_ok_def)
  show ?case
    unfolding r RecvMsg_loop.simps
  proof (rule run_keeps_bind [OF recv_iter_takes [OF o]], goal_cases)
    case (1 y)
    then show ?case using id again by (cases y) (auto split: recv_res.splits sum.splits)
  qed
qed

lemma recv_takes:
  assumes "side_ok s"
  shows "run_keeps (\<lambda>(r, s'). case r of Inl e \<Rightarrow> idle s s' | Inr b \<Rightarrow> takes_off (urq s) b s s')
    (Recv pair_ops now rounds s)"
proof -
  have got: "takes_off (urq s) (body (msgs s1 m)) s (Free m s1)"
    if i: "idle s s0" and c: "cbuf (chans s (urq s)) = m # ms" and s1: "s1 = pop_on (urq s) s0" for m s0 ms s1
  proof -
    have f: "urq s0 = urq s" "chans s0 = chans s" "msgs s0 = msgs s" "side_ok s0" "keeps s s0"
      using i by (auto simp: idle_def dest: keeps_sel)
    have "hdr (msgs s m) = Some []" using assms c by (auto simp: side_ok_def)
    then have b: "frame (msgs s m) = body (msgs s m)" by (simp add: frame_def hdr_bytes_def)
    have "takes_off (urq s) (frame (msgs s m)) s0 (Free m (pop_on (urq s) s0))"
      using takes_off_pop [OF f(4), of "urq s" m ms] f c by simp
    then show ?thesis
      using f i b s1 by (auto simp: takes_off_def keeps_def side_frame_def idle_queued pop_on_def)
  qed
  show ?thesis
    unfolding Recv_def RecvMsg_def
  proof (rule run_keeps_bind [OF recv_loop_takes [OF assms]], goal_cases)
    case (1 y)
    show ?case
    proof (cases "fst y")
      case (Inl e)
      with 1 show ?thesis by (auto simp: split_beta)
    next
      case (Inr m)
      with 1 obtain s0 ms where "idle s s0" "cbuf (chans s (urq s)) = m # ms" "snd y = pop_on (urq s) s0"
        by (auto simp: split_beta)
      from got [OF this] Inr show ?thesis by (simp add: split_beta)
    qed
  qed
qed

lemma recv_now:
  assumes "side_ok s" "queued (urq s) s = b # bs"
  shows "\<exists>s'. Recv pair_ops 0 [(0, RMsg)] s = Ret (Inr b, s')"
proof -
  from assms(2) obtain m ms where c: "cbuf (chans s (urq s)) = m # ms" "b = frame (msgs s m)"
    by (auto simp: queued_def)
  with assms(1) have "b = body (msgs s m)" "recverr s = None"
    by (auto simp: side_ok_def frame_def hdr_bytes_def)
  with c(1) show ?thesis
    by (simp add: Recv_def RecvMsg_def RecvMsg_iter_def pair_ops_def go_select_def ch_recv_cases recv_ready_iff pop_on_def)
qed

section \<open>Two sides\<close>

text \<open>
  The sides are told apart by a truth value; \<open>lk_wire c x\<close> is on its way from \<open>x\<close>. \<open>lk_sent\<close> and
  \<open>lk_got\<close> are history variables: what the application of a side has sent and received.
\<close>

record link =
  lk_side :: "bool \<Rightarrow> pair"
  lk_wire :: "bool \<Rightarrow> bytes list"
  lk_sent :: "bool \<Rightarrow> bytes list"
  lk_got :: "bool \<Rightarrow> bytes list"

datatype link_event =
    KSend bool mref inst inst send_arm bytes
  | KOut bool direct_arm
  | KIn bool up_arm mref pref
  | KRecv bool inst "(inst \<times> recv_arm) list"

fun link_step :: "link_event \<Rightarrow> link \<Rightarrow> link run" where
  "link_step (KSend x fresh now t pick b) c =
     run_bind (Send pair_ops fresh now t pick b (lk_side c x)) (\<lambda>(e, s).
       Ret (c\<lparr>lk_side := (lk_side c)(x := s),
              lk_sent := (if e = None then (lk_sent c)(x := lk_sent c x @ [b]) else lk_sent c)\<rparr>))"
| "link_step (KOut x pick) c =
     (let s = lk_side c x
      in case pair_peer s of
           None \<Rightarrow> Block
         | Some pe \<Rightarrow>
             run_bind (pair_sender (tran_send None True) pe pick (uwq s) s) (\<lambda>((ct, sq), s').
               Ret (c\<lparr>lk_side := (lk_side c)(x := s'),
                      lk_wire := (lk_wire c)(x := lk_wire c x @ (if ct = Loop then take 1 (queued (uwq s) s) else []))\<rparr>)))"
| "link_step (KIn x pick fresh p) c =
     (case lk_wire c (\<not> x) of
        [] \<Rightarrow> Block
      | b # bs \<Rightarrow>
          let (m, s) = arrival fresh p b (lk_side c x)
          in run_bind (pair_receiver pick (urq s) (Some m) s) (\<lambda>(ct, s').
               Ret (c\<lparr>lk_side := (lk_side c)(x := s'), lk_wire := (lk_wire c)(\<not> x := bs)\<rparr>)))"
| "link_step (KRecv x now rounds) c =
     run_bind (Recv pair_ops now rounds (lk_side c x)) (\<lambda>(r, s).
       Ret (c\<lparr>lk_side := (lk_side c)(x := s),
              lk_got := (case r of Inl e \<Rightarrow> lk_got c | Inr b \<Rightarrow> (lk_got c)(x := lk_got c x @ [b]))\<rparr>))"

text \<open>What \<open>x\<close> sent and the other side has still to receive, oldest first.\<close>

definition in_flight :: "link \<Rightarrow> bool \<Rightarrow> bytes list" where
  "in_flight c x = queued (urq (lk_side c (\<not> x))) (lk_side c (\<not> x)) @ lk_wire c x @ queued (uwq (lk_side c x)) (lk_side c x)"

definition link_ok :: "link \<Rightarrow> bool" where
  "link_ok c \<longleftrightarrow> (\<forall>x. side_ok (lk_side c x) \<and> lk_sent c x = lk_got c (\<not> x) @ in_flight c x)"

text \<open>A side that changed as one of its steps does, with the wires and histories to match.\<close>

lemma link_ok_side:
  assumes "link_ok c" "side_ok s'" "keeps (lk_side c x) s'"
    and "lk_side c' = (lk_side c)(x := s')"
    and "lk_sent c' x = lk_got c' (\<not> x) @ queued (urq (lk_side c (\<not> x))) (lk_side c (\<not> x)) @ lk_wire c' x @ queued (uwq s') s'"
    and "lk_sent c' (\<not> x) = lk_got c' x @ queued (urq s') s' @ lk_wire c' (\<not> x) @ queued (uwq (lk_side c (\<not> x))) (lk_side c (\<not> x))"
  shows "link_ok c'"
proof -
  have "side_ok (lk_side c' y) \<and> lk_sent c' y = lk_got c' (\<not> y) @ in_flight c' y" for y
    using assms by (cases "y = x") (auto simp: link_ok_def in_flight_def)
  then show ?thesis by (simp add: link_ok_def)
qed

lemma link_okD:
  assumes "link_ok c"
  shows "side_ok (lk_side c x)"
    and "lk_sent c x = lk_got c (\<not> x) @ queued (urq (lk_side c (\<not> x))) (lk_side c (\<not> x)) @ lk_wire c x @
      queued (uwq (lk_side c x)) (lk_side c x)"
    and "lk_sent c (\<not> x) = lk_got c x @ queued (urq (lk_side c x)) (lk_side c x) @ lk_wire c (\<not> x) @
      queued (uwq (lk_side c (\<not> x))) (lk_side c (\<not> x))"
proof -
  have all: "side_ok (lk_side c y) \<and> lk_sent c y = lk_got c (\<not> y) @ in_flight c y" for y
    using assms by (simp add: link_ok_def)
  from all [of x] all [of "\<not> x"] show "side_ok (lk_side c x)"
    and "lk_sent c x = lk_got c (\<not> x) @ queued (urq (lk_side c (\<not> x))) (lk_side c (\<not> x)) @ lk_wire c x @
      queued (uwq (lk_side c x)) (lk_side c x)"
    and "lk_sent c (\<not> x) = lk_got c x @ queued (urq (lk_side c x)) (lk_side c x) @ lk_wire c (\<not> x) @
      queued (uwq (lk_side c (\<not> x))) (lk_side c (\<not> x))"
    by (simp_all add: in_flight_def)
qed

lemma puts_sel: "side_ok s \<Longrightarrow> puts q b s s' \<Longrightarrow> side_ok s' \<and> keeps s s' \<and> uwq s' = uwq s \<and> urq s' = urq s \<and>
    uwq s \<noteq> urq s \<and> queued q s' = queued q s @ [b] \<and> (\<forall>r. r \<noteq> q \<longrightarrow> queued r s' = queued r s)"
  by (auto simp: puts_def side_ok_def dest: keeps_sel)

lemma takes_off_sel: "side_ok s \<Longrightarrow> takes_off q b s s' \<Longrightarrow> side_ok s' \<and> keeps s s' \<and> uwq s' = uwq s \<and> urq s' = urq s \<and>
    uwq s \<noteq> urq s \<and> queued q s = b # queued q s' \<and> (\<forall>r. r \<noteq> q \<longrightarrow> queued r s' = queued r s)"
  by (auto simp: takes_off_def side_ok_def dest: keeps_sel)

lemma link_ok_step:
  assumes "link_ok c"
  shows "run_keeps link_ok (link_step e c)"
proof (cases e)
  case (KSend x fresh now t pick b)
  note D = link_okD [OF assms, of x]
  show ?thesis
  proof (cases "chan_room (chans (lk_side c x) (uwq (lk_side c x)))")
    case True
    then obtain s' where s': "Send pair_ops fresh now t pick b (lk_side c x) = Ret (None, s')"
        "puts (uwq (lk_side c x)) b (lk_side c x) s'"
      using send_puts [OF D(1), of fresh now t pick b] by auto
    from puts_sel [OF D(1) s'(2)] D(2,3) s'(1) KSend show ?thesis
      by (auto intro!: link_ok_side [OF assms, of s' x])
  next
    case False
    with send_puts [OF D(1), of fresh now t pick b] KSend show ?thesis by simp
  qed
next
  case (KOut x pick)
  note D = link_okD [OF assms, of x]
  obtain pe where pe: "pair_peer (lk_side c x) = Some pe"
    using D(1) by (auto simp: side_ok_def split: option.splits)
  show ?thesis
  proof (cases "cbuf (chans (lk_side c x) (uwq (lk_side c x)))")
    case Nil
    with sender_waits [OF D(1) pe] KOut pe show ?thesis by simp
  next
    case (Cons m ms)
    then obtain s' where s': "pair_sender (tran_send None True) pe pick (uwq (lk_side c x)) (lk_side c x) =
        Ret ((Loop, uwq (lk_side c x)), s')"
        "takes_off (uwq (lk_side c x)) (frame (msgs (lk_side c x) m)) (lk_side c x) s'"
      using sender_takes [OF D(1) pe] by blast
    from takes_off_sel [OF D(1) s'(2)] D(2,3) s'(1) KOut pe show ?thesis
      by (auto intro!: link_ok_side [OF assms, of s' x])
  qed
next
  case (KIn x pick fresh p)
  note D = link_okD [OF assms, of x]
  show ?thesis
  proof (cases "lk_wire c (\<not> x)")
    case Nil
    with KIn show ?thesis by simp
  next
    case (Cons b bs)
    obtain m s where a: "arrival fresh p b (lk_side c x) = (m, s)" by fastforce
    show ?thesis
    proof (cases "chan_room (chans (lk_side c x) (urq (lk_side c x)))")
      case True
      then obtain s' where s': "pair_receiver pick (urq s) (Some m) s = Ret (Loop, s')"
          "puts (urq (lk_side c x)) b (lk_side c x) s'"
        using receiver_puts [OF D(1) a, of pick] by auto
      from puts_sel [OF D(1) s'(2)] D(2,3) s'(1) KIn a Cons show ?thesis
        by (auto intro!: link_ok_side [OF assms, of s' x])
    next
      case False
      with receiver_puts [OF D(1) a, of pick] KIn a Cons show ?thesis by simp
    qed
  qed
next
  case (KRecv x now rounds)
  note D = link_okD [OF assms, of x]
  have "link_ok (c\<lparr>lk_side := (lk_side c)(x := s), lk_got := (case r of Inl e \<Rightarrow> lk_got c
      | Inr b \<Rightarrow> (lk_got c)(x := lk_got c x @ [b]))\<rparr>)"
    if "Recv pair_ops now rounds (lk_side c x) = Ret (r, s)" for r s
  proof (cases r)
    case (Inl e)
    with recv_takes [OF D(1), of now rounds] that have "idle (lk_side c x) s" by simp
    with D Inl keeps_sel [of "lk_side c x" s] show ?thesis
      by (intro link_ok_side [OF assms, of s x]) (auto simp: idle_queued idle_def)
  next
    case (Inr b)
    with recv_takes [OF D(1), of now rounds] that have "takes_off (urq (lk_side c x)) b (lk_side c x) s" by simp
    from takes_off_sel [OF D(1) this] D(2,3) Inr show ?thesis
      by (auto intro!: link_ok_side [OF assms, of s x])
  qed
  with recv_takes [OF D(1), of now rounds] KRecv show ?thesis
    by (cases "Recv pair_ops now rounds (lk_side c x)") auto
qed

section \<open>Everything can be delivered\<close>

text \<open>The steps a message has still to make, for both directions.\<close>

definition steps_left :: "link \<Rightarrow> bool \<Rightarrow> nat" where
  "steps_left c x = length (queued (urq (lk_side c (\<not> x))) (lk_side c (\<not> x))) + 2 * length (lk_wire c x) +
     3 * length (queued (uwq (lk_side c x)) (lk_side c x))"

lemma link_progress:
  assumes "link_ok c" "in_flight c x \<noteq> []"
  shows "\<exists>e c'. link_step e c = Ret c' \<and> lk_sent c' = lk_sent c \<and>
    steps_left c' True + steps_left c' False < steps_left c True + steps_left c False"
proof -
  let ?s = "lk_side c x" and ?r = "lk_side c (\<not> x)"
  note D = link_okD(1) [OF assms(1), of x] link_okD(1) [OF assms(1), of "\<not> x"]
  obtain pe where pe: "pair_peer ?s = Some pe" using D(1) by (auto simp: side_ok_def split: option.splits)
  have less: "steps_left c' True + steps_left c' False < steps_left c True + steps_left c False"
    if "steps_left c' x < steps_left c x" "steps_left c' (\<not> x) = steps_left c (\<not> x)" for c'
    using that by (cases x) auto
  consider b bs where "queued (urq ?r) ?r = b # bs"
    | b bs where "queued (urq ?r) ?r = []" "lk_wire c x = b # bs"
    | b bs where "queued (uwq ?s) ?s = b # bs"
    using assms(2) by (cases "queued (urq ?r) ?r"; cases "lk_wire c x"; cases "queued (uwq ?s) ?s") (auto simp: in_flight_def)
  then show ?thesis
  proof cases
    case 1
    from recv_now [OF D(2) 1] obtain s' where r: "Recv pair_ops 0 [(0, RMsg)] ?r = Ret (Inr b, s')" by blast
    with recv_takes [OF D(2), of 0 "[(0, RMsg)]"] have "takes_off (urq ?r) b ?r s'" by simp
    from takes_off_sel [OF D(2) this] r show ?thesis
      by (intro exI [of _ "KRecv (\<not> x) 0 [(0, RMsg)]"]) (auto intro!: less simp: steps_left_def)
  next
    case 2
    obtain m s where a: "arrival 0 0 b ?r = (m, s)" by fastforce
    have "chan_room (chans ?r (urq ?r))" using 2(1) D(2) by (auto simp: queued_def chan_room_def side_ok_def)
    with receiver_puts [OF D(2) a, of UUp] obtain s' where
        s': "pair_receiver UUp (urq s) (Some m) s = Ret (Loop, s')" "puts (urq ?r) b ?r s'"
      by auto
    from puts_sel [OF D(2) s'(2)] s'(1) a 2 show ?thesis
      by (intro exI [of _ "KIn (\<not> x) UUp 0 0"]) (auto intro!: less simp: steps_left_def)
  next
    case 3
    then obtain m ms where "cbuf (chans ?s (uwq ?s)) = m # ms" by (auto simp: queued_def)
    then obtain s' where s': "pair_sender (tran_send None True) pe DMsg (uwq ?s) ?s = Ret ((Loop, uwq ?s), s')"
        "takes_off (uwq ?s) (frame (msgs ?s m)) ?s s'"
      using sender_takes [OF D(1) pe] by blast
    from takes_off_sel [OF D(1) s'(2)] s'(1) pe 3 show ?thesis
      by (intro exI [of _ "KOut x DMsg"]) (auto intro!: less simp: steps_left_def)
  qed
qed

lemma link_drains:
  "link_ok c \<Longrightarrow> \<exists>es c'. run_events link_step es c = Ret c' \<and> lk_sent c' = lk_sent c \<and>
     (\<forall>x. lk_got c' (\<not> x) = lk_sent c x)"
proof (induction "steps_left c True + steps_left c False" arbitrary: c rule: less_induct)
  case less
  show ?case
  proof (cases "\<exists>x. in_flight c x \<noteq> []")
    case False
    with less.prems have "lk_got c (\<not> x) = lk_sent c x" for x by (simp add: link_ok_def)
    then show ?thesis by (intro exI [of _ "[]"]) simp
  next
    case True
    then obtain x where "in_flight c x \<noteq> []" by blast
    from link_progress [OF less.prems this] obtain e c1 where e: "link_step e c = Ret c1" "lk_sent c1 = lk_sent c"
        "steps_left c1 True + steps_left c1 False < steps_left c True + steps_left c False"
      by blast
    have "link_ok c1" using link_ok_step [OF less.prems, of e] e(1) by simp
    from less.hyps [OF e(3) this] obtain es c' where "run_events link_step es c1 = Ret c'"
        "lk_sent c' = lk_sent c1" "\<forall>x. lk_got c' (\<not> x) = lk_sent c1 x"
      by blast
    with e(1,2) show ?thesis by (intro exI [of _ "e # es"]) simp
  qed
qed

section \<open>The start\<close>

text \<open>A new socket with one endpoint, whose pipe is the first.\<close>

definition pair_connected :: "pair \<Rightarrow> pair" where
  "pair_connected s = (case pair_AddEndpoint 0 (pair_NewSocket s) of Ret s' \<Rightarrow> s' | _ \<Rightarrow> s)"

definition link_start :: "(bool \<Rightarrow> pair) \<Rightarrow> link" where
  "link_start s = \<lparr>lk_side = pair_connected \<circ> s, lk_wire = (\<lambda>_. []), lk_sent = (\<lambda>_. []), lk_got = (\<lambda>_. [])\<rparr>"

lemma pair_connected_ok: "side_ok (pair_connected (socket0 x))"
  by (auto simp: pair_connected_def pair_AddEndpoint_def pair_NewSocket_def newSocket_def pair_ops_def pair_Init_def
      pair_NewProtocol_def new_chan_def spawn_def side_ok_def resv_def socket0_def defaultQLen_def recv_ready_iff
      mem_ok_def pool_ok_def counted_def refs_def lessThan_Suc Let_def)

lemma link_start_ok: "link_ok (link_start (\<lambda>y. socket0 (x y)))"
proof -
  have "queued q (pair_connected (socket0 z)) = []" for q z
    by (auto simp: pair_connected_def pair_AddEndpoint_def pair_NewSocket_def newSocket_def pair_ops_def pair_Init_def
      pair_NewProtocol_def new_chan_def spawn_def queued_def socket0_def Let_def)
  then show ?thesis by (simp add: link_ok_def link_start_def in_flight_def pair_connected_ok)
qed

end
