(* ===== verification/Line_Sys.thy ===== *)
theory Line_Sys
  imports Core_Sys Direct
begin

text \<open>
  The goroutines of the protocols whose peers share the socket's send queue (push, pair), and
  the receivers of all protocols without a queue for each peer: what one round of each does
  to the messages and the channels of a running socket.
\<close>

section \<open>Receivers\<close>

text \<open>One round: the endpoint returned a new message with body \<open>b\<close>.\<close>

definition line_arrive ::
  "(up_arm \<Rightarrow> cref \<Rightarrow> mref option \<Rightarrow> 'a socket_scheme \<Rightarrow> (ctl \<times> 'a socket_scheme) run) \<Rightarrow>
   up_arm \<Rightarrow> mref \<Rightarrow> pref \<Rightarrow> bytes \<Rightarrow> 'g \<Rightarrow> 'a socket_scheme \<Rightarrow> ('g \<times> 'a socket_scheme) run" where
  "line_arrive rcver pick fresh p b g s =
     (let (m, s1) = arrival fresh p b s
      in run_bind (rcver pick (urq s1) (Some m) s1) (\<lambda>(c, s'). Ret (g, s')))"

text \<open>A receiver that passes its message on, frees it, or leaves it to the collector.\<close>

definition receives ::
  "(up_arm \<Rightarrow> cref \<Rightarrow> mref option \<Rightarrow> 'a socket_scheme \<Rightarrow> (ctl \<times> 'a socket_scheme) run) \<Rightarrow> bool" where
  "receives rcver \<longleftrightarrow> (\<forall>pick m F s. base_ok s \<longrightarrow> mem_ok (add_mset m F) s \<longrightarrow>
     run_keeps (\<lambda>(c, s'). calm s s' \<and> mem_ok F s') (rcver pick (urq s) (Some m) s))"

lemma line_arrive_keeps:
  assumes "receives rcver" "base_ok s" "mem_ok F s"
  shows "run_keeps (\<lambda>(g', s'). g' = g \<and> calm s s' \<and> mem_ok F s') (line_arrive rcver pick fresh p b g s)"
proof -
  obtain m s1 where a: "arrival fresh p b s = (m, s1)" by fastforce
  note A = arrival_calm [OF a assms(3)]
  have "run_keeps (\<lambda>(c, s'). calm s1 s' \<and> mem_ok F s') (rcver pick (urq s1) (Some m) s1)"
    using assms(1) calm_base [OF A(2) assms(2)] A(1) unfolding receives_def by blast
  then show ?thesis
    unfolding line_arrive_def a by (simp, elim run_keeps_bind) (auto intro: calm_trans [OF A(2)])
qed

lemma up_send_keeps:
  assumes "base_ok s" "mem_ok (add_mset m F) s"
  shows "run_keeps (\<lambda>(up, s'). calm s s' \<and> mem_ok (if up then F else add_mset m F) s') (up_send pick (urq s) m s)"
  using assms(2) mem_ok_push [OF assms(2) base_okD(6) [OF assms(1)]]
  by (simp add: up_send_cases [OF base_okD(2) [OF assms(1)]])

lemma up_try_keeps:
  assumes "base_ok s" "mem_ok (add_mset m F) s"
  shows "run_keeps (\<lambda>(up, s'). calm s s' \<and> mem_ok (if up = Some True then F else add_mset m F) s') (up_try pick (urq s) m s)"
  using assms(2) mem_ok_push [OF assms(2) base_okD(6) [OF assms(1)]]
  by (simp add: up_try_cases [OF base_okD(2) [OF assms(1)]])

lemma calm_Free: "calm s t \<Longrightarrow> calm s (Free m t)"
  by (erule calm_trans) simp

lemma receives_direct: "receives direct_receiver"
  unfolding receives_def direct_receiver_def
  by (auto intro!: run_keeps_bind [OF up_send_keeps] intro: mem_ok_drop split: if_splits)

lemma receives_null: "receives (\<lambda>pick rq mo s. Ret (NullRecv mo s))"
  by (simp add: receives_def NullRecv_def mem_ok_Free)

section \<open>Senders\<close>

text \<open>
  The senders that run, each with the channel that is closed when its peer goes away and the
  send channel it took when it started. They take it while the socket is active, so it is the
  socket's own until the end.
\<close>

type_synonym lines = "(cref \<times> cref) list"

definition lines_ok :: "lines \<Rightarrow> 'a socket_scheme \<Rightarrow> bool" where
  "lines_ok g s \<longleftrightarrow> (\<forall>x \<in> set g. snd x = uwq s) \<and> (g \<noteq> [] \<longrightarrow> active s)"

definition drop_nth :: "nat \<Rightarrow> 'x list \<Rightarrow> 'x list" where
  "drop_nth i xs = take i xs @ drop (Suc i) xs"

lemma drop_nth_less: "i < length xs \<Longrightarrow> length xs = Suc (length (drop_nth i xs))"
  by (simp add: drop_nth_def)

lemma set_drop_nth: "set (drop_nth i xs) \<subseteq> set xs"
  by (auto simp: drop_nth_def dest: in_set_takeD in_set_dropD)

text \<open>One round of the \<open>i\<close>th sender; the transport of its peer answers \<open>e\<close>.\<close>

definition line_send ::
  "('a socket_scheme \<Rightarrow> 'a socket_scheme run) \<Rightarrow> nat \<Rightarrow> direct_arm \<Rightarrow> err option \<Rightarrow> bool \<Rightarrow>
   lines \<Rightarrow> 'a socket_scheme \<Rightarrow> (lines \<times> 'a socket_scheme) run" where
  "line_send fin i pick e fr g s =
     (if i < length g
      then run_bind (direct_sender fin (tran_send e fr) (fst (g ! i)) pick (snd (g ! i)) s) (\<lambda>((c, sq), s').
             Ret (if c = Exit then drop_nth i g else g[i := (fst (g ! i), sq)], s'))
      else Block)"

text \<open>The invariant: every sender that runs is counted by the waiter, \<open>cnt\<close>.\<close>

definition line_inv :: "('a socket_scheme \<Rightarrow> int) \<Rightarrow> lines \<Rightarrow> 'a socket_scheme \<Rightarrow> bool" where
  "line_inv cnt g s \<longleftrightarrow> lines_ok g s \<and> int (length g) \<le> cnt s"

text \<open>
  What the senders need of the protocol's state: \<open>tab\<close>, the part that describes its peers,
  \<open>cnt\<close>, the waiter's count of the senders, and \<open>fin\<close>, a sender's deferred \<^verbatim>\<open>w.Done()\<close>.
\<close>

locale line_state =
  fixes tab :: "'a socket_scheme \<Rightarrow> 't"
    and cnt :: "'a socket_scheme \<Rightarrow> int"
    and fin :: "'a socket_scheme \<Rightarrow> 'a socket_scheme run"
  assumes own_state: "socket.more s' = socket.more s \<Longrightarrow> tab s' = tab s \<and> cnt s' = cnt s"
    and fin_state: "1 \<le> cnt s \<Longrightarrow> \<exists>s'. fin s = Ret s' \<and> near s s' \<and> same_refs s s' \<and> tab s' = tab s \<and> cnt s' = cnt s - 1"
begin

lemma line_near: "line_inv cnt g s \<Longrightarrow> near s s' \<Longrightarrow> cnt s' = cnt s \<Longrightarrow> line_inv cnt g s'"
  by (simp add: line_inv_def lines_ok_def near_def)

lemma line_calm: "line_inv cnt g s \<Longrightarrow> calm s s' \<Longrightarrow> line_inv cnt g s' \<and> tab s' = tab s"
  using own_state [OF calm_more] by (auto intro: line_near calm_near)

lemma line_leave:
  assumes "line_inv cnt g s" "i < length g" "mem_ok F s"
  shows "\<exists>s'. fin s = Ret s' \<and> line_inv cnt (drop_nth i g) s' \<and> near s s' \<and> tab s' = tab s \<and> mem_ok F s'"
proof -
  have "1 \<le> cnt s" using assms(1,2) by (simp add: line_inv_def)
  from fin_state [OF this] obtain s' where s': "fin s = Ret s'" "near s s'" "same_refs s s'" "tab s' = tab s" "cnt s' = cnt s - 1"
    by blast
  have "line_inv cnt (drop_nth i g) s'"
    using assms(1) s'(2,5) drop_nth_less [OF assms(2)] set_drop_nth [of i g]
    by (auto simp: line_inv_def lines_ok_def near_def)
  with s' mem_ok_same [OF s'(3)] assms(3) show ?thesis by blast
qed

lemma direct_sender_keeps:
  assumes "line_inv cnt g s" "base_ok s" "mem_ok F s" "i < length g"
  shows "run_keeps (\<lambda>((c, sq), s'). near s s' \<and> tab s' = tab s \<and> mem_ok F s' \<and>
      (if c = Exit then line_inv cnt (drop_nth i g) s' else sq = uwq s \<and> line_inv cnt g s'))
    (direct_sender fin (tran_send e fr) cq pick (uwq s) s)"
proof -
  let ?J = "\<lambda>((c, sq), s'). near s s' \<and> tab s' = tab s \<and> mem_ok F s' \<and>
      (if c = Exit then line_inv cnt (drop_nth i g) s' else sq = uwq s \<and> line_inv cnt g s')"
  have leave: "run_keeps ?J (run_bind (fin t) (\<lambda>t'. Ret ((Exit, q), t')))" if "calm s t" "mem_ok F t" for t q
  proof -
    from line_calm [OF assms(1) that(1)] have "line_inv cnt g t" "tab t = tab s" by simp_all
    with line_leave [OF _ assms(4) that(2)] near_trans [OF calm_near [OF that(1)]] show ?thesis by fastforce
  qed
  have serve: "run_keeps ?J (run_bind (ch_recv (uwq s) s) (\<lambda>(m, s1).
      case m of
        None \<Rightarrow> Ret ((Loop, SendChannel s1), s1)
      | Some r \<Rightarrow> run_bind (tran_send e fr r s1) (\<lambda>(er, s2).
          if er \<noteq> None then run_bind (fin (Free r s2)) (\<lambda>t'. Ret ((Exit, uwq s), t')) else Ret ((Loop, uwq s), s2))))"
  proof (cases "cbuf (chans s (uwq s))")
    case Nil
    with base_okD(1) [OF assms(2)] show ?thesis by (simp add: ch_recv_cases)
  next
    case (Cons m ms)
    let ?s1 = "pop_on (uwq s) s"
    have m: "mem_ok (add_mset m F) ?s1" using assms(3) Cons by (rule mem_ok_pop)
    obtain s2 where s2: "tran_send e fr m ?s1 = Ret (e, s2)" "calm ?s1 s2" "mem_ok (if e = None then F else add_mset m F) s2"
      using tran_send_mem [OF m] by blast
    have c: "calm s s2" by (rule calm_trans [OF _ s2(2)]) simp
    show ?thesis
    proof (cases e)
      case None
      from line_calm [OF assms(1) c] calm_near [OF c] None Cons s2 show ?thesis by (simp add: ch_recv_cases)
    next
      case (Some x)
      have "calm s (Free m s2)" using c by (rule calm_trans) simp
      moreover have "mem_ok F (Free m s2)" using s2(3) Some by (simp add: mem_ok_Free)
      ultimately show ?thesis using leave [of "Free m s2" "uwq s"] Some Cons s2(1) by (simp add: ch_recv_cases)
    qed
  qed
  show ?thesis
  proof (cases "go_select [(DMsg, recv_ready (uwq s) s), (DGone, recv_ready cq s), (DClose, closeq s)] None pick")
    case None
    then show ?thesis by (simp add: direct_sender_def)
  next
    case (Some d)
    have stop: "run_keeps ?J (run_bind (fin s) (\<lambda>t'. Ret ((Exit, uwq s), t')))"
      by (rule leave [OF _ assms(3)]) simp
    from Some show ?thesis
      unfolding direct_sender_def Let_def
      by (cases d) (simp_all only: option.case direct_arm.case stop serve)
  qed
qed

lemma line_send_keeps:
  assumes "line_inv cnt g s" "base_ok s" "mem_ok F s"
  shows "run_keeps (\<lambda>(g', s'). line_inv cnt g' s' \<and> near s s' \<and> tab s' = tab s \<and> mem_ok F s') (line_send fin i pick e fr g s)"
proof (cases "i < length g")
  case True
  have sq: "snd (g ! i) = uwq s" using assms(1) nth_mem [OF True] by (simp add: line_inv_def lines_ok_def)
  then have same: "g[i := (fst (g ! i), uwq s)] = g" using True by (metis list_update_id prod.collapse)
  from True show ?thesis
    unfolding line_send_def sq
    by simp (rule run_keeps_bind [OF direct_sender_keeps [OF assms True]], auto simp: same split: if_splits)
qed (simp add: line_send_def)

end

section \<open>The system\<close>

text \<open>
  A sender that the protocol starts for a pipe: its peer's channel is the one the protocol made
  for the pipe, the first new one.
\<close>

fun is_sender :: "goroutine \<Rightarrow> bool" where
  "is_sender (GPipeSender p) = True"
| "is_sender _ = False"

definition line_starts :: "'a socket_scheme \<Rightarrow> 'a socket_scheme \<Rightarrow> lines \<Rightarrow> lines" where
  "line_starts s s' g = g @ map (\<lambda>_. (nextc s, SendChannel s')) (filter is_sender (started s s'))"

text \<open>
  \<open>LSend\<close> is a round of a sender, \<open>LArrive\<close> and \<open>LLost\<close> are rounds of a receiver whose endpoint
  returned a message or nil, \<open>LCore\<close> is a step of the core.
\<close>

datatype line_event =
    LSend nat direct_arm "err option" bool
  | LArrive up_arm mref pref bytes
  | LLost up_arm
  | LCore core_event

fun line_own ::
  "'a socket_scheme protocol_ops \<Rightarrow> ('a socket_scheme \<Rightarrow> 'a socket_scheme run) \<Rightarrow>
   (up_arm \<Rightarrow> cref \<Rightarrow> mref option \<Rightarrow> 'a socket_scheme \<Rightarrow> (ctl \<times> 'a socket_scheme) run) \<Rightarrow>
   line_event \<Rightarrow> lines \<Rightarrow> 'a socket_scheme \<Rightarrow> (lines \<times> 'a socket_scheme) run" where
  "line_own ops fin rcver (LSend i pick e fr) g s = line_send fin i pick e fr g s"
| "line_own ops fin rcver (LArrive pick fresh p b) g s = line_arrive rcver pick fresh p b g s"
| "line_own ops fin rcver (LLost pick) g s = run_bind (rcver pick (urq s) None s) (\<lambda>(c, s'). Ret (g, s'))"
| "line_own ops fin rcver (LCore e) g s = core_step ops line_starts e g s"

text \<open>The whole invariant: the senders', and \<open>J\<close>, what the protocol says of its peers.\<close>

definition line_ok :: "('a socket_scheme \<Rightarrow> int) \<Rightarrow> ('a socket_scheme \<Rightarrow> bool) \<Rightarrow> lines \<Rightarrow> 'a socket_scheme \<Rightarrow> bool" where
  "line_ok cnt J g s \<longleftrightarrow> line_inv cnt g s \<and> J s"

text \<open>
  The contract: the receiver is one of the above, hooks and options leave channels, peers and
  the count alone, and \<open>J\<close> survives the core.
\<close>

locale line_sys = line_state tab cnt fin
  for tab :: "'a socket_scheme \<Rightarrow> 't" and cnt :: "'a socket_scheme \<Rightarrow> int"
    and fin :: "'a socket_scheme \<Rightarrow> 'a socket_scheme run" +
  fixes ops :: "'a socket_scheme protocol_ops"
    and rcver :: "up_arm \<Rightarrow> cref \<Rightarrow> mref option \<Rightarrow> 'a socket_scheme \<Rightarrow> (ctl \<times> 'a socket_scheme) run"
    and J :: "'a socket_scheme \<Rightarrow> bool"
  assumes rcver_some: "receives rcver" and rcver_none: "rcver pick rq None s = Ret (Exit, s)"
    and J_grown: "J s \<Longrightarrow> tab s' = tab s \<Longrightarrow> grown s s' \<Longrightarrow> J s'"
    and hook_same: "op_SendHook ops = Some hook \<or> op_RecvHook ops = Some hook \<Longrightarrow> \<exists>b. hook m s = Ret (b, s)"
    and set_same: "op_SetOption ops n v s = (e, s') \<Longrightarrow> tab s' = tab s \<and> cnt s' = cnt s \<and>
        heap.truncate s' = heap.truncate s \<and> uwq s' = uwq s \<and> urq s' = urq s \<and> active s' = active s"
    and shut_same: "op_Shutdown ops ord s = Ret s"
    and close_peer: "J s \<Longrightarrow> base_ok s \<Longrightarrow>
        \<exists>s'. pipe_Close ops p s = Ret s' \<and> J s' \<and> core_same s s' \<and> cnt s' = cnt s \<and> gos s' = gos s"
    and add_peer: "J s \<Longrightarrow> base_ok s \<Longrightarrow> p < nextp s \<Longrightarrow> \<not> p_closing (ptab s p) \<Longrightarrow> p_sock (ptab s p) \<Longrightarrow>
        \<exists>s'. op_AddEndpoint ops p s = Ret s' \<and> J s' \<and> core_same s s' \<and>
          cnt s' = cnt s + int (length (filter is_sender (started s s')))"
begin

lemma line_ok_near: "line_ok cnt J g s \<Longrightarrow> line_inv cnt g' s' \<Longrightarrow> near s s' \<Longrightarrow> tab s' = tab s \<Longrightarrow> line_ok cnt J g' s'"
  using J_grown grown_near by (auto simp: line_ok_def)

lemma line_ok_same:
  assumes "line_ok cnt J g s" "tab s' = tab s" "cnt s' = cnt s" "grown s s'" "uwq s' = uwq s \<or> \<not> active s" "active s \<longrightarrow> active s'"
  shows "line_ok cnt J g s'"
  using assms J_grown by (auto simp: line_ok_def line_inv_def lines_ok_def)

lemma line_ok_more:
  "line_ok cnt J g s \<Longrightarrow> socket.more s' = socket.more s \<Longrightarrow> grown s s' \<Longrightarrow>
   uwq s' = uwq s \<or> \<not> active s \<Longrightarrow> (active s \<longrightarrow> active s') \<Longrightarrow> line_ok cnt J g s'"
  using own_state [of s' s] by (intro line_ok_same [of g s s']) auto

sublocale lcore: core_sys ops line_starts "line_ok cnt J" "\<lambda>_ _. {#}"
proof unfold_locales
  fix g s s' t p ord
  show "line_ok cnt J g s'" if "line_ok cnt J g s" "socket.more s' = socket.more s" "grown s s'"
      "uwq s' = uwq s \<or> \<not> active s" "active s \<longrightarrow> active s'"
    using that by (rule line_ok_more)
  show "line_starts s s' g = g" if "gos s' = gos s" using that by (simp add: line_starts_def)
  show "line_starts s s' g = line_starts t s' g" if "gos t = gos s" "nextc t = nextc s"
    using that by (simp add: line_starts_def started_def)
  show "\<exists>s'. pipe_Close ops p s = Ret s' \<and> line_ok cnt J g s' \<and> core_same s s' \<and> {#} = {#} \<and> gos s' = gos s"
    if i: "line_ok cnt J g s" "base_ok s"
  proof -
    from close_peer [of s p] i obtain s' where s': "pipe_Close ops p s = Ret s'" "J s'" "core_same s s'" "cnt s' = cnt s" "gos s' = gos s"
      by (auto simp: line_ok_def)
    with i core_same_keeps(3,4) [OF s'(3)] show ?thesis by (auto simp: line_ok_def line_inv_def lines_ok_def)
  qed
  show "\<exists>s'. op_AddEndpoint ops p s = Ret s' \<and> line_ok cnt J (line_starts s s' g) s' \<and> core_same s s' \<and> {#} = {#}"
    if i: "line_ok cnt J g s" "base_ok s" "active s" and p: "p < nextp s" "\<not> p_closing (ptab s p)" "p_sock (ptab s p)"
  proof -
    from add_peer [OF _ i(2) p] i(1) obtain s' where s': "op_AddEndpoint ops p s = Ret s'" "J s'" "core_same s s'"
        "cnt s' = cnt s + int (length (filter is_sender (started s s')))"
      by (auto simp: line_ok_def)
    with i core_same_keeps(3,4) [OF s'(3)] show ?thesis
      by (auto simp: line_ok_def line_inv_def lines_ok_def line_starts_def SendChannel_def)
  qed
  show "\<exists>s'. op_Shutdown ops ord s = Ret s' \<and> line_ok cnt J g s' \<and> core_same s s' \<and> {#} = {#}" if "line_ok cnt J g s"
    using that by (simp add: shut_same core_same_def)
qed simp

sublocale lsock: sock_sys ops "line_ok cnt J" "\<lambda>_ _. {#}" "line_own ops fin rcver"
proof unfold_locales
  fix g s s' i k hook m F n v e
  show "line_ok cnt J g s'" if "line_ok cnt J g s" "calm s s'"
    using that line_calm [of g s s'] by (intro line_ok_near [OF that(1)]) (auto simp: line_ok_def intro: calm_near)
  show "line_ok cnt J g s'" if "line_ok cnt J g s" "socket.more s' = socket.more s" "heap.truncate s' = heap.truncate s"
      "uwq s' = uwq s" "urq s' = urq s" "active s \<longrightarrow> active s'"
    using that by (intro line_ok_more [OF that(1)] grown_conf) simp_all
  show "line_ok cnt J g (close_on (uwq s) (s\<lparr>uwqLen := i, chans := (chans s)(nextc s := make_chan k), nextc := Suc (nextc s), uwq := nextc s\<rparr>))"
    if "line_ok cnt J g s" "\<not> active s"
    by (rule line_ok_more [OF that(1) _ grown_queues(1)]) (simp_all add: that close_on_def)
  show "line_ok cnt J g (s\<lparr>urqLen := i, chans := (chans s)(nextc s := make_chan k), nextc := Suc (nextc s), urq := nextc s\<rparr>)"
    if "line_ok cnt J g s" "\<not> active s"
    by (rule line_ok_more [OF that(1) _ grown_queues(2)]) (simp_all add: that)
  show "\<exists>b s'. hook m s = Ret (b, s') \<and> line_ok cnt J g s' \<and> base_ok s' \<and> mem_ok (add_mset m F + {#}) s'"
    if "op_SendHook ops = Some hook \<or> op_RecvHook ops = Some hook" "line_ok cnt J g s" "base_ok s" "mem_ok (add_mset m F + {#}) s"
    using hook_same [OF that(1), of m s] that(2-) by auto
  show "line_ok cnt J g s' \<and> base_ok s' \<and> mem_ok (F + {#}) s'"
    if "line_ok cnt J g s" "base_ok s" "mem_ok (F + {#}) s" "op_SetOption ops n v s = (e, s')"
  proof -
    note S = set_same [OF that(4)]
    have "line_ok cnt J g s'" using S by (intro line_ok_same [OF that(1)] grown_conf) simp_all
    moreover have "base_ok s'" using that(2) S by (simp add: base_ok_def heap.defs)
    moreover have "mem_ok F s'" using that(3) S mem_ok_same [OF same_refs_truncate, of s' s F] by simp
    ultimately show ?thesis by simp
  qed
next
  fix F g s and e :: line_event
  assume i: "line_ok cnt J g s" "base_ok s" "mem_ok (F + {#}) s"
  from i have m: "line_inv cnt g s" "mem_ok F s" by (simp_all add: line_ok_def)
  show "run_keeps (\<lambda>(g', s'). line_ok cnt J g' s' \<and> base_ok s' \<and> mem_ok (F + {#}) s') (line_own ops fin rcver e g s)"
  proof (cases e)
    case (LSend j pick er fr)
    show ?thesis unfolding LSend line_own.simps
      by (rule run_keeps_mono [OF line_send_keeps [OF m(1) i(2) m(2)]])
         (auto intro: line_ok_near [OF i(1)] near_base [OF _ i(2)])
  next
    case (LArrive pick fresh p b)
    show ?thesis unfolding LArrive line_own.simps
      by (rule run_keeps_mono [OF line_arrive_keeps [OF rcver_some i(2) m(2)]])
         (use line_calm [OF m(1)] in \<open>auto intro: line_ok_near [OF i(1)] calm_near calm_base [OF _ i(2)]\<close>)
  next
    case (LLost pick)
    with i show ?thesis by (simp add: rcver_none)
  next
    case (LCore c)
    show ?thesis unfolding LCore line_own.simps
      by (rule run_keeps_mono [OF lcore.core_keeps [of F g s]]) (use i in \<open>auto simp: lcore.core_inv_iff\<close>)
  qed
qed simp

text \<open>A new socket, without senders.\<close>

lemma line_new:
  assumes "mem_ok {#} s" "\<And>t. socket.more t = socket.more s \<Longrightarrow> base_ok t \<Longrightarrow>
      core_same t (op_Init ops t) \<and> 0 \<le> cnt (op_Init ops t) \<and> J (op_Init ops t)"
  shows "sock_inv (line_ok cnt J) (\<lambda>_ _. {#}) ([], [], newSocket ops s)"
proof -
  obtain t where t: "newSocket ops s = op_Init ops t" "mem_ok {#} t" "base_ok t" "socket.more t = socket.more s"
    using newSocket_init [OF assms(1)] by blast
  with assms(2) [OF t(4,3)] core_same_keeps(1,2) [of t "op_Init ops t"] show ?thesis
    by (simp add: sock_inv_def app_inv_iff line_ok_def line_inv_def lines_ok_def)
qed

end

end
