(* ===== verification/Line_Sockets.thy ===== *)
theory Line_Sockets
  imports Line_Sys Push Pull Pair Sub
begin

text \<open>
  Whole sockets of the protocols whose peers share the socket's queues: push, pull, pair and
  sub, with the application, the core, the senders and the receivers.
\<close>

section \<open>Push\<close>

definition push_wait :: "push \<Rightarrow> int" where
  "push_wait s = w_cnt (push_w s)"

definition push_peers_ok :: "push \<Rightarrow> bool" where
  "push_peers_ok s \<longleftrightarrow> peers_ok (push_cqs s) (resv s) s"

text \<open>The senders take from the send queue; what a peer sends is thrown away.\<close>

definition push_own :: "line_event \<Rightarrow> lines \<Rightarrow> push \<Rightarrow> (lines \<times> push) run" where
  "push_own = line_own push_ops push_fin (\<lambda>pick rq mo s. Ret (NullRecv mo s))"

lemma push_remove:
  assumes "push_peers_ok t"
  shows "\<exists>t'. op_RemoveEndpoint push_ops p t = Ret t' \<and> (push_peers_ok t' \<and> push_wait t' = push_wait t) \<and>
    core_same t t' \<and> gos t' = gos t"
proof -
  from push_tab.rem_ok [OF assms [unfolded push_peers_ok_def], of p] obtain t' where
    t': "push_RemoveEndpoint p t = Ret t'" "push_peers_ok t'" by (auto simp: push_peers_ok_def)
  have q: "he_cq e \<notin> resv t" if "push_eps t i = Some e" for i e
    using assms peers_okD [of "push_cqs t" "resv t" t i "he_cq e"] that by (simp add: push_peers_ok_def push_cqs_def)
  have "core_same t t'" "push_wait t' = push_wait t" "gos t' = gos t"
    using t'(1) q
    by (auto simp: push_RemoveEndpoint_def ch_close_cases close_on_def push_wait_def Let_def same_refs_def
        intro!: core_sameI split: option.splits if_splits)
  with t' show ?thesis by (simp add: push_ops_def)
qed

lemma push_pipe: "pipe_same a b \<Longrightarrow> push_peers_ok b = push_peers_ok a \<and> push_wait b = push_wait a"
  using pipe_same_peers [of a b] pipe_same_resv [of a b]
  by (cases a; cases b) (simp add: push_peers_ok_def push_wait_def push_cqs_def pipe_same_def)

interpretation push_line: line_sys push_cqs push_wait push_fin push_ops "\<lambda>pick rq mo s. Ret (NullRecv mo s)" push_peers_ok
proof unfold_locales
  fix s s' :: push and p hook m n v e ord pick rq
  show "push_cqs s' = push_cqs s \<and> push_wait s' = push_wait s" if "socket.more s' = socket.more s"
    using that by (cases s; cases s') (simp add: push_cqs_def push_wait_def)
  show "\<exists>s'. push_fin s = Ret s' \<and> near s s' \<and> same_refs s s' \<and> push_cqs s' = push_cqs s \<and> push_wait s' = push_wait s - 1"
    if "1 \<le> push_wait s"
    using that by (auto simp: push_fin_def push_wait_def push_cqs_def w_Done_def near_def same_refs_def)
  show "push_peers_ok s'" if "push_peers_ok s" "push_cqs s' = push_cqs s" "grown s s'"
    using that grown_peers by (simp add: push_peers_ok_def)
  show "\<exists>b. hook m s = Ret (b, s)" if "op_SendHook push_ops = Some hook \<or> op_RecvHook push_ops = Some hook"
    using that by (simp add: push_ops_def)
  show "push_cqs s' = push_cqs s \<and> push_wait s' = push_wait s \<and> heap.truncate s' = heap.truncate s \<and>
      uwq s' = uwq s \<and> urq s' = urq s \<and> active s' = active s" if "op_SetOption push_ops n v s = (e, s')"
    using that by (auto simp: push_ops_def push_SetOption_def push_cqs_def push_wait_def heap.defs split: if_splits goval.splits)
  show "op_Shutdown push_ops ord s = Ret s" by (simp add: push_ops_def push_Shutdown_def)
  show "\<exists>s'. pipe_Close push_ops p s = Ret s' \<and> push_peers_ok s' \<and> core_same s s' \<and> push_wait s' = push_wait s \<and> gos s' = gos s"
    if "push_peers_ok s"
  proof -
    have "\<exists>s'. pipe_Close push_ops p s = Ret s' \<and> (push_peers_ok s' \<and> push_wait s' = push_wait s) \<and> core_same s s' \<and> gos s' = gos s"
      by (rule pipe_Close_keeps) (use that push_pipe in simp_all, metis push_remove)
    then show ?thesis by blast
  qed
  show "\<exists>s'. op_AddEndpoint push_ops p s = Ret s' \<and> push_peers_ok s' \<and> core_same s s' \<and>
      push_wait s' = push_wait s + int (length (filter is_sender (started s s')))"
    if "push_peers_ok s" "base_ok s"
  proof -
    have "core_same s (push_AddEndpoint p s)"
      by (rule core_same_chan [OF that(2)]) (simp_all add: push_AddEndpoint_def new_chan_def spawn_def Let_def)
    moreover have "push_wait (push_AddEndpoint p s) = push_wait s + int (length (filter is_sender (started s (push_AddEndpoint p s))))"
      by (simp add: push_AddEndpoint_def new_chan_def spawn_def started_def push_wait_def w_Add_def Let_def)
    ultimately show ?thesis using push_tab.add_ok that(1) by (simp add: push_ops_def push_peers_ok_def)
  qed
qed (rule receives_null, simp add: NullRecv_def)

lemma push_new: "sock_inv (line_ok push_wait push_peers_ok) (\<lambda>_ _. {#}) ([], [], push_NewSocket (socket0 x))"
  unfolding push_NewSocket_def
  by (rule push_line.line_new)
     (auto simp: push_ops_def push_Init_def push_wait_def push_peers_ok_def push_cqs_def peers_ok_def base_ok_def
        resv_def same_refs_def w_Init_def sock_eff push_NewProtocol_def mem_ok_same [of "socket0 x"] intro!: core_sameI)

section \<open>Sockets without senders\<close>

text \<open>Pull and sub start a receiver for each pipe and keep no record of it.\<close>

locale recv_sys =
  fixes ops :: "'a socket_scheme protocol_ops"
    and rcver :: "up_arm \<Rightarrow> cref \<Rightarrow> mref option \<Rightarrow> 'a socket_scheme \<Rightarrow> (ctl \<times> 'a socket_scheme) run"
  assumes recv_some: "receives rcver" and recv_none: "rcver pick rq None s = Ret (Exit, s)"
    and recv_hook: "op_SendHook ops = Some hook \<or> op_RecvHook ops = Some hook \<Longrightarrow> \<exists>b. hook m s = Ret (b, s)"
    and recv_set: "op_SetOption ops n v s = (e, s') \<Longrightarrow>
        heap.truncate s' = heap.truncate s \<and> uwq s' = uwq s \<and> urq s' = urq s \<and> active s' = active s"
    and recv_shut: "op_Shutdown ops ord s = Ret s"
    and recv_rem: "op_RemoveEndpoint ops p s = Ret s"
    and recv_add: "op_AddEndpoint ops p s = Ret (spawn (GReceiver p) s)"
begin

sublocale rline: line_sys "\<lambda>_. ()" "\<lambda>_. 0" Ret ops rcver "\<lambda>_. True"
proof unfold_locales
  fix s :: "'a socket_scheme" and p
  show "\<exists>s'. pipe_Close ops p s = Ret s' \<and> True \<and> core_same s s' \<and> 0 = (0 :: int) \<and> gos s' = gos s"
    using pipe_Close_keeps [of "\<lambda>_. True" s ops p] by (simp add: recv_rem core_same_def)
  have "core_same s (spawn (GReceiver p) s)" by (rule core_sameI) (simp_all add: spawn_def same_refs_def)
  then show "\<exists>s'. op_AddEndpoint ops p s = Ret s' \<and> True \<and> core_same s s' \<and>
      0 = (0 :: int) + int (length (filter is_sender (started s s')))"
    by (simp add: recv_add spawn_def started_def)
qed (use recv_some recv_none recv_hook recv_set recv_shut in auto)

end

definition pull_own :: "line_event \<Rightarrow> lines \<Rightarrow> pull \<Rightarrow> (lines \<times> pull) run" where
  "pull_own = line_own pull_ops Ret pull_receiver"

interpretation pull_line: recv_sys pull_ops pull_receiver
  by unfold_locales
     (auto simp: pull_ops_def pull_receiver_def receives_direct direct_receiver_def pull_SendHook_def pull_SetOption_def
        pull_Shutdown_def pull_RemoveEndpoint_def pull_AddEndpoint_def heap.defs split: if_splits goval.splits)

lemma pull_new: "sock_inv (line_ok (\<lambda>_. 0) (\<lambda>_. True)) (\<lambda>_ _. {#}) ([], [], pull_NewSocket (socket0 x))"
  unfolding pull_NewSocket_def
  by (rule pull_line.rline.line_new)
     (auto simp: pull_ops_def pull_Init_def same_refs_def sock_eff pull_NewProtocol_def mem_ok_same [of "socket0 x"]
        intro!: core_sameI)

text \<open>A sub socket frees what it has not subscribed to, and what finds the queue full.\<close>

definition sub_own :: "line_event \<Rightarrow> lines \<Rightarrow> sub \<Rightarrow> (lines \<times> sub) run" where
  "sub_own = line_own sub_ops Ret sub_receiver"

lemma receives_sub: "receives sub_receiver"
  unfolding receives_def sub_receiver_def
  by (auto intro!: run_keeps_bind [OF up_try_keeps] intro: calm_Free mem_ok_Free split: if_splits option.splits bool.splits)

interpretation sub_line: recv_sys sub_ops sub_receiver
proof unfold_locales
  show "heap.truncate s' = heap.truncate s \<and> uwq s' = uwq s \<and> urq s' = urq s \<and> active s' = active s"
    if "op_SetOption sub_ops n v s = (e, s')" for n v s e s'
    using that by (auto simp: sub_ops_def sub_SetOption_def heap.defs Let_def split: if_splits goval.splits option.splits)
qed (simp_all add: sub_ops_def receives_sub sub_receiver_def sub_Shutdown_def sub_RemoveEndpoint_def sub_AddEndpoint_def)

lemma sub_new: "sock_inv (line_ok (\<lambda>_. 0) (\<lambda>_. True)) (\<lambda>_ _. {#}) ([], [], sub_NewSocket (socket0 x))"
  unfolding sub_NewSocket_def
  by (rule sub_line.rline.line_new)
     (auto simp: sub_ops_def sub_Init_def same_refs_def sock_eff sub_NewProtocol_def mem_ok_same [of "socket0 x"]
        intro!: core_sameI)

section \<open>Pair\<close>

definition pair_wait :: "pair \<Rightarrow> int" where
  "pair_wait s = w_cnt (pair_w s)"

text \<open>The peer's pipe is one that was made.\<close>

definition pair_peer_ok :: "pair \<Rightarrow> bool" where
  "pair_peer_ok s \<longleftrightarrow> pair_ok s \<and> (case pair_peer s of None \<Rightarrow> True | Some pe \<Rightarrow> ae_ep pe < nextp s)"

definition pair_own :: "line_event \<Rightarrow> lines \<Rightarrow> pair \<Rightarrow> (lines \<times> pair) run" where
  "pair_own = line_own pair_ops pair_fin pair_receiver"

lemma pair_grown:
  assumes "pair_peer_ok s" "pair_peer s' = pair_peer s" "grown s s'"
  shows "pair_peer_ok s'"
proof -
  have r: "\<forall>q \<in> resv s'. q < nextc s'" using assms(1,3) by (fastforce simp: pair_peer_ok_def pair_ok_def grown_def)
  show ?thesis
  proof (cases "pair_peer s")
    case None
    with r assms(2) show ?thesis by (simp add: pair_peer_ok_def pair_ok_def)
  next
    case (Some pe)
    with assms(1) have "ae_cq pe < nextc s" "\<not> cclosed (chans s (ae_cq pe))" "ae_cq pe \<notin> resv s" "\<not> p_closing (ptab s (ae_ep pe))"
        "p_sock (ptab s (ae_ep pe))" "ae_ep pe < nextp s"
      by (simp_all add: pair_peer_ok_def pair_ok_def)
    with r Some assms(2,3) show ?thesis by (auto simp: pair_peer_ok_def pair_ok_def grown_def resv_def)
  qed
qed

text \<open>Closing a pipe, of the peer or of another.\<close>

lemma pair_close:
  assumes "pair_peer_ok s"
  shows "\<exists>s'. pipe_Close pair_ops p s = Ret s' \<and> pair_peer_ok s' \<and> core_same s s' \<and> pair_wait s' = pair_wait s \<and> gos s' = gos s"
proof -
  have op: "pipe_Close pair_ops = ep_Close pair_RemoveEndpoint" by (simp add: pipe_Close_def pair_ops_def)
  have "pair_ok s" using assms by (simp add: pair_peer_ok_def)
  from pair_close_ok [OF this] obtain s' where s': "ep_Close pair_RemoveEndpoint p s = Ret s'" "pair_ok s'" by blast
  have pe: "ae_cq pe \<notin> resv s" if "pair_peer s = Some pe" for pe
    using assms that by (simp add: pair_peer_ok_def pair_ok_def)
  have "core_same s s' \<and> pair_wait s' = pair_wait s \<and> gos s' = gos s \<and> (pair_peer s' = pair_peer s \<or> pair_peer s' = None) \<and>
      nextp s' = nextp s"
    using s'(1) pe
    by (auto simp: ep_Close_def remPipe_def pair_RemoveEndpoint_def upd_pipe_def ch_close_cases close_on_def
        pair_wait_def same_refs_def Let_def intro!: core_sameI split: if_splits option.splits)
  with s' assms op show ?thesis by (cases "pair_peer s") (auto simp: pair_peer_ok_def)
qed

interpretation pair_line: line_sys pair_peer pair_wait pair_fin pair_ops pair_receiver pair_peer_ok
proof unfold_locales
  fix s s' :: pair and p hook m n v e ord pick rq
  show "pair_peer s' = pair_peer s \<and> pair_wait s' = pair_wait s" if "socket.more s' = socket.more s"
    using that by (cases s; cases s') (simp add: pair_wait_def)
  show "\<exists>s'. pair_fin s = Ret s' \<and> near s s' \<and> same_refs s s' \<and> pair_peer s' = pair_peer s \<and> pair_wait s' = pair_wait s - 1"
    if "1 \<le> pair_wait s"
    using that by (auto simp: pair_fin_def pair_wait_def w_Done_def near_def same_refs_def)
  show "pair_peer_ok s'" if "pair_peer_ok s" "pair_peer s' = pair_peer s" "grown s s'" using that by (rule pair_grown)
  show "\<exists>b. hook m s = Ret (b, s)" if "op_SendHook pair_ops = Some hook \<or> op_RecvHook pair_ops = Some hook"
    using that by (simp add: pair_ops_def)
  show "pair_peer s' = pair_peer s \<and> pair_wait s' = pair_wait s \<and> heap.truncate s' = heap.truncate s \<and>
      uwq s' = uwq s \<and> urq s' = urq s \<and> active s' = active s" if "op_SetOption pair_ops n v s = (e, s')"
    using that by (auto simp: pair_ops_def pair_SetOption_def pair_wait_def heap.defs split: if_splits goval.splits)
  show "op_Shutdown pair_ops ord s = Ret s" by (simp add: pair_ops_def pair_Shutdown_def)
  show "\<exists>s'. pipe_Close pair_ops p s = Ret s' \<and> pair_peer_ok s' \<and> core_same s s' \<and> pair_wait s' = pair_wait s \<and> gos s' = gos s"
    if "pair_peer_ok s" using that by (rule pair_close)
  show "\<exists>s'. op_AddEndpoint pair_ops p s = Ret s' \<and> pair_peer_ok s' \<and> core_same s s' \<and>
      pair_wait s' = pair_wait s + int (length (filter is_sender (started s s')))"
    if j: "pair_peer_ok s" and b: "base_ok s" and p: "p < nextp s" "\<not> p_closing (ptab s p)" "p_sock (ptab s p)"
  proof -
    let ?t = "snd (new_chan 0 s)"
    have t: "core_same s ?t" "grown s ?t" "pair_peer ?t = pair_peer s" "pair_wait ?t = pair_wait s" "gos ?t = gos s"
      by (rule core_same_chan [OF b], simp_all add: new_chan_def grown_def resv_def pair_wait_def)
    show ?thesis
    proof (cases "pair_peer s")
      case None
      from pair_add_first [OF None _ p(2,3)] j obtain s' where s': "pair_AddEndpoint p s = Ret s'" "pair_ok s'"
          "map_option ae_ep (pair_peer s') = Some p" by (auto simp: pair_peer_ok_def)
      from s'(1) None have "chans s' = (chans s)(nextc s := make_chan 0)" "nextc s' = Suc (nextc s)" "msgs s' = msgs s"
          "nextm s' = nextm s" "mpool s' = mpool s" "uwq s' = uwq s" "urq s' = urq s" "active s' = active s" "nextp s' = nextp s"
          "pair_wait s' = pair_wait s + 1" "started s s' = [GReceiver p, GPipeSender p]"
        by (auto simp: pair_AddEndpoint_def new_chan_def spawn_def Let_def pair_wait_def w_Add_def started_def)
      with s' p(1) core_same_chan [OF b, of s' 0] show ?thesis by (auto simp: pair_peer_ok_def pair_ops_def)
    next
      case (Some pe)
      from pair_close [OF pair_grown [OF j t(3,2)], of p] obtain s' where s': "pipe_Close pair_ops p ?t = Ret s'" "pair_peer_ok s'"
          "core_same ?t s'" "pair_wait s' = pair_wait ?t" "gos s' = gos ?t" by blast
      with Some t(3) have "op_AddEndpoint pair_ops p s = Ret s'"
        by (simp add: pair_ops_def pair_AddEndpoint_def pipe_Close_def new_chan_def Let_def)
      with s' core_same_trans [OF t(1) s'(3)] t(4,5) show ?thesis by auto
    qed
  qed
qed (simp_all add: pair_receiver_def receives_direct direct_receiver_def)

lemma pair_new: "sock_inv (line_ok pair_wait pair_peer_ok) (\<lambda>_ _. {#}) ([], [], pair_NewSocket (socket0 x))"
  unfolding pair_NewSocket_def
proof (rule pair_line.line_new)
  fix t :: pair assume t: "socket.more t = socket.more (pair_NewProtocol (socket0 x))" "base_ok t"
  from pair_line.own_state [OF t(1)] have "pair_peer t = None" by (simp add: pair_NewProtocol_def)
  with t(2) show "core_same t (op_Init pair_ops t) \<and> 0 \<le> pair_wait (op_Init pair_ops t) \<and> pair_peer_ok (op_Init pair_ops t)"
    by (auto simp: pair_ops_def pair_Init_def pair_wait_def pair_peer_ok_def pair_ok_def base_ok_def resv_def same_refs_def
        w_Init_def intro!: core_sameI)
qed (simp add: pair_NewProtocol_def mem_ok_same [of "socket0 x"] same_refs_def)

text \<open>A connection to a pair: it becomes the peer if there is none, and else is closed at once.\<close>

lemma pair_close_other:
  assumes "\<And>pe. pair_peer s = Some pe \<Longrightarrow> ae_ep pe \<noteq> p"
  shows "\<exists>s'. pipe_Close pair_ops p s = Ret s' \<and> pair_peer s' = pair_peer s"
proof -
  have same: "pair_peer b = pair_peer a" if "pipe_same a b" for a b :: pair
    using pair_line.own_state [of b a] that by (simp add: pipe_same_def)
  from pipe_Close_cases [of s pair_ops p] show ?thesis
  proof (elim disjE exE conjE)
    fix t assume "pipe_same s t" "pipe_Close pair_ops p s = Ret t"
    with same show ?thesis by blast
  next
    fix t assume t: "pipe_same s t" and r: "\<forall>t'. op_RemoveEndpoint pair_ops p t = Ret t' \<longrightarrow>
        (\<exists>u. pipe_same t' u \<and> pipe_Close pair_ops p s = Ret u)"
    have "op_RemoveEndpoint pair_ops p t = Ret t"
      using pair_remove_other [of t p] assms same [OF t] by (simp add: pair_ops_def)
    with r obtain u where "pipe_same t u" "pipe_Close pair_ops p s = Ret u" by blast
    with same [OF t] same [of t u] show ?thesis by auto
  qed
qed

lemma pair_connection:
  assumes "pair_peer_ok s"
  shows "run_keeps (\<lambda>(p, t). map_option ae_ep (pair_peer t) = (case pair_peer s of None \<Rightarrow> p | Some pe \<Rightarrow> Some (ae_ep pe)) \<and>
    (case p of None \<Rightarrow> True | Some i \<Rightarrow> p_closing (ptab t i) = (pair_peer s \<noteq> None))) (addPipe pair_ops d l s)"
proof (cases "newPipe s")
  case None
  then show ?thesis by (simp add: addPipe_def)
next
  case (Some x)
  then obtain s0 where x: "newPipe s = Some (nextp s, s0)" by (cases x) (auto simp: newPipe_def)
  have peer: "ae_ep pe < nextp s" if "pair_peer s = Some pe" for pe using assms that by (simp add: pair_peer_ok_def)
  from addPipe_cases [OF x, of pair_ops d l] show ?thesis
  proof (elim disjE exE conjE)
    fix t assume t: "aside s t" and eq: "addPipe pair_ops d l s = run_bind (pipe_Close pair_ops (nextp s) t) (\<lambda>t'. Ret (None, t'))"
    have same: "pair_peer t = pair_peer s" using pair_line.own_state [OF asideD(1) [OF t]] by simp
    have "ae_ep pe \<noteq> nextp s" if "pair_peer t = Some pe" for pe using peer that same by fastforce
    then obtain t' where "pipe_Close pair_ops (nextp s) t = Ret t'" "pair_peer t' = pair_peer t"
      using pair_close_other [of t "nextp s"] by blast
    with same eq show ?thesis by (cases "pair_peer s") simp_all
  next
    fix t assume t: "aside s t" and eq: "addPipe pair_ops d l s = run_bind (op_AddEndpoint pair_ops (nextp s) t) (\<lambda>t'. Ret (Some (nextp s), t'))"
      and p: "\<not> p_closing (ptab t (nextp s))" "p_sock (ptab t (nextp s))"
    have same: "pair_peer t = pair_peer s" using pair_line.own_state [OF asideD(1) [OF t]] by simp
    from pair_grown [OF assms same asideD(2) [OF t]] have ok: "pair_ok t" by (simp add: pair_peer_ok_def)
    show ?thesis
    proof (cases "pair_peer s")
      case None
      with pair_add_first [OF _ ok p] same obtain t' where t': "pair_AddEndpoint (nextp s) t = Ret t'" "pair_ok t'"
          "map_option ae_ep (pair_peer t') = Some (nextp s)" by auto
      then have "\<not> p_closing (ptab t' (nextp s))" by (auto simp: pair_ok_def)
      with t' None eq show ?thesis by (simp add: pair_ops_def)
    next
      case (Some pe)
      with peer have "ae_ep pe \<noteq> nextp s" by fastforce
      from pair_add_second [OF _ this ok p(1)] Some same eq show ?thesis by (auto simp: pair_ops_def)
    qed
  qed
qed

end
