(* ===== verification/Req_Sys.thy ===== *)
theory Req_Sys
  imports Line_Sys Req
begin

text \<open>
  A whole req socket: the application, the core, the timer, the resender, and for each peer a
  sender and a receiver. The outstanding request is shared by the protocol's state, which
  keeps it until the reply, the resender and the senders that failed to deliver it.
\<close>

section \<open>The system\<close>

text \<open>
  A sender has its peer's record, the send channel it took when it started, and the message it
  has to give back to the resend channel before it leaves, if its endpoint failed.
\<close>

type_synonym req_line = "reqEp \<times> cref \<times> mref option"

type_synonym req_gos = "resender \<times> req_line list"

datatype req_own_event =
    RTake nat req_arm "err option" bool
  | RBack nat
  | RTick rs_arm
  | RResend
  | RFire
  | RArrive up_arm mref pref bytes
  | RLost up_arm
  | RCore core_event

text \<open>
  The goroutines that \<^verbatim>\<open>AddEndpoint\<close> starts: the resender for the first pipe, and the pipe's
  sender, whose peer's channel is the first new one.
\<close>

fun req_line_of :: "cref \<Rightarrow> cref \<Rightarrow> goroutine \<Rightarrow> req_line list" where
  "req_line_of q sq (GPipeSender ep) = [(\<lparr>qe_ep = ep, qe_cq = q\<rparr>, sq, None)]"
| "req_line_of q sq _ = []"

definition req_starts :: "req \<Rightarrow> req \<Rightarrow> req_gos \<Rightarrow> req_gos" where
  "req_starts s s' = (\<lambda>(r, ls).
     (if GResender \<in> set (started s s') then RsWait else r,
      ls @ concat (map (req_line_of (nextc s) (SendChannel s')) (started s s'))))"

fun req_own :: "u32 \<Rightarrow> req_own_event \<Rightarrow> req_gos \<Rightarrow> req \<Rightarrow> (req_gos \<times> req) run" where
  "req_own now (RTake i pick e fr) (r, ls) s =
     (if i < length ls
      then (case ls ! i of
              (pe, sq, Some m) \<Rightarrow> Block
            | (pe, sq, None) \<Rightarrow> run_bind (req_sender_take (tran_send e fr) pe pick sq s) (\<lambda>(st, s').
                Ret ((r, case st of SdLoop \<Rightarrow> ls | SdPush m \<Rightarrow> ls[i := (pe, sq, Some m)] | SdGone \<Rightarrow> drop_nth i ls), s')))
      else Block)"
| "req_own now (RBack i) (r, ls) s =
     (if i < length ls
      then (case ls ! i of
              (pe, sq, Some m) \<Rightarrow> run_bind (req_sender_push m s) (\<lambda>(st, s'). Ret ((r, drop_nth i ls), s'))
            | (pe, sq, None) \<Rightarrow> Block)
      else Block)"
| "req_own now (RTick pick) (r, ls) s =
     (if r = RsWait then run_bind (req_resender_wait pick s) (\<lambda>(r', s'). Ret ((r', ls), s')) else Block)"
| "req_own now RResend (r, ls) s =
     (case r of RsPush m \<Rightarrow> run_bind (req_resender_push m s) (\<lambda>(r', s'). Ret ((r', ls), s')) | _ \<Rightarrow> Block)"
| "req_own now RFire g s = run_bind (req_fire s) (\<lambda>s'. Ret (g, s'))"
| "req_own now (RArrive pick fresh p b) g s = line_arrive req_receiver pick fresh p b g s"
| "req_own now (RLost pick) g s = run_bind (req_receiver pick (urq s) None s) (\<lambda>(c, s'). Ret (g, s'))"
| "req_own now (RCore e) g s = core_step (req_ops now) req_starts e g s"

section \<open>The invariant\<close>

text \<open>The peers' channels, and the resend channel apart from them and from the socket's queues.\<close>

definition req_chans_ok :: "req \<Rightarrow> bool" where
  "req_chans_ok s \<longleftrightarrow> peers_ok (req_cqs s) (resv s) s \<and> req_resend s < nextc s \<and> \<not> cclosed (chans s (req_resend s)) \<and>
     req_resend s \<notin> resv s \<and> (\<forall>i. req_cqs s i \<noteq> Some (req_resend s))"

text \<open>The goroutines are counted by the waiter; the senders hold the socket's send channel.\<close>

definition req_gos_ok :: "req_gos \<Rightarrow> req \<Rightarrow> bool" where
  "req_gos_ok = (\<lambda>(r, ls) s. (\<forall>x \<in> set ls. fst (snd x) = uwq s) \<and> (ls \<noteq> [] \<longrightarrow> active s) \<and>
     (\<not> req_once s \<longrightarrow> r = RsGone) \<and> int (length ls) + (if r = RsGone then 0 else 1) \<le> w_cnt (req_w s))"

definition req_ok :: "req_gos \<Rightarrow> req \<Rightarrow> bool" where
  "req_ok g s \<longleftrightarrow> req_chans_ok s \<and> req_gos_ok g s"

definition opt_mset :: "'x option \<Rightarrow> 'x multiset" where
  "opt_mset x = (case x of None \<Rightarrow> {#} | Some m \<Rightarrow> {#m#})"

lemma opt_mset_simps [simp]: "opt_mset None = {#}" "opt_mset (Some m) = {#m#}"
  by (simp_all add: opt_mset_def)

definition line_refs :: "req_line list \<Rightarrow> mref multiset" where
  "line_refs ls = (\<Sum>x \<leftarrow> ls. opt_mset (snd (snd x)))"

definition rs_refs :: "resender \<Rightarrow> mref multiset" where
  "rs_refs r = (case r of RsPush m \<Rightarrow> {#m#} | _ \<Rightarrow> {#})"

text \<open>Who holds references outside the queues: the state, the resender and the senders.\<close>

definition req_held :: "req_gos \<Rightarrow> req \<Rightarrow> mref multiset" where
  "req_held = (\<lambda>(r, ls) s. opt_mset (req_reqmsg s) + rs_refs r + line_refs ls)"

lemma rs_refs_simps [simp]: "rs_refs RsWait = {#}" "rs_refs RsGone = {#}" "rs_refs (RsPush m) = {#m#}"
  by (simp_all add: rs_refs_def)

lemma line_refs_simps [simp]:
  "line_refs [] = {#}" "line_refs (x # xs) = opt_mset (snd (snd x)) + line_refs xs" "line_refs (xs @ ys) = line_refs xs + line_refs ys"
  by (simp_all add: line_refs_def)

lemma line_refs_nth:
  assumes "i < length ls"
  shows "line_refs ls = opt_mset (snd (snd (ls ! i))) + line_refs (drop_nth i ls)"
    and "line_refs (ls[i := x]) = opt_mset (snd (snd x)) + line_refs (drop_nth i ls)"
proof -
  have "line_refs (take i ls @ y # drop (Suc i) ls) = opt_mset (snd (snd y)) + line_refs (drop_nth i ls)" for y
    by (simp add: drop_nth_def ac_simps)
  from this [of "ls ! i"] this [of x] assms
  show "line_refs ls = opt_mset (snd (snd (ls ! i))) + line_refs (drop_nth i ls)"
    "line_refs (ls[i := x]) = opt_mset (snd (snd x)) + line_refs (drop_nth i ls)"
    by (simp_all add: id_take_nth_drop [symmetric] upd_conv_take_nth_drop)
qed

section \<open>What keeps it\<close>

text \<open>References may be dropped, to the garbage collector.\<close>

lemma mem_ok_sub: "mem_ok F s \<Longrightarrow> F' \<subseteq># F \<Longrightarrow> mem_ok F' s"
  unfolding mem_ok_def by (auto elim!: counted_mono simp: mset_subset_eq_count)

text \<open>A step that leaves the peers, the resend channel and the goroutines' count alone.\<close>

definition req_same :: "req \<Rightarrow> req \<Rightarrow> bool" where
  "req_same s s' \<longleftrightarrow> req_eps s' = req_eps s \<and> req_resend s' = req_resend s \<and> req_once s' = req_once s \<and>
     w_cnt (req_w s') = w_cnt (req_w s)"

lemma req_same_more: "socket.more s' = socket.more s \<Longrightarrow> req_same s s' \<and> req_reqmsg s' = req_reqmsg s"
  by (cases s; cases s') (simp add: req_same_def)

lemma req_chans_grown:
  assumes "req_chans_ok s" "req_eps s' = req_eps s" "req_resend s' = req_resend s" "grown s s'"
  shows "req_chans_ok s'"
proof -
  have "req_cqs s' = req_cqs s" using assms(2) by (simp add: req_cqs_def)
  with assms grown_peers [of "req_cqs s" s s'] show ?thesis
    by (auto simp: req_chans_ok_def grown_def resv_def)
qed

lemma req_ok_grown:
  assumes "req_ok g s" "req_same s s'" "grown s s'" "uwq s' = uwq s \<or> \<not> active s" "active s \<longrightarrow> active s'"
  shows "req_ok g s'"
proof -
  have "req_gos_ok g s'" using assms(1,2,4,5) by (cases g) (auto simp: req_ok_def req_gos_ok_def req_same_def)
  with assms req_chans_grown [of s s'] show ?thesis by (simp add: req_ok_def req_same_def)
qed

lemma req_ok_more:
  "req_ok g s \<Longrightarrow> socket.more s' = socket.more s \<Longrightarrow> grown s s' \<Longrightarrow> uwq s' = uwq s \<or> \<not> active s \<Longrightarrow>
   (active s \<longrightarrow> active s') \<Longrightarrow> req_ok g s'"
  using req_same_more [of s' s] by (intro req_ok_grown [of g s s']) auto

lemma req_ok_calm:
  assumes "req_ok g s" "calm s s'"
  shows "req_ok g s'" and "req_reqmsg s' = req_reqmsg s"
  using req_ok_grown [OF assms(1) _ grown_near [OF calm_near [OF assms(2)]]] req_same_more [OF calm_more [OF assms(2)]]
    calm_near [OF assms(2)] by (auto simp: near_def)

text \<open>A goroutine that leaves: the count is large enough.\<close>

lemma req_fin_ok:
  assumes "req_chans_ok s" "1 \<le> w_cnt (req_w s)"
  shows "\<exists>s'. req_fin s = Ret s' \<and> req_chans_ok s' \<and> near s s' \<and> req_once s' = req_once s \<and>
    w_cnt (req_w s') = w_cnt (req_w s) - 1 \<and> req_reqmsg s' = req_reqmsg s \<and> (\<forall>F. mem_ok F s' = mem_ok F s)"
proof -
  have "req_chans_ok (s\<lparr>req_w := w\<rparr>)" for w
    by (rule req_chans_grown [OF assms(1)]) (simp_all add: grown_def resv_def)
  moreover have "mem_ok F (s\<lparr>req_w := w\<rparr>) = mem_ok F s" for w F
    by (rule mem_ok_same) (simp add: same_refs_def)
  ultimately show ?thesis using assms(2) by (auto simp: req_fin_def w_Done_def near_def)
qed

section \<open>The goroutines\<close>

definition req_inv :: "mref multiset \<Rightarrow> req_gos \<times> req \<Rightarrow> bool" where
  "req_inv F = (\<lambda>(g, s). req_ok g s \<and> base_ok s \<and> mem_ok (F + req_held g s) s)"

lemma req_inv_iff: "req_inv F (g, s) \<longleftrightarrow> req_ok g s \<and> base_ok s \<and> mem_ok (F + req_held g s) s"
  by (simp add: req_inv_def)

lemma req_inv_calm:
  assumes "req_inv F (g, s)" "calm s s'" "req_ok g' s" "mem_ok (F + req_held g' s) s'"
  shows "req_inv F (g', s')"
proof -
  have "req_held g' s' = req_held g' s" using req_ok_calm(2) [OF assms(3,2)] by (cases g') (simp add: req_held_def)
  with assms req_ok_calm(1) [OF assms(3,2)] calm_base [OF assms(2)] show ?thesis by (simp add: req_inv_iff)
qed

text \<open>A receiver, and the endpoint's answer to a sender.\<close>

lemma receives_req: "receives req_receiver"
  unfolding receives_def req_receiver_def
proof (intro allI impI)
  fix pick m F and s :: req assume b: "base_ok s" and m: "mem_ok (add_mset m F) s"
  let ?t = "move4 m s"
  have c: "calm s ?t" by simp
  have u: "urq ?t = urq s" by (simp add: msg_eff)
  have "base_ok ?t" "mem_ok (add_mset m F) ?t" using m calm_base [OF c b] by simp_all
  from up_send_keeps [OF this, of pick] have "run_keeps (\<lambda>(c, s'). calm s s' \<and> mem_ok F s')
      (run_bind (up_send pick (urq s) m ?t) (\<lambda>(up, s1). Ret (Loop, if up then s1 else Free m s1)))"
    unfolding u by (rule run_keeps_bind) (auto simp: calm_trans [OF c] calm_Free mem_ok_Free)
  with m show "run_keeps (\<lambda>(c, s'). calm s s' \<and> mem_ok F s')
      (case Some m of None \<Rightarrow> Ret (Exit, s)
       | Some m \<Rightarrow> if length (body (msgs s m)) < 4 then Ret (Loop, Free m s)
           else run_bind (up_send pick (urq s) m (move4 m s)) (\<lambda>(up, s1). Ret (Loop, if up then s1 else Free m s1)))"
    by (simp add: mem_ok_Free)
qed

lemma take_serves:
  assumes "\<not> cclosed (chans s q)" "mem_ok G s"
  shows "run_keeps (\<lambda>(st, s'). calm s s' \<and> (st = SdLoop \<and> mem_ok G s' \<or> (\<exists>m. st = SdPush m \<and> mem_ok (add_mset m G) s')))
    (run_bind (ch_recv q s) (\<lambda>(mo, s1). case mo of None \<Rightarrow> Panic
       | Some m \<Rightarrow> run_bind (tran_send e fr m s1) (\<lambda>(e, s2). Ret (if e \<noteq> None then SdPush m else SdLoop, s2))))"
proof (cases "cbuf (chans s q)")
  case Nil
  with assms(1) show ?thesis by (simp add: ch_recv_cases)
next
  case (Cons m ms)
  from tran_send_mem [OF mem_ok_pop [OF assms(2) Cons], of e fr] obtain s2 where
    s2: "tran_send e fr m (pop_on q s) = Ret (e, s2)" "calm (pop_on q s) s2" "mem_ok (if e = None then G else add_mset m G) s2"
    by blast
  have "calm s s2" by (rule calm_trans [OF _ s2(2)]) simp
  with s2 Cons show ?thesis by (cases e) (simp_all add: ch_recv_cases)
qed

text \<open>A goroutine that leaves.\<close>

lemma req_leaves:
  assumes "req_ok (r, ls) s" "base_ok s" "mem_ok (F + req_held (r', ls') s) s" "set ls' \<subseteq> set ls"
    "r' = r \<or> r' = RsGone" "int (length ls') + (if r' = RsGone then 0 else 1) + 1 \<le> w_cnt (req_w s)"
  shows "\<exists>s'. req_fin s = Ret s' \<and> req_inv F ((r', ls'), s')"
proof -
  have "req_chans_ok s" "1 \<le> w_cnt (req_w s)" using assms(1,6) by (auto simp: req_ok_def split: if_splits)
  from req_fin_ok [OF this] obtain s' where s': "req_fin s = Ret s'" "req_chans_ok s'" "near s s'" "req_once s' = req_once s"
      "w_cnt (req_w s') = w_cnt (req_w s) - 1" "req_reqmsg s' = req_reqmsg s" "\<forall>F. mem_ok F s' = mem_ok F s" by blast
  have "req_gos_ok (r', ls') s'" using assms(1,4-6) s'(3-5) by (auto simp: req_ok_def req_gos_ok_def near_def)
  with s' near_base [OF s'(3) assms(2)] assms(3) show ?thesis by (simp add: req_inv_iff req_ok_def req_held_def)
qed

lemma req_line_leaves:
  assumes "req_ok (r, ls) s" "base_ok s" "i < length ls" "mem_ok (F + req_held (r, drop_nth i ls) s) s"
  shows "\<exists>s'. req_fin s = Ret s' \<and> req_inv F ((r, drop_nth i ls), s')"
  using assms(1) drop_nth_less [OF assms(3)]
  by (intro req_leaves [OF assms(1,2,4) set_drop_nth]) (auto simp: req_ok_def req_gos_ok_def)

text \<open>A sender's first half.\<close>

lemma req_take_keeps:
  assumes i: "req_inv F ((r, ls), s)"
  shows "run_keeps (req_inv F) (req_own now (RTake i pick e fr) (r, ls) s)"
proof (cases "i < length ls")
  case True
  obtain pe sq mo where l: "ls ! i = (pe, sq, mo)" by (cases "ls ! i")
  show ?thesis
  proof (cases mo)
    case None
    have ok: "req_ok (r, ls) s" "base_ok s" "mem_ok (F + req_held (r, ls) s) s" using i by (simp_all add: req_inv_iff)
    have sq: "sq = uwq s" using ok(1) nth_mem [OF True] l by (auto simp: req_ok_def req_gos_ok_def)
    let ?S = "\<lambda>st. case st of SdLoop \<Rightarrow> ls | SdPush m \<Rightarrow> ls[i := (pe, sq, Some m)] | SdGone \<Rightarrow> drop_nth i ls"
    have refs: "line_refs (drop_nth i ls) = line_refs ls" "line_refs (ls[i := (pe, sq, Some m)]) = add_mset m (line_refs ls)" for m
      using line_refs_nth [OF True] l None by simp_all
    have serve: "run_keeps (\<lambda>(st, s'). req_inv F ((r, ?S st), s'))
        (run_bind (ch_recv q s) (\<lambda>(mo, s1). case mo of None \<Rightarrow> Panic
          | Some m \<Rightarrow> run_bind (tran_send e fr m s1) (\<lambda>(e, s2). Ret (if e \<noteq> None then SdPush m else SdLoop, s2))))"
      if q: "\<not> cclosed (chans s q)" for q
    proof (rule run_keeps_mono [OF take_serves [OF q ok(3)]], clarify)
      fix st s' assume c: "calm s s'" and st: "st = SdLoop \<and> mem_ok (F + req_held (r, ls) s) s' \<or>
          (\<exists>m. st = SdPush m \<and> mem_ok (add_mset m (F + req_held (r, ls) s)) s')"
      have "req_ok (r, ?S st) s" using ok(1) st sq by (auto simp: req_ok_def req_gos_ok_def dest!: subsetD [OF set_update_subset_insert])
      moreover have "mem_ok (F + req_held (r, ?S st) s) s'" using st by (auto simp: req_held_def refs)
      ultimately show "req_inv F ((r, ?S st), s')" by (rule req_inv_calm [OF i c])
    qed
    have leave: "run_keeps (\<lambda>(st, s'). req_inv F ((r, ?S st), s')) (run_bind (req_fin s) (\<lambda>s1. Ret (SdGone, s1)))"
      using req_line_leaves [OF ok(1,2) True, of F] ok(3) by (auto simp: req_held_def refs)
    have "\<not> cclosed (chans s (req_resend s))" "\<not> cclosed (chans s sq)"
      using ok(1,2) sq by (simp_all add: req_ok_def req_chans_ok_def base_ok_def)
    note serves = this [THEN serve]
    have "run_keeps (\<lambda>(st, s'). req_inv F ((r, ?S st), s')) (req_sender_take (tran_send e fr) pe pick sq s)"
    proof (cases "go_select [(QResend, recv_ready (req_resend s) s), (QSend, recv_ready sq s),
                         (QClose, closeq s), (QGone, recv_ready (qe_cq pe) s)] None pick")
      case None
      then show ?thesis by (simp add: req_sender_take_def)
    next
      case (Some d)
      then show ?thesis unfolding req_sender_take_def Let_def
        by (cases d) (simp_all only: option.case req_arm.case serves leave)
    qed
    then have "run_keeps (req_inv F) (run_bind (req_sender_take (tran_send e fr) pe pick sq s) (\<lambda>(st, s'). Ret ((r, ?S st), s')))"
      by (rule run_keeps_bind) auto
    with True l None show ?thesis by simp
  qed (use True l in simp)
qed simp

text \<open>A sender's second half: it gives the message back and leaves.\<close>

lemma req_back_keeps:
  assumes i: "req_inv F ((r, ls), s)"
  shows "run_keeps (req_inv F) (req_own now (RBack i) (r, ls) s)"
proof (cases "i < length ls")
  case True
  obtain pe sq mo where l: "ls ! i = (pe, sq, mo)" by (cases "ls ! i")
  show ?thesis
  proof (cases mo)
    case (Some m)
    let ?t = "push_on (req_resend s) m s"
    have ok: "req_ok (r, ls) s" "base_ok s" "mem_ok (F + req_held (r, ls) s) s" using i by (simp_all add: req_inv_iff)
    have q: "req_resend s < nextc s" "\<not> cclosed (chans s (req_resend s))" using ok(1) by (simp_all add: req_ok_def req_chans_ok_def)
    have "F + req_held (r, ls) s = add_mset m (F + req_held (r, drop_nth i ls) s)"
      using line_refs_nth(1) [OF True] l Some by (simp add: req_held_def)
    with ok(3) mem_ok_push [OF _ q(1)] have "mem_ok (F + req_held (r, drop_nth i ls) s) ?t" by simp
    then have m: "mem_ok (F + req_held (r, drop_nth i ls) ?t) ?t" by (simp add: req_held_def push_on_def)
    have c: "calm s ?t" by simp
    from req_line_leaves [OF req_ok_calm(1) [OF ok(1) c] calm_base [OF c ok(2)] True m] obtain s' where
      "req_fin ?t = Ret s'" "req_inv F ((r, drop_nth i ls), s')" by blast
    with q True l Some show ?thesis by (simp add: req_sender_push_def ch_send_cases)
  qed (use True l in simp)
qed simp

text \<open>A step that only changes the timer, the identifiers and the settings.\<close>

lemma req_ok_own:
  assumes "req_ok g s" "heap.truncate s' = heap.truncate s" "uwq s' = uwq s" "urq s' = urq s" "active s' = active s" "req_same s s'"
  shows "req_ok g s'"
  using assms(3,5) by (intro req_ok_grown [OF assms(1,6) grown_conf [OF assms(2-4)]]) simp_all

lemma own_base:
  "base_ok s \<Longrightarrow> heap.truncate s' = heap.truncate s \<Longrightarrow> uwq s' = uwq s \<Longrightarrow> urq s' = urq s \<Longrightarrow> base_ok s'"
  by (simp add: base_ok_def heap.defs)

lemma req_inv_own:
  assumes "req_inv F (g, s)" "heap.truncate s' = heap.truncate s" "uwq s' = uwq s" "urq s' = urq s" "active s' = active s"
    "req_same s s'" "req_reqmsg s' = req_reqmsg s"
  shows "req_inv F (g, s')"
proof -
  have "req_held g s' = req_held g s" using assms(7) by (cases g) (simp add: req_held_def)
  with assms(1) req_ok_own [OF _ assms(2-6)] own_base [OF _ assms(2-4)] mem_ok_same [OF same_refs_truncate [OF assms(2)]]
  show ?thesis by (simp add: req_inv_iff)
qed

lemma req_rearm_keeps: "req_inv F (g, s) \<Longrightarrow> req_inv F (g, req_rearm s)"
  by (erule req_inv_own) (simp_all add: req_rearm_eq req_same_def heap.defs)

lemma req_fire_keeps: "req_inv F (g, s) \<Longrightarrow> run_keeps (req_inv F) (req_own now RFire g s)"
proof -
  assume i: "req_inv F (g, s)"
  have "req_inv F (g, s\<lparr>req_waker := None, req_tick := True\<rparr>)"
    using i by (rule req_inv_own) (simp_all add: req_same_def heap.defs)
  then show ?thesis by (cases g) (simp add: req_fire_def split: option.split)
qed

text \<open>The resender, which takes a reference of its own.\<close>

lemma req_tick_keeps:
  assumes i: "req_inv F ((r, ls), s)"
  shows "run_keeps (req_inv F) (req_own now (RTick pick) (r, ls) s)"
proof (cases "r = RsWait")
  case True
  let ?s1 = "s\<lparr>req_tick := False\<rparr>"
  have i1: "req_inv F ((r, ls), ?s1)" using i by (rule req_inv_own) (simp_all add: req_same_def heap.defs)
  have tick: "run_keeps (\<lambda>(r', s'). req_inv F ((r', ls), s'))
      (case req_reqmsg ?s1 of None \<Rightarrow> Ret (RsWait, ?s1) | Some m \<Rightarrow> Ret (RsPush m, Dup m ?s1))"
  proof (cases "req_reqmsg s")
    case None
    with i1 True show ?thesis by simp
  next
    case (Some m)
    have ok: "req_ok (RsWait, ls) ?s1" "mem_ok (add_mset m (F + line_refs ls)) ?s1"
      using i1 True Some by (simp_all add: req_inv_iff req_held_def)
    have "req_inv F ((RsPush m, ls), Dup m ?s1)"
    proof (rule req_inv_calm [OF i1])
      show "req_ok (RsPush m, ls) ?s1" using ok(1) by (auto simp: req_ok_def req_gos_ok_def)
      show "mem_ok (F + req_held (RsPush m, ls) ?s1) (Dup m ?s1)" using mem_ok_Dup [OF ok(2)] Some by (simp add: req_held_def)
    qed simp
    with Some show ?thesis by simp
  qed
  have close: "run_keeps (\<lambda>(r', s'). req_inv F ((r', ls), s')) (run_bind (req_fin s) (\<lambda>s1. Ret (RsGone, s1)))"
  proof -
    have ok: "req_ok (RsWait, ls) s" "base_ok s" "mem_ok (F + req_held (RsGone, ls) s) s"
      using i True by (simp_all add: req_inv_iff req_held_def)
    then have "int (length ls) + 1 \<le> w_cnt (req_w s)" by (simp add: req_ok_def req_gos_ok_def)
    with req_leaves [OF ok] show ?thesis by fastforce
  qed
  have "run_keeps (\<lambda>(r', s'). req_inv F ((r', ls), s')) (req_resender_wait pick s)"
  proof (cases "go_select [(RsTick, req_tick s), (RsClose, closeq s)] None pick")
    case None
    then show ?thesis by (simp add: req_resender_wait_def)
  next
    case (Some d)
    then show ?thesis unfolding req_resender_wait_def Let_def
      by (cases d) (simp_all only: option.case rs_arm.case tick close)
  qed
  then have "run_keeps (req_inv F) (run_bind (req_resender_wait pick s) (\<lambda>(r', s'). Ret ((r', ls), s')))"
    by (rule run_keeps_bind) auto
  with True show ?thesis by simp
qed simp

lemma req_resend_keeps:
  assumes i: "req_inv F ((r, ls), s)"
  shows "run_keeps (req_inv F) (req_own now RResend (r, ls) s)"
proof (cases r)
  case (RsPush m)
  let ?t = "push_on (req_resend s) m s"
  have ok: "req_ok (RsPush m, ls) s" "mem_ok (add_mset m (F + req_held (RsWait, ls) s)) s"
    using i RsPush by (simp_all add: req_inv_iff req_held_def)
  then have q: "req_resend s < nextc s" "\<not> cclosed (chans s (req_resend s))" by (simp_all add: req_ok_def req_chans_ok_def)
  have "req_inv F ((RsWait, ls), ?t)"
  proof (rule req_inv_calm [OF i])
    show "req_ok (RsWait, ls) s" using ok(1) by (auto simp: req_ok_def req_gos_ok_def)
    show "mem_ok (F + req_held (RsWait, ls) s) ?t" using ok(2) q(1) by (rule mem_ok_push)
  qed simp
  from req_rearm_keeps [OF this] q RsPush show ?thesis by (simp add: req_resender_push_def ch_send_cases)
qed simp_all

section \<open>The hooks\<close>

text \<open>
  Sending a request keeps a reference to it and drops the one to the request before; a reply
  that is accepted frees the request.
\<close>

lemma req_send_hook:
  assumes "req_ok g s" "base_ok s" "mem_ok (add_mset m F + req_held g s) s"
  shows "\<exists>b s'. req_SendHook m s = Ret (b, s') \<and> req_ok g s' \<and> base_ok s' \<and> mem_ok (add_mset m F + req_held g s') s'"
proof (cases "req_raw s")
  case True
  then have "req_SendHook m s = Ret (True, s)" by (simp add: req_SendHook_def)
  with assms show ?thesis by blast
next
  case False
  obtain b s' where s': "req_SendHook m s = Ret (b, s')" using req_SendHook_Ret by blast
  let ?t = "Dup m (append_hdr m (be32 (req_nextid s OR 0x80000000)) s)"
  have c: "calm s ?t" by (rule calm_trans [of _ "append_hdr m (be32 (req_nextid s OR 0x80000000)) s"]) simp_all
  have t: "heap.truncate s' = heap.truncate ?t" "uwq s' = uwq ?t" "urq s' = urq ?t" "active s' = active ?t" "req_same ?t s'"
      "req_reqmsg s' = Some m"
    using s' False by (auto simp: req_SendHook_def req_nextID_def req_rearm_eq Let_def sock_eff msg_eff heap.defs req_same_def)
  obtain r ls where g: "g = (r, ls)" by fastforce
  have "mem_ok (add_mset m (F + rs_refs r + line_refs ls)) s"
    using assms(3) by (rule mem_ok_sub) (simp add: g req_held_def)
  then have "mem_ok (add_mset m (add_mset m (F + rs_refs r + line_refs ls))) ?t" by (intro mem_ok_Dup) simp
  then have "mem_ok (add_mset m F + req_held g s') s'"
    using mem_ok_same [OF same_refs_truncate [OF t(1)]] t(6) g by (simp add: req_held_def ac_simps)
  with s' req_ok_own [OF req_ok_calm(1) [OF assms(1) c] t(1-5)] own_base [OF calm_base [OF c assms(2)] t(1-3)]
  show ?thesis by simp
qed

lemma req_recv_hook:
  assumes "req_ok g s" "base_ok s" "mem_ok (add_mset m F + req_held g s) s"
  shows "\<exists>b s'. req_RecvHook m s = Ret (b, s') \<and> req_ok g s' \<and> base_ok s' \<and> mem_ok (add_mset m F + req_held g s') s'"
proof (cases "\<exists>s'. \<not> req_raw s \<and> req_RecvHook m s = Ret (True, s')")
  case False
  then have "\<exists>b. req_RecvHook m s = Ret (b, s)" by (auto simp: req_RecvHook_def Let_def split: option.splits)
  with assms show ?thesis by blast
next
  case True
  then obtain s' r where s': "\<not> req_raw s" "req_RecvHook m s = Ret (True, s')" "req_reqmsg s = Some r"
    using req_RecvHook_iff by blast
  let ?t = "Free r s"
  have t: "heap.truncate s' = heap.truncate ?t" "uwq s' = uwq ?t" "urq s' = urq ?t" "active s' = active ?t" "req_same ?t s'"
      "req_reqmsg s' = None"
    using s' by (auto simp: req_RecvHook_def Let_def sock_eff msg_eff Free_def heap.defs req_same_def split: option.splits if_splits)
  obtain ph ls where g: "g = (ph, ls)" by fastforce
  have "add_mset m F + req_held g s = add_mset r (add_mset m F + req_held g s')"
    using s'(3) t(6) g by (simp add: req_held_def)
  with assms(3) have "mem_ok (add_mset r (add_mset m F + req_held g s')) s" by (simp only:)
  then have "mem_ok (add_mset m F + req_held g s') ?t" by (rule mem_ok_Free)
  then have "mem_ok (add_mset m F + req_held g s') s'" using mem_ok_same [OF same_refs_truncate [OF t(1)]] by simp
  moreover have c: "calm s ?t" by simp
  ultimately show ?thesis
    using s'(2) req_ok_own [OF req_ok_calm(1) [OF assms(1) c] t(1-5)] own_base [OF calm_base [OF c assms(2)] t(1-3)] by blast
qed

section \<open>The core\<close>

definition req_quiet :: "req_gos \<Rightarrow> mref option \<Rightarrow> req \<Rightarrow> bool" where
  "req_quiet g mo s \<longleftrightarrow> req_ok g s \<and> req_reqmsg s = mo"

lemma req_pipe:
  assumes "pipe_same a b" "req_quiet g mo a"
  shows "req_quiet g mo b"
proof -
  have m: "req_same a b" "req_reqmsg b = req_reqmsg a" using req_same_more [of b a] assms(1) by (simp_all add: pipe_same_def)
  then have cqs: "req_cqs b = req_cqs a" by (simp add: req_cqs_def req_same_def)
  have "req_chans_ok b" using assms m pipe_same_peers [OF assms(1)] pipe_same_resv [OF assms(1)]
    by (simp add: req_quiet_def req_ok_def req_chans_ok_def cqs req_same_def pipe_same_def)
  moreover have "req_gos_ok g b" using assms m
    by (cases g) (auto simp: req_quiet_def req_ok_def req_gos_ok_def req_same_def pipe_same_def)
  ultimately show ?thesis using assms m by (simp add: req_quiet_def req_ok_def)
qed

lemma req_remove:
  assumes "req_quiet g mo s"
  shows "\<exists>s'. op_RemoveEndpoint (req_ops now) p s = Ret s' \<and> req_quiet g mo s' \<and> core_same s s' \<and> gos s' = gos s"
proof -
  have ok: "req_chans_ok s" "req_gos_ok g s" using assms by (simp_all add: req_quiet_def req_ok_def)
  from req_tab.rem_ok [of s p] ok(1) obtain s' where s': "req_RemoveEndpoint p s = Ret s'" "peers_ok (req_cqs s') (resv s') s'"
    by (auto simp: req_chans_ok_def)
  have q: "qe_cq e \<notin> resv s" "qe_cq e \<noteq> req_resend s" if "req_eps s i = Some e" for i e
    using ok(1) peers_okD [of "req_cqs s" "resv s" s i "qe_cq e"] that by (auto simp: req_chans_ok_def req_cqs_def)
  have f: "core_same s s' \<and> gos s' = gos s \<and> req_once s' = req_once s \<and> req_w s' = req_w s \<and> req_reqmsg s' = req_reqmsg s \<and>
        req_resend s' = req_resend s \<and> nextc s' = nextc s \<and> resv s' = resv s \<and> (\<forall>i. req_cqs s' i = req_cqs s i \<or> req_cqs s' i = None) \<and>
        cclosed (chans s' (req_resend s)) = cclosed (chans s (req_resend s))"
  proof (cases "req_eps s (GetID s p)")
    case None
    with s'(1) show ?thesis
      by (auto simp: req_RemoveEndpoint_def same_refs_def resv_def req_cqs_def Let_def intro!: core_sameI split: if_splits)
  next
    case (Some e)
    with s'(1) q [OF Some] show ?thesis
      by (auto simp: req_RemoveEndpoint_def ch_close_cases close_on_def same_refs_def resv_def req_cqs_def Let_def
          intro!: core_sameI split: if_splits)
  qed
  have "req_cqs s' i \<noteq> Some (req_resend s)" for i
  proof -
    have "req_cqs s' i = req_cqs s i \<or> req_cqs s' i = None" "req_cqs s i \<noteq> Some (req_resend s)"
      using f ok(1) by (simp_all add: req_chans_ok_def)
    then show ?thesis by auto
  qed
  then have "req_chans_ok s'" using ok(1) s'(2) f by (simp add: req_chans_ok_def)
  moreover have "req_gos_ok g s'" using ok(2) f core_same_keeps(3,4) [of s s'] by (cases g) (auto simp: req_gos_ok_def)
  ultimately show ?thesis using s'(1) f assms by (simp add: req_ops_def req_quiet_def req_ok_def)
qed

lemma req_add:
  assumes "req_ok g s" "base_ok s" "active s"
  shows "req_ok (req_starts s (req_AddEndpoint p s) g) (req_AddEndpoint p s)" and "core_same s (req_AddEndpoint p s)"
    and "req_held (req_starts s (req_AddEndpoint p s) g) (req_AddEndpoint p s) = req_held g s"
proof -
  let ?s = "req_AddEndpoint p s"
  obtain r ls where g: "g = (r, ls)" by fastforce
  have f: "chans ?s = (chans s)(nextc s := make_chan 0)" "nextc ?s = Suc (nextc s)" "msgs ?s = msgs s" "nextm ?s = nextm s"
      "mpool ?s = mpool s" "uwq ?s = uwq s" "urq ?s = urq s" "active ?s = active s" "req_resend ?s = req_resend s"
      "req_reqmsg ?s = req_reqmsg s" "req_once ?s"
      "started s ?s = (if req_once s then [] else [GResender]) @ [GReceiver p, GPipeSender p]"
      "w_cnt (req_w ?s) = w_cnt (req_w s) + (if req_once s then 1 else 2)"
      "req_cqs ?s = (req_cqs s)(GetID s p \<mapsto> nextc s)"
    by (auto simp: req_AddEndpoint_def new_chan_def spawn_def started_def w_Add_def req_cqs_def GetID_def Let_def)
  show c: "core_same s ?s" using f by (intro core_same_chan [OF assms(2)]) simp_all
  have ok: "req_chans_ok s" "req_gos_ok (r, ls) s" using assms(1) g by (simp_all add: req_ok_def)
  have "peers_ok (req_cqs ?s) (resv ?s) ?s" using req_tab.add_ok ok(1) by (simp add: req_chans_ok_def)
  then have "req_chans_ok ?s" using ok(1) f by (auto simp: req_chans_ok_def resv_def)
  moreover have "req_gos_ok (req_starts s ?s g) ?s" using ok(2) f(6,8,11-13) assms(3) g
    by (auto simp: req_starts_def req_gos_ok_def SendChannel_def)
  ultimately show "req_ok (req_starts s ?s g) ?s" by (simp add: req_ok_def)
  have "rs_refs (fst (req_starts s ?s g)) = rs_refs r" using ok(2) f(12) g by (auto simp: req_starts_def req_gos_ok_def)
  then show "req_held (req_starts s ?s g) ?s = req_held g s" using f(10,12) g by (auto simp: req_starts_def req_held_def)
qed

interpretation req_core: core_sys "req_ops now" req_starts req_ok req_held for now
proof unfold_locales
  fix g and s s' t :: req and p ord
  show "req_ok g s'" if "req_ok g s" "socket.more s' = socket.more s" "grown s s'" "uwq s' = uwq s \<or> \<not> active s" "active s \<longrightarrow> active s'"
    using that by (rule req_ok_more)
  show "req_held g s' = req_held g s" if "socket.more s' = socket.more s"
    using req_same_more [OF that] by (cases g) (simp add: req_held_def)
  show "req_starts s s' g = g" if "gos s' = gos s" using that by (cases g) (simp add: req_starts_def)
  show "req_starts s s' g = req_starts t s' g" if "gos t = gos s" "nextc t = nextc s"
    using that by (simp add: req_starts_def started_def)
  show "\<exists>s'. pipe_Close (req_ops now) p s = Ret s' \<and> req_ok g s' \<and> core_same s s' \<and> req_held g s' = req_held g s \<and> gos s' = gos s"
    if "req_ok g s"
  proof -
    have "\<exists>s'. pipe_Close (req_ops now) p s = Ret s' \<and> req_quiet g (req_reqmsg s) s' \<and> core_same s s' \<and> gos s' = gos s"
    proof (rule pipe_Close_keeps)
      show "req_quiet g (req_reqmsg s) s" using that by (simp add: req_quiet_def)
    qed (rule req_pipe, assumption+, rule req_remove)
    then show ?thesis by (cases g) (auto simp: req_quiet_def req_held_def)
  qed
  show "\<exists>s'. op_AddEndpoint (req_ops now) p s = Ret s' \<and> req_ok (req_starts s s' g) s' \<and> core_same s s' \<and>
      req_held (req_starts s s' g) s' = req_held g s" if "req_ok g s" "base_ok s" "active s"
    using req_add [OF that] by (simp add: req_ops_def)
  show "\<exists>s'. op_Shutdown (req_ops now) ord s = Ret s' \<and> req_ok g s' \<and> core_same s s' \<and> req_held g s' = req_held g s"
    if "req_ok g s"
    using that by (simp add: req_ops_def req_Shutdown_def core_same_def)
qed

section \<open>The whole socket\<close>

lemma req_set_option:
  assumes "op_SetOption (req_ops now) n v s = (e, s')"
  shows "heap.truncate s' = heap.truncate s" "uwq s' = uwq s" "urq s' = urq s" "active s' = active s" "req_same s s'"
    "req_reqmsg s' = req_reqmsg s"
  using assms
  by (auto simp: req_ops_def req_SetOption_def req_same_def sock_eff heap.defs Let_def split: if_splits goval.splits)

interpretation req_sock: sock_sys "req_ops now" req_ok req_held "req_own now" for now
proof unfold_locales
  fix g s s' i k hook m F n v e
  show "req_ok g s'" if "req_ok g s" "calm s s'" using req_ok_calm(1) [OF that] .
  show "req_ok g s'" if "req_ok g s" "socket.more s' = socket.more s" "heap.truncate s' = heap.truncate s"
      "uwq s' = uwq s" "urq s' = urq s" "active s \<longrightarrow> active s'"
    using that by (intro req_ok_more [OF that(1)] grown_conf) simp_all
  show "req_ok g (close_on (uwq s) (s\<lparr>uwqLen := i, chans := (chans s)(nextc s := make_chan k), nextc := Suc (nextc s), uwq := nextc s\<rparr>))"
    if "req_ok g s" "\<not> active s"
    by (rule req_ok_more [OF that(1) _ grown_queues(1)]) (simp_all add: that close_on_def)
  show "req_ok g (s\<lparr>urqLen := i, chans := (chans s)(nextc s := make_chan k), nextc := Suc (nextc s), urq := nextc s\<rparr>)"
    if "req_ok g s" "\<not> active s"
    by (rule req_ok_more [OF that(1) _ grown_queues(2)]) (simp_all add: that)
  show "req_held g s' = req_held g s" if "socket.more s' = socket.more s" using that by (rule req_core.held_own)
  show "\<exists>b s'. hook m s = Ret (b, s') \<and> req_ok g s' \<and> base_ok s' \<and> mem_ok (add_mset m F + req_held g s') s'"
    if "op_SendHook (req_ops now) = Some hook \<or> op_RecvHook (req_ops now) = Some hook" "req_ok g s" "base_ok s"
      "mem_ok (add_mset m F + req_held g s) s"
    using that(1) req_send_hook [OF that(2-4)] req_recv_hook [OF that(2-4)] by (auto simp: req_ops_def)
  show "req_ok g s' \<and> base_ok s' \<and> mem_ok (F + req_held g s') s'"
    if "req_ok g s" "base_ok s" "mem_ok (F + req_held g s) s" "op_SetOption (req_ops now) n v s = (e, s')"
    using req_inv_own [OF _ req_set_option [OF that(4)], of F g] that(1-3) by (simp add: req_inv_iff)
next
  fix F g s and e :: req_own_event
  assume i: "req_ok g s" "base_ok s" "mem_ok (F + req_held g s) s"
  obtain r ls where g: "g = (r, ls)" by fastforce
  from i have inv: "req_inv F ((r, ls), s)" by (simp add: req_inv_iff g)
  have "run_keeps (req_inv F) (req_own now e (r, ls) s)"
  proof (cases e)
    case (RTake j pick er fr)
    show ?thesis unfolding RTake using inv by (rule req_take_keeps)
  next
    case (RBack j)
    show ?thesis unfolding RBack using inv by (rule req_back_keeps)
  next
    case (RTick pick)
    show ?thesis unfolding RTick using inv by (rule req_tick_keeps)
  next
    case RResend
    show ?thesis unfolding RResend using inv by (rule req_resend_keeps)
  next
    case RFire
    show ?thesis unfolding RFire using inv by (rule req_fire_keeps)
  next
    case (RArrive pick fresh p b)
    show ?thesis unfolding RArrive req_own.simps
      by (rule run_keeps_mono [OF line_arrive_keeps [OF receives_req i(2,3)]])
         (use req_inv_calm [OF inv] i(1) in \<open>auto simp: g\<close>)
  next
    case (RLost pick)
    with inv show ?thesis by (simp add: req_receiver_def)
  next
    case (RCore c)
    show ?thesis unfolding RCore req_own.simps
      by (rule run_keeps_mono [OF req_core.core_keeps [of F "(r, ls)" s]]) (use inv in \<open>auto simp: req_core.core_inv_iff req_inv_iff\<close>)
  qed
  then show "run_keeps (\<lambda>(g', s'). req_ok g' s' \<and> base_ok s' \<and> mem_ok (F + req_held g' s') s') (req_own now e g s)"
    by (simp add: req_inv_def g)
qed

text \<open>A new socket: no sender, and no resender before the first pipe.\<close>

lemma req_new: "sock_inv req_ok req_held ((RsGone, []), [], req_NewSocket now (socket0 x))"
proof -
  have "mem_ok {#} (req_NewProtocol (socket0 x))"
    using mem_ok_same [of "socket0 x" "req_NewProtocol (socket0 x)"] by (simp add: req_NewProtocol_def same_refs_def)
  from newSocket_init [OF this] obtain t where t: "req_NewSocket now (socket0 x) = req_Init now t" "mem_ok {#} t" "base_ok t"
      "socket.more t = socket.more (req_NewProtocol (socket0 x))"
    by (metis req_NewSocket_def req_ops_def protocol_ops.select_convs(1))
  have o: "\<not> req_once t" "req_reqmsg t = None" "w_cnt (req_w t) = 0"
    using req_same_more [OF t(4)] by (simp_all add: req_NewProtocol_def req_same_def)
  let ?s = "req_Init now t"
  have f: "chans ?s = (chans t)(nextc t := make_chan 0)" "nextc ?s = Suc (nextc t)" "msgs ?s = msgs t" "nextm ?s = nextm t"
      "mpool ?s = mpool t" "uwq ?s = uwq t" "urq ?s = urq t" "active ?s = active t" "req_resend ?s = nextc t" "req_cqs ?s = Map.empty"
      "req_reqmsg ?s = None" "\<not> req_once ?s" "0 \<le> w_cnt (req_w ?s)"
    using o by (auto simp: req_Init_def new_chan_def sock_eff Let_def req_cqs_def w_Init_def)
  have c: "core_same t ?s" using f by (intro core_same_chan [OF t(3)]) simp_all
  have "req_ok (RsGone, []) ?s" using f t(3)
    by (auto simp: req_ok_def req_chans_ok_def req_gos_ok_def peers_ok_def resv_def base_ok_def)
  with core_same_keeps(1,2) [OF c] t(1-3) f(11) show ?thesis by (simp add: sock_inv_def app_inv_iff req_held_def)
qed

end
