(* ===== verification/Safety.thy ===== *)
theory Safety
  imports Fresh_Sockets Pair_Link Line_Sockets Req_Sys
begin

text \<open>
  What holds in every run of a socket, under every interleaving of its goroutines with the
  core: the protocols' invariants from a fresh socket on, and that no goroutine panics. A
  run is \<open>run_events step es c\<close> for an arbitrary list of events \<open>es\<close>; \<open>run_keeps I\<close> says
  that it does not end in a panic and that \<open>I\<close> holds at its end.
\<close>

section \<open>The goroutines of the protocols with a queue for each peer\<close>

text \<open>
  From \<^verbatim>\<open>NewSocket\<close> on any state, with messages of any origin: no order of steps of the
  goroutines, of peers coming and going and of the shutdown makes one of them panic.
\<close>

theorem rep_system_safe:
  "run_keeps (sys_inv rep_queues (\<lambda>s. w_cnt (rep_w s)))
     (run_events (sys_step rep_ops (\<lambda>_. rep_sender) (\<lambda>_. rep_receiver)) es (rep_start s))"
  using rep_sys.events_keep [OF rep_start_inv] by (simp add: rep_sender_def)

theorem bus_system_safe:
  "run_keeps (sys_inv bus_queues (\<lambda>s. w_cnt (bus_w s)))
     (run_events (sys_step bus_ops bus_sender (\<lambda>_. bus_receiver)) es (bus_start s))"
  using bus_sys.events_keep [OF bus_start_inv] by (simp add: bus_sender_def [abs_def])

theorem star_system_safe:
  "run_keeps (sys_inv star_queues (\<lambda>s. w_cnt (star_w s)))
     (run_events (sys_step star_ops star_sender star_receiver) es (star_start s))"
  using star_sys.events_keep [OF star_start_inv] by (simp add: star_sender_def [abs_def])

theorem surveyor_system_safe:
  "run_keeps (sys_inv sv_queues (\<lambda>s. w_cnt (sv_w s)))
     (run_events (sys_step sv_ops sv_sender (\<lambda>_. sv_receiver)) es (sv_start s))"
  using sv_sys.events_keep [OF sv_start_inv] by (simp add: sv_sender_def [abs_def])

theorem pub_system_safe:
  "run_keeps (sys_inv pub_queues (\<lambda>s. w_cnt (pub_w s)))
     (run_events (sys_step pub_ops pub_sender (\<lambda>_ _ _ _ mo s. Ret (NullRecv mo s))) es (pub_start s))"
  using pub_sys.events_keep [OF pub_start_inv] by (simp add: pub_sender_def [abs_def])

section \<open>Whole sockets, and who holds their messages\<close>










text \<open>
  What such runs do. A push socket that is connected sends a message to its peer, which frees
  it; when the peer is closed first, the message stays in the queue and the sender leaves. The
  first connection of a req socket starts its resender, and each one starts a sender. A bus
  socket with two connections puts a message on both of their queues.
\<close>

definition sock_seen :: "('a socket_scheme \<Rightarrow> 'o) \<Rightarrow> ('g \<times> 'a app_conf) run \<Rightarrow> ('g \<times> 'o) option" where
  "sock_seen obs r = (case r of Ret (g, H, s) \<Rightarrow> Some (g, obs s) | _ \<Rightarrow> None)"

definition zero_push :: push where
  "zero_push = socket0 \<lparr>push_raw = False, push_w = \<lparr>w_cnt = 0\<rparr>, push_eps = Map.empty\<rparr>"

definition push_run :: "line_event sock_event list \<Rightarrow> (lines \<times> mref list \<times> mref list) option" where
  "push_run es = sock_seen (\<lambda>s. (cbuf (chans s (uwq s)), mpool s))
     (run_events (sock_step push_ops push_own) es ([], [], push_NewSocket zero_push))"

definition req_run :: "req_own_event sock_event list \<Rightarrow> (req_gos \<times> u32 set) option" where
  "req_run es = sock_seen (\<lambda>s. dom (req_eps s))
     (run_events (sock_step (req_ops 5) (req_own 5)) es ((RsGone, []), [], req_NewSocket 5 zero_req))"

lemma newPipe_loop_first: "newPipe_loop Map.empty 0 = Some (1, 2)" "newPipe_loop [1 \<mapsto> 0] 2 = Some (2, 3)"
  by (subst newPipe_loop.simps, simp add: newPipe_loop.simps [of Map.empty 1])+

lemmas core_run = sock_seen_def socket0_def newSocket_def SetRecvError_def w_Init_def w_Add_def w_Done_def new_chan_def
  spawn_def upd_pipe_def addPipe_def newPipe_def newPipe_loop_first GetID_def started_def SendChannel_def pipe_Close_def
  ep_Close_def remPipe_def Send_def NewMessage_unfold msg_class_def messageCache_def SendMsg_def SendMsg_start_def
  SendMsg_select_def go_select_def chan_cases tran_send_def Free_def Dup_def upd_msg_def set_body_def push_on_def
  pop_on_def close_on_def make_chan_def chan_room_def chan_push_def chan_pop_def newMsg_def Let_def defaultQLen_def drop_nth_def

lemmas push_run_defs = push_run_def zero_push_def push_NewSocket_def push_NewProtocol_def push_ops_def push_Init_def
  push_own_def push_AddEndpoint_def push_RemoveEndpoint_def line_starts_def line_send_def direct_sender_def push_fin_def

lemma push_run_sends:
  "push_run [Call AActivate, Own (LCore (CPipe (Some 0) None)), Call (ASend 0 0 0 SSend [1, 2]),
     Own (LSend 0 DMsg None True)] = Some ([(2, 0)], [], [0])"
  by (simp add: core_run push_run_defs)

lemma push_run_keeps:
  "push_run [Call AActivate, Own (LCore (CPipe (Some 0) None)), Call (ASend 0 0 0 SSend [1, 2]),
     Own (LCore (CClose 0)), Own (LSend 0 DGone None True)] = Some ([], [0], [])"
  by (simp add: core_run push_run_defs)

lemma req_run_connects:
  "req_run [Call AActivate, Own (RCore (CPipe (Some 0) None)), Own (RCore (CPipe (Some 0) None)), Own (RCore (CClose 0))] =
   Some ((RsWait, [(\<lparr>qe_ep = 0, qe_cq = 3\<rparr>, 0, None), (\<lparr>qe_ep = 1, qe_cq = 4\<rparr>, 0, None)]), {2})"
  by (auto simp: core_run req_run_def zero_req_def req_NewSocket_def req_NewProtocol_def req_ops_def req_Init_def
      req_AddEndpoint_def req_RemoveEndpoint_def req_starts_def)

definition bus_run :: "busEp mem_event list \<Rightarrow> (mref list option list \<times> mref list) option" where
  "bus_run es = map_option snd (sock_seen
     (\<lambda>s. (map (\<lambda>i. map_option (\<lambda>q. cbuf (chans s q)) (bus_queues s i)) [1, 2], mpool s))
     (run_events (mem_step bus_ops bus_sender (\<lambda>_. bus_receiver) (\<lambda>_. Block)) es (mem_start (bus_start zero_bus))))"

lemma bus_run_spreads:
  "bus_run [MCall AActivate, MCore (CPipe (Some 0) None), MCore (CPipe (Some 0) None), MCall (ASend 0 0 0 SSend [7]),
     MSender [1, 2] TMsg] = Some ([Some [0], Some [0]], [])"
  by (simp add: core_run bus_run_def zero_bus_def mem_start_def bus_start_def bus_NewSocket_def bus_NewProtocol_def
      bus_ops_def bus_Init_def bus_AddEndpoint_def bus_sender_def sender_loop_def top_recv_def bus_handle_def
      bus_broadcast_def offer_def hdr_bytes_def bus_queues_def bus_depth)

text \<open>
  C10: A respondent socket is not safe in this sense: its sender looks the peer up under the
  lock and sends on the peer's queue after it released the lock. When the peer is removed
  in between, the send hits a closed channel and the program panics, from a fresh socket on,
  for every peer \<open>ep\<close> and every message \<open>m\<close> whose header names it.
\<close>

theorem respondent_race_panics:
  assumes "be_Uint32 (hdr_bytes (msgs s m)) = Some (GetID s ep)"
  shows "run_events resp_fine_step [PAdd ep, PLookup m, PRemove ep, PPush] (None, resp_NewSocket s) = Panic"
proof -
  define s1 where "s1 = resp_AddEndpoint ep (resp_NewSocket s)"
  define q where "q = nextc (resp_NewSocket s)"
  have new: "msgs (resp_NewSocket s) = msgs s" "ptab (resp_NewSocket s) = ptab s"
    by (simp_all add: resp_NewSocket_def newSocket_def resp_ops_def resp_Init_def resp_NewProtocol_def
        new_chan_def spawn_def sock_eff Let_def)
  have peer: "resp_peers s1 (GetID s1 ep) = Some \<lparr>rp_q = q, rp_ep = ep\<rparr>" "GetID s1 ep = GetID s ep"
      "msgs s1 = msgs s" "\<not> cclosed (chans s1 q)"
    by (simp_all add: s1_def q_def resp_AddEndpoint_def new_chan_def spawn_def GetID_def new Let_def)
  have "\<not> length (hdr_bytes (msgs s m)) < 4"
    using assms be_Uint32_None_iff [of "hdr_bytes (msgs s m)"] by auto
  with assms peer have look: "resp_lookup m s1 = Ret (Some \<lparr>rp_q = q, rp_ep = ep\<rparr>, drop_hdr4 m s1)"
    by (simp add: resp_lookup_def drop_hdr4_eff)
  define s2 where "s2 = drop_hdr4 m s1"
  have same: "resp_peers s2 = resp_peers s1" "GetID s2 ep = GetID s1 ep" "chans s2 = chans s1"
    by (simp_all add: s2_def drop_hdr4_eff GetID_def)
  obtain s3 where s3: "resp_RemoveEndpoint ep s2 = Ret s3"
    using peer(1,4) same by (simp add: resp_RemoveEndpoint_def ch_close_cases GetID_def)
  have "resp_push m \<lparr>rp_q = q, rp_ep = ep\<rparr> s3 = Panic"
    by (rule resp_push_after_remove [OF look [folded s2_def] s3]) (simp add: peer(1) same)
  with look [folded s2_def] s3 show ?thesis by (simp add: s1_def [symmetric])
qed

text \<open>A message whose header is the identifier 0 that the zero pipe has.\<close>

definition addressed :: resp where
  "addressed = zero_resp\<lparr>msgs := (\<lambda>_. (newMsg 0)\<lparr>hdr := Some (be32 0)\<rparr>)\<rparr>"

theorem respondent_race_panics_witness:
  "run_events resp_fine_step [PAdd 0, PLookup 0, PRemove 0, PPush] (None, resp_NewSocket addressed) = Panic"
  using be_Uint32_be32 [of 0 "[]"]
  by (intro respondent_race_panics) (simp add: addressed_def zero_resp_def socket0_def GetID_def hdr_bytes_def)

text \<open>
  With lookup and send in one step the respondent is as safe as the others, so the window of
  C10 is the only one.
\<close>

theorem respondent_atomic_safe:
  "run_keeps (sys_inv resp_queues (\<lambda>s. w_cnt (resp_w s)))
     (run_events (sys_step resp_ops (\<lambda>_. resp_sender) (\<lambda>_. resp_receiver)) es (resp_start s))"
  using resp_sys.events_keep [OF resp_start_inv] by (simp add: resp_sender_def)


section \<open>The request that is never forgotten\<close>



section \<open>A pair has one peer\<close>

lemma pair_start_ok: "pair_ok (pair_NewSocket s)"
  by (simp add: pair_ok_def pair_NewSocket_def newSocket_def pair_ops_def pair_Init_def pair_NewProtocol_def
      new_chan_def resv_def Let_def)

lemma pair_add_result:
  assumes "pair_ok s"
  shows "run_keeps (\<lambda>t. map_option ae_ep (pair_peer t) = Some (case pair_peer s of None \<Rightarrow> ep | Some pe \<Rightarrow> ae_ep pe) \<and>
    p_closing (ptab t ep) = (pair_peer s \<noteq> None)) (pair_step (PairAdd ep) s)"
proof (cases "p_closing (ptab s ep) \<or> \<not> p_sock (ptab s ep) \<or> map_option ae_ep (pair_peer s) = Some ep")
  case True
  then show ?thesis by simp
next
  case False
  show ?thesis
  proof (cases "pair_peer s")
    case None
    with False obtain t where t: "pair_AddEndpoint ep s = Ret t" "pair_ok t" "map_option ae_ep (pair_peer t) = Some ep"
      using pair_add_first [OF None assms, of ep] by auto
    then have "\<not> p_closing (ptab t ep)" by (auto simp: pair_ok_def)
    with False None t show ?thesis by simp
  next
    case (Some pe)
    with False pair_add_second [OF Some _ assms, of ep] show ?thesis by auto
  qed
qed

text \<open>
  While endpoints are added and closed in any order, a pair socket keeps its first peer:
  an endpoint that is added becomes the peer when there is none, and otherwise is closed at
  once and the peer stays. The quit channel of the peer is closed at most once, so no order
  panics.
\<close>

theorem pair_exclusive:
  "run_keeps (\<lambda>s. pair_ok s \<and> (\<forall>ep. run_keeps (\<lambda>t.
       map_option ae_ep (pair_peer t) = Some (case pair_peer s of None \<Rightarrow> ep | Some pe \<Rightarrow> ae_ep pe) \<and>
       p_closing (ptab t ep) = (pair_peer s \<noteq> None)) (pair_step (PairAdd ep) s)))
     (run_events pair_step es (pair_NewSocket s0))"
proof -
  have "run_keeps pair_ok (run_events pair_step es (pair_NewSocket s0))"
    by (intro run_keeps_events pair_step_keeps pair_start_ok)
  then show ?thesis by (rule run_keeps_mono) (intro conjI allI pair_add_result)
qed

section \<open>A pair delivers\<close>


end
