(* ===== verification/Device.thy ===== *)
theory Device
  imports Backtrace
begin

text \<open>
  device.go: a device puts two sockets of matching protocols in raw mode and forwards what
  each receives to the other. Each socket's state carries its own part of the heap, so a
  message that crosses is a new reference on the other side, with the same contents.
\<close>

section \<open>Setting a device up\<close>

text \<open>Two different sockets\<close>

definition Device ::
  "'a socket_scheme protocol_ops \<Rightarrow> 'b socket_scheme protocol_ops \<Rightarrow> 'a socket_scheme \<Rightarrow> 'b socket_scheme \<Rightarrow>
   (err option \<times> 'a socket_scheme \<times> 'b socket_scheme) run" where
  "Device p1 p2 s1 s2 =
     (if \<not> ValidPeers p1 p2 then Ret (Some ErrBadProto, s1, s2)
      else run_bind (sock_SetOption p1 OptionRaw (VBool True) s1) (\<lambda>(e, t1).
        if e \<noteq> None then Ret (e, t1, s2)
        else run_bind (sock_SetOption p2 OptionRaw (VBool True) s2) (\<lambda>(e2, t2).
          if e2 \<noteq> None then Ret (e2, t1, t2)
          else Ret (None, spawn (GForward 1 2) t1, spawn (GForward 2 1) t2))))"

text \<open>
  One socket, given twice or with a nil (\<open>s = None\<close> when both are nil): it must peer with
  itself.
\<close>

definition Device_loopback ::
  "'a socket_scheme protocol_ops \<Rightarrow> 'a socket_scheme option \<Rightarrow> (err option \<times> 'a socket_scheme option) run" where
  "Device_loopback p so =
     (case so of
        None \<Rightarrow> Ret (Some ErrClosed, None)
      | Some s \<Rightarrow>
          if \<not> ValidPeers p p then Ret (Some ErrBadProto, Some s)
          else run_bind (sock_SetOption p OptionRaw (VBool True) s) (\<lambda>(e, t).
            if e \<noteq> None then Ret (e, Some t)
            else run_bind (sock_SetOption p OptionRaw (VBool True) t) (\<lambda>(e2, u).
              if e2 \<noteq> None then Ret (e2, Some u)
              else Ret (None, Some (spawn (GForward 1 1) (spawn (GForward 1 1) u))))))"

section \<open>Forwarding\<close>

text \<open>The message \<open>m\<close> of the one socket, as the other one sees it.\<close>

definition hand_over :: "message \<Rightarrow> 'b heap_scheme \<Rightarrow> mref \<times> 'b heap_scheme" where
  "hand_over x t = alloc_msg x t"

text \<open>
  One round of \<^verbatim>\<open>forwarder\<close>. The lists and arms are the clock readings and choices of
  \<^verbatim>\<open>RecvMsg\<close> and \<^verbatim>\<open>SendMsg\<close>.
\<close>

definition forwarder ::
  "'a socket_scheme protocol_ops \<Rightarrow> 'b socket_scheme protocol_ops \<Rightarrow>
   inst \<Rightarrow> (inst \<times> recv_arm) list \<Rightarrow> inst \<Rightarrow> inst \<Rightarrow> send_arm \<Rightarrow> 'a socket_scheme \<Rightarrow> 'b socket_scheme \<Rightarrow>
   (ctl \<times> 'a socket_scheme \<times> 'b socket_scheme) run" where
  "forwarder p1 p2 now rounds now2 t2 pick s1 s2 =
     run_bind (RecvMsg p1 now rounds s1) (\<lambda>(r, u1).
       case r of
         Inl e \<Rightarrow> Ret (Exit, u1, s2)
       | Inr m \<Rightarrow>
           (case hand_over (msgs u1 m) s2 of (m2, v2) \<Rightarrow>
             run_bind (SendMsg p2 now2 t2 pick m2 v2) (\<lambda>(e, u2).
               Ret (if e \<noteq> None then Exit else Loop, u1, u2))))"

section \<open>Facts\<close>

text \<open>A device starts exactly on valid peers, and then both sockets are raw.\<close>

lemma Device_ok:
  assumes "protocol_impl p1" "protocol_impl p2"
  shows "ValidPeers p1 p2 \<Longrightarrow> \<exists>u1 u2. Device p1 p2 s1 s2 = Ret (None, spawn (GForward 1 2) u1, spawn (GForward 2 1) u2) \<and>
      sock_GetOption p1 OptionRaw u1 = Inr (VBool True) \<and> sock_GetOption p2 OptionRaw u2 = Inr (VBool True)"
    and "\<not> ValidPeers p1 p2 \<Longrightarrow> Device p1 p2 s1 s2 = Ret (Some ErrBadProto, s1, s2)"
proof -
  assume v: "ValidPeers p1 p2"
  note r1 = protocol_impl.set_raw [OF assms(1), of True s1] and r2 = protocol_impl.set_raw [OF assms(2), of True s2]
  from protocol_impl.get_raw [OF assms(1) r1] protocol_impl.get_raw [OF assms(2) r2] v r1 r2
  show "\<exists>u1 u2. Device p1 p2 s1 s2 = Ret (None, spawn (GForward 1 2) u1, spawn (GForward 2 1) u2) \<and>
      sock_GetOption p1 OptionRaw u1 = Inr (VBool True) \<and> sock_GetOption p2 OptionRaw u2 = Inr (VBool True)"
    by (simp add: Device_def) blast
qed (simp add: Device_def)

lemma Device_loopback_ok:
  assumes "protocol_impl p"
  shows "(\<exists>u. Device_loopback p (Some s) = Ret (None, Some u)) \<longleftrightarrow> op_Number p = op_PeerNumber p"
proof -
  have "\<exists>t u. sock_SetOption p OptionRaw (VBool True) s = Ret (None, t) \<and>
      sock_SetOption p OptionRaw (VBool True) t = Ret (None, u)"
    using protocol_impl.set_raw [OF assms] by blast
  then show ?thesis by (auto simp: Device_loopback_def ValidPeers_iff)
qed

text \<open>
  A forwarded message arrives on the other socket's send queue with header and body as they
  were received, when no hook of the two protocols interferes.
\<close>

lemma forwarder_passes:
  assumes "RecvMsg p1 now rounds s1 = Ret (Inr m, u1)" "op_SendHook p2 = None \<or> (\<exists>hook. op_SendHook p2 = Some hook \<and> (\<forall>x t. hook x t = Ret (True, t)))"
    and "senderr s2 = None" "\<not> cclosed (chans s2 (uwq s2))" "chan_room (chans s2 (uwq s2))"
    and "\<not> closeq s2" "\<not> bestEffort s2" "wdeadline s2 = 0"
  shows "\<exists>u2. forwarder p1 p2 now rounds now2 t2 pick s1 s2 = Ret (Loop, u1, u2) \<and>
    cbuf (chans u2 (uwq s2)) = cbuf (chans s2 (uwq s2)) @ [nextm s2] \<and>
    hdr (msgs u2 (nextm s2)) = hdr (msgs u1 m) \<and> body (msgs u2 (nextm s2)) = body (msgs u1 m)"
proof -
  let ?v2 = "s2\<lparr>msgs := (msgs s2)(nextm s2 := msgs u1 m), nextm := Suc (nextm s2)\<rparr>"
  have st: "SendMsg_start p2 now2 (nextm s2) ?v2 = Ret (None, upd_msg (nextm s2) (\<lambda>x. x\<lparr>expire := None\<rparr>) ?v2)"
    using assms(2,3,8) by (auto simp: SendMsg_start_def)
  have se: "SendMsg_select now2 t2 pick (nextm s2) (upd_msg (nextm s2) (\<lambda>x. x\<lparr>expire := None\<rparr>) ?v2) =
      Ret (None, push_on (uwq s2) (nextm s2) (upd_msg (nextm s2) (\<lambda>x. x\<lparr>expire := None\<rparr>) ?v2))"
    using assms(4-8)
    by (simp add: SendMsg_select_def go_select_def mkTimer_def timer_ready_def chan_cases upd_msg_def Let_def)
  show ?thesis
    using assms(1) st se
    by (simp add: forwarder_def hand_over_def alloc_msg_def SendMsg_def push_on_def upd_msg_def)
qed

end
