(* ===== verification/Relay.thy ===== *)
theory Relay
  imports Req Rep Device
begin

text \<open>
  A request on its way through REQ/REP devices and back. What travels on a pipe is the
  header followed by the body; a raw REP socket puts the identifier of the pipe a request
  came over in front, and the reply loses one identifier at each device and follows it.
\<close>

definition wire :: "message \<Rightarrow> bytes" where
  "wire x = hdr_bytes x @ body x"

text \<open>A device's REP side: every request it accepts grows by the identifier of its pipe.\<close>

lemma request_hop:
  assumes "hdr (msgs s r) = Some []" "rep_receiver pick (urq s) ep (Some r) s = Ret (Loop, s')"
    and "\<not> cclosed (chans s (urq s))"
  shows "wire (msgs s' r) = be32 (GetID s ep) @ body (msgs s r)"
    and "cbuf (chans s' (urq s)) = cbuf (chans s (urq s)) @ [r]"
proof -
  let ?s1 = "append_hdr r (be32 (GetID s ep)) s"
  have h1: "hdr (msgs ?s1 r) = Some (be32 (GetID s ep))" "body (msgs ?s1 r) = body (msgs s r)"
    using assms(1) by (simp_all add: append_hdr_eff)
  note bl = backtrace_loop_parse [OF h1(1), of "rep_ttl ?s1" 0, unfolded h1(2)]
  obtain bt rest where p: "bt_parse (rep_ttl ?s1) 0 (body (msgs s r)) = Some (bt, rest)"
    using assms(2) bl by (cases "bt_parse (rep_ttl ?s1) 0 (body (msgs s r))") (auto simp: rep_receiver_def Let_def)
  let ?s2 = "?s1\<lparr>msgs := (msgs ?s1)(r := (msgs ?s1 r)\<lparr>hdr := Some (be32 (GetID s ep) @ bt), body := rest\<rparr>)\<rparr>"
  have l: "backtrace_loop (rep_ttl ?s1) 0 r ?s1 = (True, ?s2)" using bl p by simp
  have "\<not> cclosed (chans ?s2 (urq s))" using assms(3) by (simp add: append_hdr_eff)
  from up_send_cases [OF this, of pick r] assms(2) l have s': "s' = push_on (urq s) r ?s2"
    by (auto simp: rep_receiver_def Let_def split: if_splits)
  show "wire (msgs s' r) = be32 (GetID s ep) @ body (msgs s r)"
    using bt_parse_Some [OF p] by (simp add: s' push_on_def wire_def hdr_bytes_def)
  show "cbuf (chans s' (urq s)) = cbuf (chans s (urq s)) @ [r]"
    by (simp add: s' push_on_def append_hdr_eff)
qed

text \<open>
  The way back: the REQ side moves the first identifier of the reply to the header, the
  device hands the message over, and the REP side sends the rest to the peer of that
  identifier.
\<close>

lemma reply_hop:
  assumes "hdr (msgs s r) = Some []" "body (msgs s r) = be32 i @ rest"
    and "req_receiver pick (urq s) (Some r) s = Ret (Loop, s')"
    and "\<not> cclosed (chans s (urq s))" "\<not> closeq s"
    and "hand_over (msgs s' r) t = (m, t1)" "rep_eps t i = Some pe"
    and "\<not> cclosed (chans t (re_q pe))" "chan_room (chans t (re_q pe))"
  shows "\<exists>t2. rep_route m t1 = Ret t2 \<and> wire (msgs t2 m) = rest \<and>
    cbuf (chans t2 (re_q pe)) = cbuf (chans t (re_q pe)) @ [m] \<and>
    (\<forall>q. q \<noteq> re_q pe \<longrightarrow> chans t2 q = chans t q)"
proof -
  have mv: "move4 r s = s\<lparr>msgs := (msgs s)(r := (msgs s r)\<lparr>hdr := Some (be32 i), body := rest\<rparr>)\<rparr>"
    using assms(1,2) by (simp add: move4_eff)
  have "\<not> cclosed (chans (move4 r s) (urq s))" using assms(4) by (simp add: move4_eff)
  from up_send_cases [OF this, of pick r] assms(2,3,5) have "s' = push_on (urq s) r (move4 r s)"
    by (auto simp: req_receiver_def move4_eff split: if_splits)
  then have x: "hdr (msgs s' r) = Some (be32 i)" "body (msgs s' r) = rest"
    by (simp_all add: mv push_on_def)
  have t1: "m = nextm t" "t1 = t\<lparr>msgs := (msgs t)(nextm t := msgs s' r), nextm := Suc (nextm t)\<rparr>"
    using assms(6) by (auto simp: hand_over_def alloc_msg_def)
  have h: "hdr (msgs t1 m) = Some (be32 i @ [])" using x t1 by simp
  from rep_route_known [OF h, of pe] assms(7-9) t1 x show ?thesis
    by (simp add: Let_def push_on_def wire_def hdr_bytes_def)
qed

text \<open>
  The path of a request that crosses devices with pipe identifiers \<open>ids\<close> (the first one
  crossed first), and the identifiers the reply meets on its way back.
\<close>

definition request_path :: "u32 list \<Rightarrow> u32 \<Rightarrow> bytes" where
  "request_path ids v = foldl (\<lambda>w i. be32 i @ w) (be32 v) ids"

lemma request_path_eq: "request_path ids v = path_bytes (rev ids) @ be32 v"
proof -
  have "foldl (\<lambda>w i. be32 i @ w) w ids = path_bytes (rev ids) @ w" for w
    by (induction ids arbitrary: w) auto
  then show ?thesis by (simp add: request_path_def)
qed

text \<open>
  The end point: a REP socket takes a request that crossed fewer devices than its hop limit
  whatever the identifiers of their pipes, and its reply carries the saved path, the pipe to
  send on in front.
\<close>

lemma rep_answers_path:
  assumes "\<not> rep_raw s" "hdr (msgs s r) = Some (be32 p @ request_path ids v)"
    and "rep_RecvHook r s = Ret (b, s1)" "hdr (msgs s1 a) = Some h" "rep_SendHook a s1 = Ret (c, s2)"
  shows "b \<and> c \<and> hdr (msgs s2 a) = Some (be32 p @ request_path ids v) \<and> rep_backtrace s2 = None \<and>
    senderr s1 = None \<and> senderr s2 = Some ErrProtoState"
  using assms
  by (auto simp: rep_RecvHook_def rep_SendHook_def sock_eff set_hdr_def hdr_bytes_def Let_def)

end
