(* ===== verification/Exchange.thy ===== *)
theory Exchange
  imports Relay Fresh_Sockets
begin

text \<open>
  A request and its reply, end to end: from the hooks of the client's REQ socket through
  any number of REQ/REP devices to a REP socket, and back. The pieces are the components'
  own operations, run one after the other on the states of the sockets; what passes from
  one process to the next is the bytes of a message on the wire.
\<close>

section \<open>One device, both ways\<close>

text \<open>A message as a transport or the application makes it: an empty header and a body.\<close>

definition fresh_msg :: "bytes \<Rightarrow> message" where
  "fresh_msg b = (newMsg (length b))\<lparr>refcnt := 1, hdr := Some [], body := b\<rparr>"

definition arrive :: "bytes \<Rightarrow> 'a heap_scheme \<Rightarrow> mref \<times> 'a heap_scheme" where
  "arrive b s = alloc_msg (fresh_msg b) s"

lemma fresh_msg_simps [simp]: "hdr (fresh_msg b) = Some []" "body (fresh_msg b) = b"
  by (simp_all add: fresh_msg_def)

text \<open>
  A device: its raw REP socket when the request comes over endpoint \<open>dv_ep\<close>, its raw REQ
  socket when the reply comes, and its REP socket at that time.
\<close>

record device =
  dv_rep :: rep
  dv_ep :: pref
  dv_req :: req
  dv_back :: rep

definition dv_id :: "device \<Rightarrow> u32" where
  "dv_id d = GetID (dv_rep d) (dv_ep d)"

text \<open>The bytes that leave the device on the REQ side, when the request is accepted.\<close>

definition dv_request :: "device \<Rightarrow> bytes \<Rightarrow> bytes option" where
  "dv_request d b =
     (let s = dv_rep d; (r, s1) = arrive b s
      in case rep_receiver UUp (urq s1) (dv_ep d) (Some r) s1 of
           Ret (Loop, s2) \<Rightarrow>
             if cbuf (chans s2 (urq s2)) = cbuf (chans s (urq s)) @ [r] then Some (wire (msgs s2 r)) else None
         | _ \<Rightarrow> None)"

text \<open>
  The bytes that go to the queue of the peer the request came from, when the reply is
  routed there.
\<close>

definition dv_reply :: "device \<Rightarrow> bytes \<Rightarrow> bytes option" where
  "dv_reply d b =
     (let u = dv_req d; t = dv_back d; (r, u1) = arrive b u
      in case req_receiver UUp (urq u1) (Some r) u1 of
           Ret (Loop, u2) \<Rightarrow>
             (case hand_over (msgs u2 r) t of (m, t1) \<Rightarrow>
               (case (rep_route m t1, rep_eps t (dv_id d)) of
                  (Ret t2, Some pe) \<Rightarrow>
                    if cbuf (chans t2 (re_q pe)) = cbuf (chans t (re_q pe)) @ [m]
                    then Some (wire (msgs t2 m)) else None
                | _ \<Rightarrow> None))
         | _ \<Rightarrow> None)"

definition rq_open :: "'a socket_scheme \<Rightarrow> bool" where
  "rq_open s \<longleftrightarrow> \<not> cclosed (chans s (urq s)) \<and> chan_room (chans s (urq s)) \<and> \<not> closeq s"

definition peer_open :: "rep \<Rightarrow> u32 \<Rightarrow> bool" where
  "peer_open t i \<longleftrightarrow> (case rep_eps t i of None \<Rightarrow> False
     | Some pe \<Rightarrow> \<not> cclosed (chans t (re_q pe)) \<and> chan_room (chans t (re_q pe)))"

definition dv_ready :: "device \<Rightarrow> bool" where
  "dv_ready d \<longleftrightarrow> \<not> hibit (dv_id d) \<and> rq_open (dv_rep d) \<and> rq_open (dv_req d) \<and> peer_open (dv_back d) (dv_id d)"

lemma dv_request_path:
  assumes "dv_ready d" "\<forall>i \<in> set ids. \<not> hibit i" "hibit v"
  shows "dv_request d (path_bytes ids @ be32 v @ p) =
    (if int (length ids) < rep_ttl (dv_rep d)
     then Some (path_bytes (dv_id d # ids) @ be32 v @ p) else None)"
proof -
  let ?b = "path_bytes ids @ be32 v @ p"
  define s where "s = dv_rep d"
  define s1 where "s1 = s\<lparr>msgs := (msgs s)(nextm s := fresh_msg ?b), nextm := Suc (nextm s)\<rparr>"
  have arr: "arrive ?b s = (nextm s, s1)" by (simp add: arrive_def alloc_msg_def s1_def)
  have open1: "\<not> cclosed (chans s1 (urq s1))" "chan_room (chans s1 (urq s1))" "\<not> closeq s1"
    using assms(1) by (simp_all add: dv_ready_def rq_open_def s1_def s_def)
  have m: "hdr (msgs s1 (nextm s)) = Some []" "body (msgs s1 (nextm s)) = ?b" by (simp_all add: s1_def)
  show ?thesis
  proof (cases "int (length ids) < rep_ttl s")
    case True
    then have "int (length ids) < rep_ttl s1" by (simp add: s1_def)
    from rep_receiver_path [OF m assms(2,3) this open1, of UUp "dv_ep d"] True arr
    show ?thesis
      by (simp add: dv_request_def s_def [symmetric] Let_def push_on_def wire_def hdr_bytes_def
          dv_id_def) (simp add: s1_def GetID_def)
  next
    case False
    then have "bt_parse (rep_ttl s1) 0 (body (msgs s1 (nextm s))) = None"
      using m bt_parse_path [OF assms(2,3), of "rep_ttl s1" 0 p] by (simp add: s1_def)
    from rep_receiver_bad [OF m(1) this, of UUp "urq s1" "dv_ep d"] False arr
    show ?thesis by (auto simp: dv_request_def s_def [symmetric])
  qed
qed

lemma dv_reply_path:
  assumes "dv_ready d"
  shows "dv_reply d (be32 (dv_id d) @ rest) = Some rest"
proof -
  let ?b = "be32 (dv_id d) @ rest"
  define u t where "u = dv_req d" and "t = dv_back d"
  define u1 where "u1 = u\<lparr>msgs := (msgs u)(nextm u := fresh_msg ?b), nextm := Suc (nextm u)\<rparr>"
  have arr: "arrive ?b u = (nextm u, u1)" by (simp add: arrive_def alloc_msg_def u1_def)
  have open1: "\<not> cclosed (chans u1 (urq u1))" "chan_room (chans u1 (urq u1))" "\<not> closeq u1"
    using assms by (simp_all add: dv_ready_def rq_open_def u1_def u_def)
  have m: "hdr (msgs u1 (nextm u)) = Some []" "body (msgs u1 (nextm u)) = ?b" by (simp_all add: u1_def)
  obtain u2 where u2: "req_receiver UUp (urq u1) (Some (nextm u)) u1 = Ret (Loop, u2)"
    using req_receiver_up [OF m open1, of UUp] by auto
  obtain pe where pe: "rep_eps t (dv_id d) = Some pe" "\<not> cclosed (chans t (re_q pe))" "chan_room (chans t (re_q pe))"
    using assms by (auto simp: dv_ready_def peer_open_def t_def split: option.splits)
  obtain m2 t1 where ho: "hand_over (msgs u2 (nextm u)) t = (m2, t1)" by fastforce
  from reply_hop [OF m u2 open1(1,3) ho pe] show ?thesis
    using arr u2 ho pe by (auto simp: dv_reply_def u_def [symmetric] t_def [symmetric])
qed

section \<open>A chain of devices\<close>

fun relay_request :: "device list \<Rightarrow> bytes \<Rightarrow> bytes option" where
  "relay_request [] b = Some b"
| "relay_request (d # ds) b = (case dv_request d b of None \<Rightarrow> None | Some b' \<Rightarrow> relay_request ds b')"

fun relay_reply :: "device list \<Rightarrow> bytes \<Rightarrow> bytes option" where
  "relay_reply [] b = Some b"
| "relay_reply (d # ds) b = (case dv_reply d b of None \<Rightarrow> None | Some b' \<Rightarrow> relay_reply ds b')"

text \<open>The hop limit of each device counts the devices the request crossed before.\<close>

fun within_ttl :: "nat \<Rightarrow> device list \<Rightarrow> bool" where
  "within_ttl k [] = True"
| "within_ttl k (d # ds) = (int k < rep_ttl (dv_rep d) \<and> within_ttl (Suc k) ds)"

lemma relay_request_path:
  "\<forall>d \<in> set ds. dv_ready d \<Longrightarrow> \<forall>i \<in> set ids. \<not> hibit i \<Longrightarrow> hibit v \<Longrightarrow>
   relay_request ds (path_bytes ids @ be32 v @ p) =
     (if within_ttl (length ids) ds
      then Some (path_bytes (rev (map dv_id ds) @ ids) @ be32 v @ p) else None)"
proof (induction ds arbitrary: ids)
  case Nil
  then show ?case by simp
next
  case (Cons d ds)
  have "\<forall>i \<in> set (dv_id d # ids). \<not> hibit i" using Cons.prems by (simp add: dv_ready_def)
  from Cons.IH [OF _ this Cons.prems(3)] Cons.prems dv_request_path [OF _ Cons.prems(2,3), of d p]
  show ?case by simp
qed

lemma relay_reply_path:
  "\<forall>d \<in> set ds. dv_ready d \<Longrightarrow> relay_reply ds (path_bytes (map dv_id ds) @ b) = Some b"
  by (induction ds) (simp_all add: dv_reply_path)

section \<open>The two ends\<close>

lemma go_select_pick: "(a, True) \<in> set arms \<Longrightarrow> go_select arms d a = Some a"
  by (force simp: go_select_def Let_def filter_empty_conv)

lemma SendMsg_pushes:
  assumes "senderr s = None" "op_SendHook proto = Some hook" "hook m s = Ret (True, s1)"
    and "\<not> cclosed (chans s1 (uwq s1))" "chan_room (chans s1 (uwq s1))"
  shows "SendMsg proto now t SSend m s = Ret (None, push_on (uwq s1) m
    (upd_msg m (\<lambda>x. x\<lparr>expire := (if wdeadline s1 \<noteq> 0 then Some (now + wdeadline s1) else None)\<rparr>) s1))"
proof -
  have "send_ready (uwq s1) s2 \<and> ch_send (uwq s1) m s2 = Ret (push_on (uwq s1) m s2)"
    if "chans s2 = chans s1" for s2 :: "'a socket_scheme"
    using that assms(4,5) by (simp add: chan_cases)
  with assms(1-3) show ?thesis
    by (auto simp: SendMsg_def SendMsg_start_def SendMsg_select_def go_select_pick upd_msg_def)
qed

lemma RecvMsg_takes:
  assumes "recverr s = None" "cbuf (chans s (urq s)) = r # rs" "op_RecvHook proto = Some hook"
    and "hook r (pop_on (urq s) s) = Ret (True, s1)"
  shows "RecvMsg proto now [(t, RMsg)] s = Ret (Inr r, s1)"
  using assms by (simp add: RecvMsg_def RecvMsg_iter_def go_select_pick chan_cases)

text \<open>
  The client: its request as it leaves, and what \<^verbatim>\<open>Recv\<close> hands to the application when a
  message arrives.
\<close>

definition req_ask :: "u32 \<Rightarrow> req \<Rightarrow> bytes \<Rightarrow> (bytes \<times> req) option" where
  "req_ask now c p =
     (let (m, c1) = arrive p c
      in case SendMsg (req_ops now) 0 0 SSend m c1 of
           Ret (None, c2) \<Rightarrow> Some (wire (msgs c2 m), c2)
         | _ \<Rightarrow> None)"

definition req_answer :: "u32 \<Rightarrow> req \<Rightarrow> bytes \<Rightarrow> bytes option" where
  "req_answer now c b =
     (let (r, c1) = arrive b c
      in case req_receiver UUp (urq c1) (Some r) c1 of
           Ret (Loop, c2) \<Rightarrow>
             (case RecvMsg (req_ops now) 0 [(0, RMsg)] c2 of
                Ret (Inr q, c3) \<Rightarrow> Some (body (msgs c3 q))
              | _ \<Rightarrow> None)
         | _ \<Rightarrow> None)"

text \<open>
  The server: it receives a request over endpoint \<open>ep\<close>, the application answers, and the
  sender goroutine routes the reply to the peer; the result is what waits in that peer's
  queue.
\<close>

definition rep_serve :: "rep \<Rightarrow> pref \<Rightarrow> (bytes \<Rightarrow> bytes) \<Rightarrow> bytes \<Rightarrow> bytes option" where
  "rep_serve s ep app b =
     (let (r, s1) = arrive b s
      in case rep_receiver UUp (urq s1) ep (Some r) s1 of
           Ret (Loop, s2) \<Rightarrow>
             (case RecvMsg rep_ops 0 [(0, RMsg)] s2 of
                Ret (Inr q, s3) \<Rightarrow>
                  (let (a, s4) = arrive (app (body (msgs s3 q))) s3
                   in case SendMsg rep_ops 0 0 SSend a s4 of
                        Ret (None, s5) \<Rightarrow>
                          (case (rep_sender TMsg (SendChannel s5) s5, rep_eps s (GetID s ep)) of
                             (Ret (_, s6), Some pe) \<Rightarrow>
                               if cbuf (chans s6 (re_q pe)) = cbuf (chans s (re_q pe)) @ [a]
                               then Some (wire (msgs s6 a)) else None
                           | _ \<Rightarrow> None)
                      | _ \<Rightarrow> None)
              | _ \<Rightarrow> None)
         | _ \<Rightarrow> None)"

definition uwq_open :: "'a socket_scheme \<Rightarrow> bool" where
  "uwq_open s \<longleftrightarrow> \<not> cclosed (chans s (uwq s)) \<and> chan_room (chans s (uwq s)) \<and>
     cbuf (chans s (uwq s)) = [] \<and> cbuf (chans s (urq s)) = [] \<and> uwq s \<noteq> urq s"

definition client_ready :: "req \<Rightarrow> bool" where
  "client_ready c \<longleftrightarrow> \<not> req_raw c \<and> senderr c = None \<and> rq_open c \<and> uwq_open c"

definition server_ready :: "rep \<Rightarrow> pref \<Rightarrow> bool" where
  "server_ready s ep \<longleftrightarrow> \<not> rep_raw s \<and> recverr s = None \<and> rq_open s \<and> uwq_open s \<and> \<not> bestEffort s \<and>
     (case rep_eps s (GetID s ep) of None \<Rightarrow> False
      | Some pe \<Rightarrow> \<not> cclosed (chans s (re_q pe)) \<and> chan_room (chans s (re_q pe)) \<and>
          re_q pe \<noteq> uwq s \<and> re_q pe \<noteq> urq s)"

lemma req_ask_ready:
  assumes "client_ready c"
  shows "\<exists>c2. req_ask now c p = Some (be32 (req_reqid c2) @ p, c2) \<and> hibit (req_reqid c2) \<and>
    req_reqmsg c2 \<noteq> None \<and> \<not> req_raw c2 \<and> recverr c2 = None \<and> rq_open c2 \<and> cbuf (chans c2 (urq c2)) = []"
proof -
  define c1 where "c1 = c\<lparr>msgs := (msgs c)(nextm c := fresh_msg p), nextm := Suc (nextm c)\<rparr>"
  let ?m = "nextm c"
  have arr: "arrive p c = (?m, c1)" by (simp add: arrive_def alloc_msg_def c1_def)
  obtain c2 where h: "req_SendHook ?m c1 = Ret (True, c2)" "chans c2 = chans c" "uwq c2 = uwq c" "urq c2 = urq c"
      "closeq c2 = closeq c" "body (msgs c2 ?m) = p"
    using assms by (auto simp: client_ready_def c1_def req_SendHook_def req_nextID_def req_rearm_def
        sock_eff msg_eff upd_msg_def Let_def)
  have raw: "\<not> req_raw c1" using assms by (simp add: client_ready_def c1_def)
  note hook = req_SendHook_cooked [OF raw h(1)]
  have s: "SendMsg (req_ops now) 0 0 SSend ?m c1 = Ret (None, push_on (uwq c2) ?m
      (upd_msg ?m (\<lambda>x. x\<lparr>expire := (if wdeadline c2 \<noteq> 0 then Some (0 + wdeadline c2) else None)\<rparr>) c2))"
    using assms h by (intro SendMsg_pushes [where hook = req_SendHook])
       (simp_all add: client_ready_def c1_def uwq_open_def req_ops_def)
  have b: "hdr_bytes (msgs c2 ?m) = be32 (req_reqid c2)"
    using hook(4) by (simp add: c1_def hdr_bytes_slice)
  show ?thesis
    using arr s b h hook assms
    by (simp add: req_ask_def wire_def push_on_def upd_msg_def client_ready_def rq_open_def uwq_open_def hdr_bytes_def)
qed

lemma req_answer_ready:
  assumes "rq_open c" "cbuf (chans c (urq c)) = []" "\<not> req_raw c" "recverr c = None" "req_reqmsg c \<noteq> None"
  shows "req_answer now c (be32 (req_reqid c) @ ans) = Some ans"
proof -
  let ?b = "be32 (req_reqid c) @ ans"
  define c1 where "c1 = c\<lparr>msgs := (msgs c)(nextm c := fresh_msg ?b), nextm := Suc (nextm c)\<rparr>"
  let ?r = "nextm c"
  have arr: "arrive ?b c = (?r, c1)" by (simp add: arrive_def alloc_msg_def c1_def)
  define c2 where "c2 = push_on (urq c1) ?r (c1\<lparr>msgs := (msgs c1)(?r := (msgs c1 ?r)\<lparr>
      hdr := Some ([] @ be32 (req_reqid c)), body := ans\<rparr>)\<rparr>)"
  have up: "req_receiver UUp (urq c1) (Some ?r) c1 = Ret (Loop, c2)"
    unfolding c2_def using assms(1) by (intro req_receiver_up) (simp_all add: c1_def rq_open_def)
  have c2: "recverr c2 = None" "cbuf (chans c2 (urq c2)) = ?r # []"
    using assms by (simp_all add: c2_def push_on_def c1_def)
  obtain c3 where h: "req_RecvHook ?r (pop_on (urq c2) c2) = Ret (True, c3)"
    using assms req_RecvHook_iff [of "pop_on (urq c2) c2" ?r] be_Uint32_be32 [of "req_reqid c" "[]"]
    by (auto simp: c2_def push_on_def pop_on_def c1_def hdr_bytes_def)
  have b: "body (msgs c3 ?r) = ans"
    using h assms by (auto simp: req_RecvHook_def c2_def push_on_def pop_on_def c1_def sock_eff Free_eff Let_def
        split: option.splits if_splits)
  have "RecvMsg (req_ops now) 0 [(0, RMsg)] c2 = Ret (Inr ?r, c3)"
    using c2 h by (intro RecvMsg_takes [where hook = req_RecvHook and rs = "[]"]) (simp_all add: req_ops_def)
  with arr up b show ?thesis by (simp add: req_answer_def)
qed

lemma rep_serve_ready:
  assumes "server_ready s ep" "\<forall>i \<in> set ids. \<not> hibit i" "hibit v" "int (length ids) < rep_ttl s"
  shows "rep_serve s ep app (path_bytes ids @ be32 v @ p) = Some (path_bytes ids @ be32 v @ app p)"
proof -
  let ?path = "path_bytes ids @ be32 v"
  let ?r = "nextm s" and ?h = "be32 (GetID s ep) @ ?path"
  define s1 where "s1 = s\<lparr>msgs := (msgs s)(?r := fresh_msg (?path @ p)), nextm := Suc ?r\<rparr>"
  define s2 where "s2 = push_on (urq s1) ?r (s1\<lparr>msgs := (msgs s1)(?r := (msgs s1 ?r)\<lparr>
      hdr := Some (be32 (GetID s1 ep) @ path_bytes ids @ be32 v), body := p\<rparr>)\<rparr>)"
  define s3 where "s3 = (pop_on (urq s) s2)\<lparr>senderr := None, rep_backtrace := Some ?h,
      msgs := (msgs s2)(?r := (msgs s2 ?r)\<lparr>hdr := None\<rparr>)\<rparr>"
  define s4 where "s4 = s3\<lparr>msgs := (msgs s3)(Suc ?r := fresh_msg (app p)), nextm := Suc (Suc ?r)\<rparr>"
  define s5 where "s5 = s4\<lparr>senderr := Some ErrProtoState, rep_backtrace := None,
      msgs := (msgs s4)(Suc ?r := (msgs s4 (Suc ?r))\<lparr>hdr := Some ?h\<rparr>)\<rparr>"
  note defs = s1_def s2_def s3_def s4_def s5_def push_on_def pop_on_def
  note op = assms(1) [unfolded server_ready_def rq_open_def uwq_open_def]
  obtain pe where pe: "rep_eps s (GetID s ep) = Some pe" "\<not> cclosed (chans s (re_q pe))"
      "chan_room (chans s (re_q pe))" "re_q pe \<noteq> uwq s" "re_q pe \<noteq> urq s"
    using op by (auto split: option.splits)
  have rcv: "rep_receiver UUp (urq s1) ep (Some ?r) s1 = Ret (Loop, s2)"
    unfolding s2_def using assms op by (intro rep_receiver_path) (simp_all add: s1_def)
  have take: "RecvMsg rep_ops 0 [(0, RMsg)] s2 = Ret (Inr ?r, s3)"
    using op by (intro RecvMsg_takes [where hook = rep_RecvHook and rs = "[]"])
      (simp_all add: defs rep_ops_def rep_RecvHook_def sock_eff set_hdr_def upd_msg_def hdr_bytes_def GetID_def Let_def)
  have app: "body (msgs s3 ?r) = p" by (simp add: defs)
  have arr: "arrive (?path @ p) s = (?r, s1)" "arrive (app p) s3 = (Suc ?r, s4)"
    by (simp_all add: arrive_def alloc_msg_def defs)
  have hook: "rep_SendHook (Suc ?r) s4 = Ret (True, s5)"
    using op by (simp add: rep_SendHook_def defs sock_eff set_hdr_def upd_msg_def hdr_bytes_def Let_def)
  define s6 where "s6 = push_on (uwq s) (Suc ?r) (upd_msg (Suc ?r) (\<lambda>x. x\<lparr>expire :=
      (if wdeadline s5 \<noteq> 0 then Some (0 + wdeadline s5) else None)\<rparr>) s5)"
  have snd: "SendMsg rep_ops 0 0 SSend (Suc ?r) s4 = Ret (None, s6)"
  proof -
    have u: "uwq s5 = uwq s" by (simp add: defs)
    show ?thesis
      unfolding s6_def u [symmetric] using op hook
      by (intro SendMsg_pushes [where hook = rep_SendHook]) (simp_all add: defs rep_ops_def)
  qed
  have top: "top_recv TMsg (SendChannel s6) s6 = Ret (TopMsg (Suc ?r) (pop_on (uwq s) s6))"
    using op by (simp add: top_recv_def go_select_pick sock_eff chan_cases s6_def upd_msg_def defs)
  have h6: "hdr (msgs (pop_on (uwq s) s6) (Suc ?r)) = Some (be32 (GetID s ep) @ ?path)"
    "rep_eps (pop_on (uwq s) s6) (GetID s ep) = Some pe"
    "chans (pop_on (uwq s) s6) (re_q pe) = chans s (re_q pe)"
    "body (msgs (pop_on (uwq s) s6) (Suc ?r)) = app p"
    using pe by (simp_all add: s6_def upd_msg_def defs)
  from rep_route_known [OF h6(1,2)] pe h6 obtain s7 where s7: "rep_route (Suc ?r) (pop_on (uwq s) s6) = Ret s7"
    "cbuf (chans s7 (re_q pe)) = cbuf (chans s (re_q pe)) @ [Suc ?r]" "wire (msgs s7 (Suc ?r)) = ?path @ app p"
    by (auto simp: push_on_def wire_def hdr_bytes_def Let_def)
  have "rep_sender TMsg (SendChannel s6) s6 = Ret ((Loop, SendChannel s6), s7)"
    using top s7(1) by (simp add: rep_sender_def sender_loop_def)
  with rcv take app arr snd pe(1) s7(2,3) show ?thesis by (simp add: rep_serve_def)
qed

section \<open>The whole exchange\<close>

text \<open>
  A client asks, the request crosses the devices, the server answers, and the reply crosses
  them in the opposite order: what the client's application receives.
\<close>

definition exchange ::
  "u32 \<Rightarrow> req \<Rightarrow> device list \<Rightarrow> rep \<Rightarrow> pref \<Rightarrow> (bytes \<Rightarrow> bytes) \<Rightarrow> bytes \<Rightarrow> bytes option" where
  "exchange now c ds s ep app p =
     (case req_ask now c p of
        None \<Rightarrow> None
      | Some (w, c2) \<Rightarrow>
          Option.bind (relay_request ds w) (\<lambda>w1.
            Option.bind (rep_serve s ep app w1) (\<lambda>w2.
              Option.bind (relay_reply (rev ds) w2) (req_answer now c2))))"

text \<open>Fresh sockets qualify: a client, a device with one client, and a server with one client.\<close>

definition one_device :: device where
  "one_device = \<lparr>dv_rep = rep_AddEndpoint 0 (rep_NewSocket zero_rep), dv_ep = 0,
     dv_req = req_NewSocket 0 zero_req, dv_back = rep_AddEndpoint 0 (rep_NewSocket zero_rep)\<rparr>"

lemma fresh_client: "client_ready (req_NewSocket now zero_req)"
  by (simp add: client_ready_def rq_open_def uwq_open_def req_fresh)

lemma fresh_server: "server_ready (rep_AddEndpoint 0 (rep_NewSocket zero_rep)) 0"
  by (simp add: server_ready_def rq_open_def uwq_open_def rep_AddEndpoint_def GetID_def rep_fresh)

lemma fresh_device: "dv_ready one_device"
  by (simp add: dv_ready_def one_device_def dv_id_def rq_open_def peer_open_def rep_AddEndpoint_def
      GetID_def hibit_def rep_fresh req_fresh)

lemma fresh_ttl: "rep_ttl (rep_AddEndpoint 0 (rep_NewSocket zero_rep)) = 8"
  by (simp add: rep_AddEndpoint_def rep_fresh)

end
