(* ===== verification/Delivery.thy ===== *)
theory Delivery
  imports Exchange
begin

text \<open>
  What each protocol does with a message: which requests, replies and surveys are accepted,
  and which peers a broadcast reaches. Every property comes with an instance on sockets
  made by \<^verbatim>\<open>NewSocket\<close>.
\<close>

section \<open>Requests: hop limit, matching and retry\<close>

text \<open>
  C15: A chain of devices passes a request exactly when each device's hop limit exceeds the
  number of devices crossed before it; then the pipes' identifiers stand in front of the
  request, the last one first. Otherwise the request is dropped.
\<close>

theorem request_hop_limit:
  assumes "\<forall>d \<in> set ds. dv_ready d" "hibit v"
  shows "relay_request ds (be32 v @ p) =
    (if within_ttl 0 ds then Some (request_path (map dv_id ds) v @ p) else None)"
  using relay_request_path [of ds "[]" v p] assms by (simp add: request_path_eq rev_map)

theorem request_hop_limit_witness:
  "relay_request (replicate 8 one_device) (be32 0x80000001 @ [5]) \<noteq> None \<and>
   relay_request (replicate 9 one_device) (be32 0x80000001 @ [5]) = None"
proof -
  have "hibit 0x80000001" by (simp add: hibit_def)
  from request_hop_limit [OF _ this, of "replicate 8 one_device" "[5]"]
    request_hop_limit [OF _ this, of "replicate 9 one_device" "[5]"]
  show ?thesis
    using fresh_device fresh_ttl by (simp add: one_device_def numeral_eq_Suc)
qed

text \<open>
  C16: A cooked req socket accepts a message as the reply exactly when a request is
  outstanding and the message carries its identifier. Accepting it ends the request, makes
  a further receive fail, and no other reply is accepted after it. Everything else is
  rejected and leaves the socket as it was.
\<close>

theorem req_accepts_one_reply:
  assumes "\<not> req_raw s"
  shows "if req_reqmsg s \<noteq> None \<and> be_Uint32 (hdr_bytes (msgs s m)) = Some (req_reqid s)
    then \<exists>s'. req_RecvHook m s = Ret (True, s') \<and> req_reqmsg s' = None \<and> req_waker s' = None \<and>
      recverr s' = Some ErrProtoState \<and> (\<forall>m'. req_RecvHook m' s' = Ret (False, s'))
    else req_RecvHook m s = Ret (False, s)"
proof (cases "req_reqmsg s \<noteq> None \<and> be_Uint32 (hdr_bytes (msgs s m)) = Some (req_reqid s)")
  case True
  then obtain s' where s': "req_RecvHook m s = Ret (True, s')"
    using req_RecvHook_iff [OF assms, of m] by blast
  with True req_RecvHook_accept [OF assms s'] req_RecvHook_once [OF assms s'] show ?thesis by simp
next
  case False
  with req_RecvHook_reject [OF assms, of m] show ?thesis by auto
qed

theorem req_accepts_one_reply_witness:
  "req_RecvHook 0 (req_NewSocket 0 zero_req) = Ret (False, req_NewSocket 0 zero_req)"
  using req_accepts_one_reply [of "req_NewSocket 0 zero_req" 0] by (simp add: req_fresh)

text \<open>
  C17: After any number of requests (fewer than \<open>2 ^ 31\<close>) a late reply to one of the earlier
  ones is rejected: the identifiers differ although the counter wraps around and their high
  bit is forced.
\<close>

theorem req_stale_reply_rejected:
  assumes "\<not> req_raw s" "length ms < 2 ^ 31" "Suc j < length ms"
  shows "\<exists>s'. req_sends ms s = Ret s' \<and> (\<forall>m.
    be_Uint32 (hdr_bytes (msgs s' m)) = Some (mark_id (req_nextid s + of_nat j)) \<longrightarrow>
    req_RecvHook m s' = Ret (False, s'))"
proof -
  from req_sends_id [OF assms(1), of ms] obtain s' where s': "req_sends ms s = Ret s'" "\<not> req_raw s'"
      "ms \<noteq> [] \<longrightarrow> req_reqid s' = mark_id (req_nextid s + of_nat (length ms - 1))"
    by blast
  have "mark_id (req_nextid s + of_nat j) \<noteq> req_reqid s'"
    using mark_id_distinct [of "req_nextid s" j "length ms - 1"] assms(2,3) s'(3) by auto
  with s' req_RecvHook_reject [OF s'(2)] show ?thesis by auto
qed

theorem req_stale_reply_rejected_witness:
  "\<exists>s'. req_sends [0, 1, 2] (req_NewSocket 0xFFFFFFFF zero_req) = Ret s' \<and> (\<forall>m.
    be_Uint32 (hdr_bytes (msgs s' m)) = Some (mark_id (req_nextid (req_NewSocket 0xFFFFFFFF zero_req) + of_nat 1)) \<longrightarrow>
    req_RecvHook m s' = Ret (False, s'))"
  using req_stale_reply_rejected [of "req_NewSocket 0xFFFFFFFF zero_req" "[0, 1, 2]" 1] by (simp add: req_fresh)

text \<open>
  When the retry timer's tick is taken, the outstanding request itself goes to the
  resend channel: the same message, unchanged, with one more reference, at the end of the
  channel; and the timer is armed again.
\<close>

theorem req_resends_the_request:
  assumes "req_reqmsg s = Some m" "req_tick s" "\<not> closeq s" "0 < req_retry s"
    and "\<not> cclosed (chans s (req_resend s))" "chan_room (chans s (req_resend s))"
  shows "\<exists>s1 s2. req_resender_wait pick s = Ret (RsPush m, s1) \<and> req_resender_push m s1 = Ret (RsWait, s2) \<and>
    cbuf (chans s2 (req_resend s)) = cbuf (chans s (req_resend s)) @ [m] \<and>
    hdr (msgs s2 m) = hdr (msgs s m) \<and> body (msgs s2 m) = body (msgs s m) \<and>
    refcnt (msgs s2 m) = refcnt (msgs s m) + 1 \<and> req_waker s2 = Some (req_retry s) \<and> \<not> req_tick s2"
proof -
  define s1 where "s1 = Dup m (s\<lparr>req_tick := False\<rparr>)"
  have "req_resender_wait pick s = Ret (RsPush m, s1)"
    using assms(1-3) by (cases pick) (simp_all add: req_resender_wait_def go_select_def s1_def)
  moreover have "req_resender_push m s1 = Ret (RsWait, req_rearm (push_on (req_resend s1) m s1))"
    using assms by (simp add: req_resender_push_def chan_cases s1_def msg_eff)
  ultimately show ?thesis
    using assms by (simp add: s1_def msg_eff push_on_def req_rearm_def)
qed

text \<open>A fresh socket with an outstanding request, its tick, and a peer that waits for it.\<close>

definition ticking :: req where
  "ticking = (req_NewSocket 0 zero_req)\<lparr>req_reqmsg := Some 0, req_tick := True,
     chans := (\<lambda>_. (make_chan 0)\<lparr>crxwait := 1\<rparr>)\<rparr>"

theorem req_resends_the_request_witness:
  "\<exists>s1 s2. req_resender_wait RsTick ticking = Ret (RsPush 0, s1) \<and> req_resender_push 0 s1 = Ret (RsWait, s2) \<and>
    cbuf (chans s2 (req_resend ticking)) = cbuf (chans ticking (req_resend ticking)) @ [0] \<and>
    hdr (msgs s2 0) = hdr (msgs ticking 0) \<and> body (msgs s2 0) = body (msgs ticking 0) \<and>
    refcnt (msgs s2 0) = refcnt (msgs ticking 0) + 1 \<and> req_waker s2 = Some (req_retry ticking) \<and> \<not> req_tick s2"
  by (rule req_resends_the_request) (simp_all add: ticking_def req_fresh chan_room_def)

section \<open>Surveys\<close>

text \<open>A series of surveys, by the hook that \<^verbatim>\<open>Send\<close> calls.\<close>

fun sv_surveys :: "mref list \<Rightarrow> surveyor \<Rightarrow> surveyor run" where
  "sv_surveys [] s = Ret s"
| "sv_surveys (m # ms) s = run_bind (sv_SendHook m s) (\<lambda>(b, s1). sv_surveys ms s1)"

lemma sv_surveys_id:
  "\<not> sv_raw s \<Longrightarrow> \<exists>s'. sv_surveys ms s = Ret s' \<and> \<not> sv_raw s' \<and>
     (ms \<noteq> [] \<longrightarrow> sv_surveyID s' = mark_id (sv_nextID s + of_nat (length ms - 1)))"
proof (induction ms arbitrary: s)
  case Nil
  then show ?case by simp
next
  case (Cons m ms)
  obtain b s1 where h: "sv_SendHook m s = Ret (b, s1)"
    using Cons.prems by (simp add: sv_SendHook_def Let_def)
  note c = sv_SendHook_cooked [OF Cons.prems h]
  from Cons.IH [OF c(6)] obtain s' where s': "sv_surveys ms s1 = Ret s'" "\<not> sv_raw s'"
      "ms \<noteq> [] \<longrightarrow> sv_surveyID s' = mark_id (sv_nextID s1 + of_nat (length ms - 1))"
    by blast
  show ?case
  proof (cases "ms = []")
    case True
    with s' h c(2) show ?thesis by (simp add: mark_id_def)
  next
    case False
    then obtain k where "length ms = Suc k" by (cases ms) auto
    with s' h c(3) False show ?thesis by (simp add: algebra_simps)
  qed
qed

text \<open>
  C18: After a series of surveys a cooked surveyor hands exactly the answers to the last
  one to the application; an answer to any of the others (fewer than \<open>2 ^ 31\<close>) is rejected.
\<close>

theorem surveyor_current_survey_only:
  assumes "\<not> sv_raw s" "ms \<noteq> []" "length ms < 2 ^ 31" "j < length ms"
  shows "\<exists>s'. sv_surveys ms s = Ret s' \<and> (\<forall>m.
    be_Uint32 (hdr_bytes (msgs s' m)) = Some (mark_id (sv_nextID s + of_nat j)) \<longrightarrow>
    (\<exists>t. sv_RecvHook m s' = Ret (j = length ms - 1, t)))"
proof -
  from sv_surveys_id [OF assms(1), of ms] assms(2) obtain s' where s': "sv_surveys ms s = Ret s'" "\<not> sv_raw s'"
      "sv_surveyID s' = mark_id (sv_nextID s + of_nat (length ms - 1))"
    by blast
  have eq: "mark_id (sv_nextID s + of_nat j) = sv_surveyID s' \<longleftrightarrow> j = length ms - 1"
    using mark_id_distinct [of "sv_nextID s" j "length ms - 1"] assms(3,4) s'(3) by auto
  have "\<exists>t. sv_RecvHook m s' = Ret (j = length ms - 1, t)"
    if "be_Uint32 (hdr_bytes (msgs s' m)) = Some (mark_id (sv_nextID s + of_nat j))" for m
    using that eq s'(2) sv_RecvHook_iff [OF s'(2), of m] sv_RecvHook_reject [OF s'(2), of m]
    by (cases "j = length ms - 1") auto
  with s'(1) show ?thesis by blast
qed

theorem surveyor_current_survey_only_witness:
  "\<exists>s'. sv_surveys [0, 1] (sv_NewSocket zero_surveyor) = Ret s' \<and> (\<forall>m.
    be_Uint32 (hdr_bytes (msgs s' m)) = Some (mark_id (sv_nextID (sv_NewSocket zero_surveyor) + of_nat 0)) \<longrightarrow>
    (\<exists>t. sv_RecvHook m s' = Ret ((0::nat) = length [0::mref, 1] - 1, t)))"
  by (rule surveyor_current_survey_only) (simp_all add: sv_fresh)

text \<open>
  A survey ends with its time: sending it arms the timer with the survey time, and once
  the timer fired a receive reports \<^verbatim>\<open>ErrProtoState\<close> at once, whatever waits in the queue.
\<close>

theorem survey_ends_with_its_time:
  assumes "\<not> sv_raw s" "0 < sv_duration s"
  shows "\<exists>s1 s2. sv_SendHook m s = Ret (True, s1) \<and> recverr s1 = None \<and> sv_timer s1 = Some (sv_duration s) \<and>
    sv_timer_fires s1 = Ret s2 \<and> sv_timer s2 = None \<and>
    RecvMsg sv_ops now (r # rounds) s2 = Ret (Inl ErrProtoState, s2)"
proof -
  obtain b s1 where h: "sv_SendHook m s = Ret (b, s1)"
    using assms by (simp add: sv_SendHook_def Let_def)
  note c = sv_SendHook_cooked [OF assms(1) h]
  from sv_timer_ends_survey [OF c(7) [OF assms(2)]] obtain s2 where
    s2: "sv_timer_fires s1 = Ret s2" "recverr s2 = Some ErrProtoState" "sv_timer s2 = None"
    by blast
  from RecvMsg_recverr [OF s2(2), of sv_ops now r rounds] h c assms s2 show ?thesis by auto
qed

theorem survey_ends_with_its_time_witness:
  "\<exists>s1 s2. sv_SendHook 0 (sv_NewSocket zero_surveyor) = Ret (True, s1) \<and> recverr s1 = None \<and>
    sv_timer s1 = Some (sv_duration (sv_NewSocket zero_surveyor)) \<and> sv_timer_fires s1 = Ret s2 \<and>
    sv_timer s2 = None \<and> RecvMsg sv_ops 0 ((0, RMsg) # []) s2 = Ret (Inl ErrProtoState, s2)"
  by (rule survey_ends_with_its_time) (simp_all add: sv_fresh)

end
