(* ===== verification/Broadcast.thy ===== *)
theory Broadcast
  imports Fresh_Sockets
begin

text \<open>
  Whom a message reaches: the protocols that send a message to many peers, the filter of
  sub, and the answer of a respondent.
\<close>

section \<open>Reading a broadcast peer by peer\<close>

lemma in_takers:
  assumes "peers_ok (map_option qf \<circ> E) R s" "E j = Some e"
  shows "qf e \<in> takers qf E P s \<longleftrightarrow> P j e \<and> chan_room (chans s (qf e))"
proof
  assume "qf e \<in> takers qf E P s"
  then obtain i e' where e': "E i = Some e'" "P i e'" "chan_room (chans s (qf e'))" "qf e = qf e'"
    by (auto simp: takers_def)
  have "i = j" using peers_ok_inj [OF assms(1), of i "qf e" j] e'(1,4) assms(2) by simp
  with e' assms(2) show "P j e \<and> chan_room (chans s (qf e))" by simp
next
  assume "P j e \<and> chan_room (chans s (qf e))"
  with assms(2) show "qf e \<in> takers qf E P s" unfolding takers_def by blast
qed

lemma resv_not_taker:
  "peers_ok (map_option qf \<circ> E) R s \<Longrightarrow> q \<in> R \<Longrightarrow> q \<notin> takers qf E P s"
  using peers_okD [of "map_option qf \<circ> E" R s] by (fastforce simp: takers_def)

text \<open>
  \<open>reaches qf E P m s s'\<close>: of the peers in \<open>E\<close> those that satisfy \<open>P\<close> and have room got
  the message \<open>m\<close> once, at the end of their queue; no other queue of a peer changed.
\<close>

definition reaches :: "('e \<Rightarrow> cref) \<Rightarrow> (u32 \<rightharpoonup> 'e) \<Rightarrow> (u32 \<Rightarrow> 'e \<Rightarrow> bool) \<Rightarrow> mref \<Rightarrow>
    'a heap_scheme \<Rightarrow> 'a heap_scheme \<Rightarrow> bool" where
  "reaches qf E P m s s' \<longleftrightarrow> (\<forall>j e. E j = Some e \<longrightarrow>
     chans s' (qf e) = (if P j e \<and> chan_room (chans s (qf e)) then chan_push m (chans s (qf e)) else chans s (qf e)))"

lemma reaches_takers:
  assumes "peers_ok (map_option qf \<circ> E) R s"
    and "\<And>q. q \<in> ran (map_option qf \<circ> E) \<Longrightarrow>
      chans s' q = (if q \<in> takers qf E P s then chan_push m (chans s q) else chans s q)"
  shows "reaches qf E P m s s'"
  unfolding reaches_def
proof (intro allI impI)
  fix j e
  assume e: "E j = Some e"
  then have "qf e \<in> ran (map_option qf \<circ> E)" by (auto simp: ran_def)
  from assms(2) [OF this] in_takers [OF assms(1) e, of P]
  show "chans s' (qf e) = (if P j e \<and> chan_room (chans s (qf e))
      then chan_push m (chans s (qf e)) else chans s (qf e))"
    by simp
qed

section \<open>The bus\<close>

text \<open>
  C19: A message relayed on a bus, whose header starts with the identifier of the peer it
  came from, goes once to every other peer with room and never back to its origin; the
  identifier is stripped, and the sender's own reference is released.
\<close>

theorem bus_relays_without_echo:
  assumes "peers_ok (bus_queues s) (resv s) s" "map_order ord (bus_peers s)" "1 \<le> refcnt (msgs s m)"
    and "hdr (msgs s m) = Some (be32 i @ h)"
  shows "\<exists>s'. bus_handle ord m s = Ret s' \<and> reaches be_q (bus_peers s) (\<lambda>j _. j \<noteq> i) m s s' \<and>
    hdr (msgs s' m) = Some h \<and> body (msgs s' m) = body (msgs s m) \<and>
    refcnt (msgs s' m) = refcnt (msgs s m) - 1 + int (card (takers be_q (bus_peers s) (\<lambda>j _. j \<noteq> i) s))"
proof -
  have i: "be_Uint32 (hdr_bytes (msgs s m)) = Some i" using assms(4) by (simp add: hdr_bytes_def)
  note r = bus_handle_relay [OF assms(1-3) i]
  have "reaches be_q (bus_peers s) (\<lambda>j _. j \<noteq> i) m s s'"
    if "bus_handle ord m s = Ret s'" for s'
    using that r assms(1) by (intro reaches_takers [where R = "resv s"]) (auto simp: bus_queues_def Free_eff)
  with r assms(4) show ?thesis by (simp add: Free_eff hdr_bytes_def)
qed

text \<open>A fresh bus with two peers, and a message that came from the first.\<close>

definition small_bus :: bus where
  "small_bus = (let s = bus_NewSocket (zero_bus\<lparr>ptab := (\<lambda>p. (ptab zero_bus p)\<lparr>p_id := of_nat p\<rparr>)\<rparr>)
     in bus_AddEndpoint 1 (bus_AddEndpoint 2 s))\<lparr>msgs := (\<lambda>_. (newMsg 0)\<lparr>refcnt := 1, hdr := Some (be32 1)\<rparr>)\<rparr>"

theorem bus_relays_without_echo_witness:
  "\<exists>s'. bus_handle [1, 2] 0 small_bus = Ret s' \<and> reaches be_q (bus_peers small_bus) (\<lambda>j _. j \<noteq> 1) 0 small_bus s' \<and>
    hdr (msgs s' 0) = Some [] \<and> body (msgs s' 0) = body (msgs small_bus 0) \<and>
    refcnt (msgs s' 0) = refcnt (msgs small_bus 0) - 1 +
      int (card (takers be_q (bus_peers small_bus) (\<lambda>j _. j \<noteq> 1) small_bus))"
proof (rule bus_relays_without_echo)
  show "peers_ok (bus_queues small_bus) (resv small_bus) small_bus"
    by (auto simp: peers_ok_def small_bus_def bus_queues_def resv_def bus_AddEndpoint_def GetID_def inj_on_def
        bus_fresh)
  show "map_order [1, 2] (bus_peers small_bus)"
    by (auto simp: map_order_def small_bus_def bus_AddEndpoint_def GetID_def bus_fresh)
qed (simp_all add: small_bus_def bus_AddEndpoint_def bus_fresh)

section \<open>Pub\<close>

text \<open>
  C20: A published message goes once to every subscriber whose queue has room and is dropped
  for the others, without waiting for any of them; afterwards it is referenced exactly by
  the queues that hold it (and by whoever else held it before).
\<close>

theorem pub_reaches_all:
  assumes "peers_ok (pub_queues s) (resv s) s" "map_order ord (pub_eps s)" "1 \<le> refcnt (msgs s m)"
  shows "\<exists>s'. pub_handle ord m s = Ret s' \<and> reaches pe_q (pub_eps s) (\<lambda>_ _. True) m s s' \<and>
    refcnt (msgs s' m) = refcnt (msgs s m) - 1 + int (card (takers pe_q (pub_eps s) (\<lambda>_ _. True) s))"
proof -
  note r = pub_handle_all [OF assms]
  have "reaches pe_q (pub_eps s) (\<lambda>_ _. True) m s s'" if "pub_handle ord m s = Ret s'" for s'
    using that r assms(1) by (intro reaches_takers [where R = "resv s"]) (auto simp: pub_queues_def Free_eff)
  with r show ?thesis by (simp add: Free_eff)
qed

definition small_pub :: pub where
  "small_pub = (pub_AddEndpoint 0 (pub_NewSocket zero_pub))\<lparr>msgs := (\<lambda>_. (newMsg 0)\<lparr>refcnt := 1\<rparr>)\<rparr>"

theorem pub_reaches_all_witness:
  "\<exists>s'. pub_handle [0] 5 small_pub = Ret s' \<and> reaches pe_q (pub_eps small_pub) (\<lambda>_ _. True) 5 small_pub s' \<and>
    refcnt (msgs s' 5) = refcnt (msgs small_pub 5) - 1 +
      int (card (takers pe_q (pub_eps small_pub) (\<lambda>_ _. True) small_pub))"
  by (rule pub_reaches_all)
     (auto simp: peers_ok_def map_order_def small_pub_def pub_queues_def resv_def pub_AddEndpoint_def
        GetID_def inj_on_def pub_fresh)

section \<open>The star\<close>

text \<open>
  C21: A cooked star passes a message whose header shows fewer hops than its limit on to
  every other peer and to its own application, with the hop count one higher; a message
  with a garbled header or too many hops goes nowhere.
\<close>

theorem star_spreads:
  assumes "\<not> star_raw s" "\<not> cclosed (chans s (urq s))" "chan_room (chans s (urq s))" "\<not> closeq s"
    and "peers_ok (star_queues s) (resv s) s" "map_order ord (star_eps s)"
    and "hdr (msgs s m) = Some []" "1 \<le> refcnt (msgs s m)"
  shows "\<exists>s'. star_receiver ord pick rq pe (Some m) s = Ret (Loop, s') \<and>
    (case body (msgs s m) of
       a # b # c # d # rest \<Rightarrow>
         if a = 0 \<and> b = 0 \<and> c = 0 \<and> uint d < star_ttl s
         then reaches se_q (star_eps s) (\<lambda>_ e. e \<noteq> pe) m s s' \<and>
           cbuf (chans s' (urq s)) = cbuf (chans s (urq s)) @ [m] \<and>
           hdr (msgs s' m) = Some [0, 0, 0, d + 1] \<and> body (msgs s' m) = rest
         else s' = Free m s
     | _ \<Rightarrow> s' = Free m s)"
proof (cases "\<exists>d rest. body (msgs s m) = 0 # 0 # 0 # d # rest \<and> uint d < star_ttl s")
  case False
  then have "\<nexists>d rest. body (msgs s m) = 0 # 0 # 0 # d # rest \<and> uint d < star_ttl s" by simp
  from star_receiver_drop [OF this] False show ?thesis
    by (auto split: list.split)
next
  case True
  then obtain d rest where b: "body (msgs s m) = 0 # 0 # 0 # d # rest" "uint d < star_ttl s" by blast
  define T where "T = takers se_q (star_eps s) (\<lambda>_ e. Some pe \<noteq> Some e) s"
  note r = star_receiver_cooked [OF b assms(1,2,4,8,5,6), of pick rq pe, folded T_def]
  note pk = assms(5) [unfolded star_queues_def]
  have u: "urq s \<notin> T" "urq s \<notin> ran (map_option se_q \<circ> star_eps s)"
    using resv_not_taker [OF pk, of "urq s"] peers_okD [OF pk] by (auto simp: T_def resv_def ran_def)
  have "reaches se_q (star_eps s) (\<lambda>_ e. Some pe \<noteq> Some e) m s s'"
    if "star_receiver ord pick rq pe (Some m) s = Ret (Loop, s')" for s'
    using that r u assms(3)
    by (intro reaches_takers [OF pk]) (auto simp: push_on_def star_hopped_def T_def)
  then have "reaches se_q (star_eps s) (\<lambda>_ e. e \<noteq> pe) m s s'"
    if "star_receiver ord pick rq pe (Some m) s = Ret (Loop, s')" for s'
    using that by (fastforce simp: reaches_def)
  with r b assms(3,7) u show ?thesis by (simp add: push_on_def star_hopped_def)
qed

definition small_star :: star where
  "small_star = (star_AddEndpoint 0 (star_NewSocket zero_star))\<lparr>
     msgs := (\<lambda>_. (newMsg 5)\<lparr>refcnt := 1, hdr := Some [], body := [0, 0, 0, 2, 7]\<rparr>)\<rparr>"

theorem star_spreads_witness:
  "\<exists>s'. star_receiver [0] UUp 1 \<lparr>se_ep = 9, se_q = 9\<rparr> (Some 0) small_star = Ret (Loop, s') \<and>
    reaches se_q (star_eps small_star) (\<lambda>_ e. e \<noteq> \<lparr>se_ep = 9, se_q = 9\<rparr>) 0 small_star s' \<and>
    hdr (msgs s' 0) = Some [0, 0, 0, 3] \<and> body (msgs s' 0) = [7]"
proof -
  have "\<not> star_raw small_star" "\<not> cclosed (chans small_star (urq small_star))"
    "chan_room (chans small_star (urq small_star))" "\<not> closeq small_star"
    "peers_ok (star_queues small_star) (resv small_star) small_star" "map_order [0] (star_eps small_star)"
    "hdr (msgs small_star 0) = Some []" "1 \<le> refcnt (msgs small_star 0)"
    by (auto simp: peers_ok_def map_order_def small_star_def star_queues_def resv_def star_AddEndpoint_def
        GetID_def inj_on_def star_fresh)
  from star_spreads [OF this, of UUp 1 "\<lparr>se_ep = 9, se_q = 9\<rparr>"] show ?thesis
    by (auto simp: small_star_def star_AddEndpoint_def star_fresh)
qed

section \<open>Surveys and their answers\<close>

text \<open>
  C22: A survey goes once to every respondent whose queue has room. The sender does not
  release its own reference: the count grows by the number of queues that hold the survey,
  so a survey's message is never recycled.
\<close>

theorem survey_reaches_all:
  assumes "peers_ok (sv_queues s) (resv s) s" "map_order ord (sv_peers s)" "1 \<le> refcnt (msgs s m)"
  shows "\<exists>s'. sv_handle ord m s = Ret s' \<and> reaches sp_q (sv_peers s) (\<lambda>_ _. True) m s s' \<and>
    refcnt (msgs s' m) = refcnt (msgs s m) + int (card (takers sp_q (sv_peers s) (\<lambda>_ _. True) s))"
proof -
  note r = sv_handle_all [OF assms]
  have "reaches sp_q (sv_peers s) (\<lambda>_ _. True) m s s'" if "sv_handle ord m s = Ret s'" for s'
    using that r assms(1) by (intro reaches_takers [where R = "resv s"]) (auto simp: sv_queues_def)
  with r show ?thesis by simp
qed

definition small_surveyor :: surveyor where
  "small_surveyor = (sv_AddEndpoint 0 (sv_NewSocket zero_surveyor))\<lparr>msgs := (\<lambda>_. (newMsg 0)\<lparr>refcnt := 1\<rparr>)\<rparr>"

theorem survey_reaches_all_witness:
  "\<exists>s'. sv_handle [0] 3 small_surveyor = Ret s' \<and> reaches sp_q (sv_peers small_surveyor) (\<lambda>_ _. True) 3 small_surveyor s' \<and>
    refcnt (msgs s' 3) = refcnt (msgs small_surveyor 3) +
      int (card (takers sp_q (sv_peers small_surveyor) (\<lambda>_ _. True) small_surveyor))"
  by (rule survey_reaches_all)
     (auto simp: peers_ok_def map_order_def small_surveyor_def sv_queues_def resv_def sv_AddEndpoint_def
        GetID_def inj_on_def sv_fresh)

text \<open>
  C23: A cooked respondent's answer goes to the peer the survey came from: receiving the
  survey saves its header, sending puts that header on the answer, and the sender picks the
  peer by the first identifier and strips it. A second answer to the same survey is dropped.
\<close>

theorem respondent_answers_the_survey:
  assumes "\<not> resp_raw s" "hdr (msgs s m) = Some (be32 i @ path)" "hdr (msgs s a) = Some []" "a \<noteq> m"
    and "resp_peers s i = Some peer" "\<not> cclosed (chans s (rp_q peer))" "chan_room (chans s (rp_q peer))"
  shows "\<exists>s1 s2 s3. resp_RecvHook m s = Ret (True, s1) \<and> resp_SendHook a s1 = Ret (True, s2) \<and>
    resp_route a s2 = Ret s3 \<and> cbuf (chans s3 (rp_q peer)) = cbuf (chans s (rp_q peer)) @ [a] \<and>
    hdr (msgs s3 a) = Some path \<and> body (msgs s3 a) = body (msgs s a) \<and>
    (\<forall>b. \<exists>t. resp_SendHook b s3 = Ret (False, t))"
proof -
  let ?h = "be32 i @ path"
  define s1 where "s1 = s\<lparr>senderr := None, resp_backtrace := Some ?h\<rparr>"
  have r: "resp_RecvHook m s = Ret (True, s1)"
    using assms(1,2) by (simp add: resp_RecvHook_def s1_def sock_eff set_hdr_def upd_msg_def hdr_bytes_def Let_def)
  define s2 where "s2 = s1\<lparr>senderr := Some ErrProtoState, resp_backtrace := None,
      msgs := (msgs s1)(a := (msgs s1 a)\<lparr>hdr := Some ?h\<rparr>)\<rparr>"
  have w: "resp_SendHook a s1 = Ret (True, s2)"
    using assms(1,3,4) by (simp add: resp_SendHook_def s1_def s2_def sock_eff set_hdr_def upd_msg_def hdr_bytes_def Let_def)
  define s3 where "s3 = push_on (rp_q peer) a (s2\<lparr>msgs := (msgs s2)(a := (msgs s2 a)\<lparr>hdr := Some path\<rparr>)\<rparr>)"
  have p: "resp_route a s2 = Ret s3"
    using assms by (simp add: resp_route_def resp_lookup_def resp_push_def drop_hdr4_eff offer_cases s1_def s2_def s3_def
        hdr_bytes_def)
  have "\<exists>t. resp_SendHook b s3 = Ret (False, t)" for b
    using assms(1)
    by (cases "hdr (msgs s3 b)")
       (simp_all add: resp_SendHook_def s1_def s2_def s3_def push_on_def sock_eff set_hdr_def upd_msg_def
          slice_append_def hdr_bytes_def Let_def)
  with r w p assms(4) show ?thesis
    by (simp add: s1_def s2_def s3_def push_on_def)
qed

definition small_resp :: resp where
  "small_resp = (resp_AddEndpoint 0 (resp_NewSocket zero_resp))\<lparr>
     msgs := (\<lambda>i. (newMsg 0)\<lparr>hdr := Some (if i = 0 then be32 0 @ be32 0x80000007 else [])\<rparr>)\<rparr>"

theorem respondent_answers_the_survey_witness:
  "\<exists>s1 s2 s3. resp_RecvHook 0 small_resp = Ret (True, s1) \<and> resp_SendHook 1 s1 = Ret (True, s2) \<and>
    resp_route 1 s2 = Ret s3 \<and> cbuf (chans s3 (rp_q \<lparr>rp_q = 2, rp_ep = 0\<rparr>)) =
      cbuf (chans small_resp (rp_q \<lparr>rp_q = 2, rp_ep = 0\<rparr>)) @ [1] \<and>
    hdr (msgs s3 1) = Some (be32 0x80000007) \<and> body (msgs s3 1) = body (msgs small_resp 1) \<and>
    (\<forall>b. \<exists>t. resp_SendHook b s3 = Ret (False, t))"
  by (rule respondent_answers_the_survey [where i = 0])
     (simp_all add: small_resp_def resp_AddEndpoint_def GetID_def resp_fresh)

section \<open>Subscriptions\<close>

text \<open>
  C24: A sub socket hands up exactly the messages whose body starts with a subscribed
  topic; the others are released.
\<close>

theorem sub_passes_subscribed:
  assumes "\<not> cclosed (chans s rq)" "chan_room (chans s rq)" "\<not> closeq s"
  shows "sub_receiver pick rq (Some m) s = Ret (Loop,
    if \<exists>t \<in> set (subs s). \<exists>rest. body (msgs s m) = t @ rest then push_on rq m s else Free m s)"
  using sub_receiver_filter [OF assms, of pick m] by (simp add: HasPrefix_iff)

theorem sub_passes_subscribed_witness:
  "sub_receiver UUp 1 (Some 0) ((sub_NewSocket zero_sub)\<lparr>subs := [[7]]\<rparr>) =
    Ret (Loop, Free 0 ((sub_NewSocket zero_sub)\<lparr>subs := [[7]]\<rparr>))"
  using sub_passes_subscribed [of "(sub_NewSocket zero_sub)\<lparr>subs := [[7]]\<rparr>" 1 UUp 0]
  by (simp add: sub_fresh)

text \<open>
  C25: Over any history of subscribing and unsubscribing from a fresh socket, the list of
  subscriptions holds each topic at most once and is the set that the history describes,
  although an unsubscribe moves the last entry of the list into the gap.
\<close>

theorem subscriptions_are_a_set:
  "distinct (subs (fold sub_do es (sub_NewSocket s))) \<and>
   set (subs (fold sub_do es (sub_NewSocket s))) = fold topics_do es {}"
proof -
  have "subs (sub_NewSocket s) = []" by (simp add: sub_fresh)
  then show ?thesis using sub_history_refines [of "sub_NewSocket s" es] by simp
qed

end
