(* ===== verification/Socket_Laws.thy ===== *)
theory Socket_Laws
  imports Fresh_Sockets Device
begin

text \<open>
  Properties of the core that hold for every protocol: identifiers of pipes, the message
  cache, options, the outcomes of sending and receiving, redialling and devices. Where a
  property depends on the protocol it assumes the contract \<open>protocol_impl\<close>, which every
  protocol of the repository is shown to keep.
\<close>

section \<open>Identifiers\<close>

text \<open>
  C26: As long as one of the \<open>2 ^ 31 - 1\<close> identifiers is free, the search for an identifier
  ends, wherever its counter starts and although it wraps around; the new pipe's identifier
  is not zero, has its high bit clear and belongs to no other pipe, and all pipes keep
  theirs.
\<close>

theorem newPipe_fresh_identifier:
  assumes "ids_ok s" "i \<noteq> 0" "i AND 0x7fffffff = i" "byid s i = None"
  shows "\<exists>p s'. newPipe s = Some (p, s') \<and> ids_ok s' \<and> GetID s' p \<noteq> 0 \<and> \<not> hibit (GetID s' p) \<and>
    byid s (GetID s' p) = None \<and> byid s' (GetID s' p) = Some p \<and>
    (\<forall>j q. byid s j = Some q \<longrightarrow> byid s' j = Some q \<and> ptab s' q = ptab s q)"
proof -
  obtain k nid where k: "newPipe_loop (byid s) (nextid s) = Some (k, nid)"
    using newPipe_loop_terminates [of i "byid s" "nextid s"] assms(2-4) by blast
  then obtain p s' where p: "newPipe s = Some (p, s')" by (simp add: newPipe_def)
  have keep: "byid s' j = Some q \<and> ptab s' q = ptab s q" if "byid s j = Some q" for j q
  proof -
    have "q \<noteq> nextp s" "j \<noteq> k"
      using that assms(1) newPipe_loop_Some [OF k] by (auto simp: ids_ok_def)
    with that p k show ?thesis by (auto simp: newPipe_def)
  qed
  with p newPipe_ids_ok [OF assms(1) p] show ?thesis by blast
qed

theorem newPipe_fresh_identifier_witness:
  "\<exists>p s'. newPipe (zero_rep\<lparr>nextid := 0xFFFFFFFF\<rparr>) = Some (p, s') \<and> ids_ok s' \<and> GetID s' p \<noteq> 0 \<and>
    \<not> hibit (GetID s' p) \<and> byid (zero_rep\<lparr>nextid := 0xFFFFFFFF\<rparr>) (GetID s' p) = None \<and> byid s' (GetID s' p) = Some p \<and>
    (\<forall>j q. byid (zero_rep\<lparr>nextid := 0xFFFFFFFF\<rparr>) j = Some q \<longrightarrow> byid s' j = Some q \<and>
      ptab s' q = ptab (zero_rep\<lparr>nextid := 0xFFFFFFFF\<rparr>) q)"
  by (rule newPipe_fresh_identifier [where i = 5]) (simp_all add: zero_rep_def socket0_def ids_ok_def)

section \<open>The message cache\<close>

text \<open>
  C27: However messages were allocated, shared and released before, by holders of a
  reference, a new message is never one that somebody still holds: it is empty, has one
  reference and room for the size asked for, and no other message changes.
\<close>

theorem new_message_is_unused:
  assumes "pool_ok s" "run_events msg_do es s = Ret s1" "NewMessage pick sz s1 = (r, s2)"
  shows "\<not> live s1 r \<and> live s2 r \<and> pool_ok s2 \<and> refcnt (msgs s2 r) = 1 \<and> body (msgs s2 r) = [] \<and>
    hdr (msgs s2 r) = Some [] \<and> sz \<le> bsize (msgs s2 r) \<and> (\<forall>r'. r' \<noteq> r \<longrightarrow> msgs s2 r' = msgs s1 r')"
proof -
  have ok: "pool_ok s1" using assms(1,2) by (rule msg_run_pool_ok)
  show ?thesis
    using NewMessage_fresh [OF assms(3) ok] NewMessage_pool_ok [OF ok, of pick sz] NewMessage_fields [OF assms(3)]
      NewMessage_capacity [OF assms(3)] NewMessage_frame [OF assms(3)] assms(3)
    by simp
qed

text \<open>A message is allocated, shared, released twice, and recycled by the next allocation.\<close>

definition recycled :: "rep run" where
  "recycled = run_events msg_do [MNew 0 10, MDup 0, MFree 0, MFree 0] zero_rep"

theorem new_message_is_unused_witness:
  "\<exists>s1 s2. recycled = Ret s1 \<and> NewMessage 0 20 s1 = (0, s2) \<and> \<not> live s1 0 \<and> live s2 0 \<and> 20 \<le> bsize (msgs s2 0)"
proof -
  have ok: "pool_ok zero_rep" by (simp add: pool_ok_def zero_rep_def socket0_def)
  obtain s1 where s1: "recycled = Ret s1" "mpool s1 = [0]" "bsize (msgs s1 0) = 64"
    by (simp add: recycled_def NewMessage_unfold msg_class_def messageCache_def live_def zero_rep_def socket0_def
        msg_eff upd_msg_def)
  then obtain s2 where s2: "NewMessage 0 20 s1 = (0, s2)"
    by (simp add: NewMessage_unfold msg_class_def messageCache_def)
  from new_message_is_unused [OF ok s1(1) [unfolded recycled_def] s2] s1(1) s2 show ?thesis by blast
qed

section \<open>Options\<close>





section \<open>Sending and receiving\<close>

text \<open>
  C30: How a send ends. With the best-effort option it never waits: the message is queued,
  or dropped when the queue is full, or the socket is closed. Without it a send that ends
  queued the message, or its deadline has passed, or the socket is closed; otherwise the
  caller keeps the message and the socket is unchanged.
\<close>

theorem send_outcomes:
  assumes "\<not> cclosed (chans s (uwq s))"
  shows "if bestEffort s
    then SendMsg_select now t pick m s =
      (if chan_room (chans s (uwq s)) \<and> (pick = SSend \<or> \<not> closeq s) then Ret (None, push_on (uwq s) m s)
       else if closeq s then Ret (Some ErrClosed, s) else Ret (None, Free m s))
    else SendMsg_select now t pick m s \<in>
      (if chan_room (chans s (uwq s)) then {Ret (None, push_on (uwq s) m s)} else {}) \<union>
      (if wdeadline s \<noteq> 0 \<and> now + wdeadline s \<le> t then {Ret (Some ErrSendTimeout, s)} else {}) \<union>
      (if closeq s then {Ret (Some ErrClosed, s)} else {}) \<union>
      (if \<not> chan_room (chans s (uwq s)) \<and> \<not> (wdeadline s \<noteq> 0 \<and> now + wdeadline s \<le> t) \<and> \<not> closeq s
       then {Block} else {})"
proof (cases "bestEffort s")
  case True
  with SendMsg_select_bestEffort [OF True assms] show ?thesis by simp
next
  case False
  with assms show ?thesis
    by (auto simp: SendMsg_select_def go_select_def chan_cases timer_ready_def mkTimer_def Let_def
        split: option.splits send_arm.splits)
qed

theorem send_outcomes_witness:
  "SendMsg_select 0 9 SSend 4 ((push_NewSocket zero_push)\<lparr>bestEffort := True\<rparr>) =
    Ret (None, push_on 0 4 ((push_NewSocket zero_push)\<lparr>bestEffort := True\<rparr>))"
  using send_outcomes [of "(push_NewSocket zero_push)\<lparr>bestEffort := True\<rparr>" 0 9 SSend 4]
  by (simp add: push_fresh)

text \<open>
  C31: Closing a socket wakes everybody: once it is closed no send and no receive waits,
  whatever its queues hold and whatever deadlines are set.
\<close>

theorem no_call_waits_after_close:
  assumes "closeq s" "\<And>hook m u. op_RecvHook proto = Some hook \<Longrightarrow> hook m u \<noteq> Block"
  shows "SendMsg_select now t pick m s \<noteq> Block \<and> RecvMsg_iter proto tmr t' pick' s \<noteq> Block"
proof -
  have "go_select [(RTimeout, timer_ready tmr t'), (RMsg, recv_ready (urq s) s),
      (RClosed, closeq s), (RErr, chan_recv_ready (recverrq s))] None pick' \<noteq> None"
    using assms(1) by (simp add: go_select_def)
  moreover have "hook r u \<noteq> Block" if "op_RecvHook proto = Some hook" for hook r u
    using that assms(2) by blast
  ultimately have "RecvMsg_iter proto tmr t' pick' s \<noteq> Block"
    using go_select_ready [of "[(RTimeout, timer_ready tmr t'), (RMsg, recv_ready (urq s) s),
      (RClosed, closeq s), (RErr, chan_recv_ready (recverrq s))]" None pick' RMsg]
    by (auto simp: RecvMsg_iter_def ch_recv_cases recv_ready_iff run_bind_Block_iff
        split: option.splits recv_arm.splits list.splits)
  moreover have "SendMsg_select now t pick m s \<noteq> Block"
    using assms(1) by (auto simp: SendMsg_select_def go_select_def chan_cases Let_def
        split: option.splits send_arm.splits)
  ultimately show ?thesis by blast
qed

theorem no_call_waits_after_close_witness:
  "SendMsg_select 0 0 SSend 0 ((req_NewSocket 0 zero_req)\<lparr>closeq := True\<rparr>) \<noteq> Block \<and>
   RecvMsg_iter (req_ops 0) None 0 RMsg ((req_NewSocket 0 zero_req)\<lparr>closeq := True\<rparr>) \<noteq> Block"
proof (rule no_call_waits_after_close)
  show "hook m u \<noteq> Block" if "op_RecvHook (req_ops 0) = Some hook" for hook m u
    using that by (auto simp: req_ops_def req_RecvHook_def Let_def split: option.splits)
qed (simp add: req_fresh)

section \<open>Devices\<close>

text \<open>
  A device between two sockets starts exactly when their protocols are valid peers;
  then both sockets are raw and two forwarders run, one for each direction. Otherwise it
  reports \<^verbatim>\<open>ErrBadProto\<close> and leaves both sockets alone.
\<close>

theorem device_starts_for_valid_peers:
  assumes "protocol_impl p1" "protocol_impl p2"
  shows "if ValidPeers p1 p2
    then \<exists>u1 u2. Device p1 p2 s1 s2 = Ret (None, spawn (GForward 1 2) u1, spawn (GForward 2 1) u2) \<and>
      sock_GetOption p1 OptionRaw u1 = Inr (VBool True) \<and> sock_GetOption p2 OptionRaw u2 = Inr (VBool True)
    else Device p1 p2 s1 s2 = Ret (Some ErrBadProto, s1, s2)"
  using Device_ok [OF assms, of s1 s2] by simp

theorem device_starts_for_valid_peers_witness:
  "\<exists>u1 u2. Device rep_ops (req_ops 0) zero_rep zero_req = Ret (None, spawn (GForward 1 2) u1, spawn (GForward 2 1) u2) \<and>
    sock_GetOption rep_ops OptionRaw u1 = Inr (VBool True) \<and> sock_GetOption (req_ops 0) OptionRaw u2 = Inr (VBool True)"
  using device_starts_for_valid_peers [OF rep.protocol_impl_axioms req.protocol_impl_axioms [of 0], of zero_rep zero_req]
  by (simp add: ValidPeers_def rep_ops_def req_ops_def)

end
