(* ===== verification/Dial.thy ===== *)
theory Dial
  imports Backtrace
begin

text \<open>
  core.go, the lower half of a socket: transports by scheme, dialers with their redial loop
  and listeners with their accept loop; and \<^verbatim>\<open>StripScheme\<close> of transport.go. What a
  transport does is a parameter (\<open>tnew\<close>: NewDialer or NewListener, \<open>tset\<close>: SetOption of the
  new object, \<open>tclose\<close>: Close of a transport pipe or listener).
\<close>

section \<open>Addresses and transports\<close>

text \<open>\<^verbatim>\<open>addr[:strings.Index(addr, "://")]\<close>, or \<open>None\<close> when there is none.\<close>

fun scheme_of :: "string \<Rightarrow> string option" where
  "scheme_of [] = None"
| "scheme_of (c # cs) =
     (if take 3 (c # cs) = ''://'' then Some [] else map_option ((#) c) (scheme_of cs))"

definition getTransport :: "string \<Rightarrow> 'a socket_scheme \<Rightarrow> nat option" where
  "getTransport addr s = (case scheme_of addr of None \<Rightarrow> None | Some scheme \<Rightarrow> transports s scheme)"

definition AddTransport :: "string \<Rightarrow> nat \<Rightarrow> 'a socket_scheme \<Rightarrow> 'a socket_scheme" where
  "AddTransport scheme t s = s\<lparr>transports := (transports s)(scheme \<mapsto> t)\<rparr>"

text \<open>\<open>scheme\<close> is the transport's own scheme.\<close>

definition StripScheme :: "string \<Rightarrow> string \<Rightarrow> (err option \<times> string)" where
  "StripScheme scheme addr =
     (let pre = scheme @ ''://''
      in if take (length pre) addr \<noteq> pre then (Some ErrBadTran, addr)
         else (None, drop (length pre) addr))"

section \<open>Making dialers and listeners\<close>

text \<open>
  The loop over the options (a map; the list is the order of its iteration) stops at the
  first error.
\<close>

fun set_options ::
  "(nat \<Rightarrow> string \<Rightarrow> goval \<Rightarrow> 's \<Rightarrow> err option \<times> 's) \<Rightarrow> nat \<Rightarrow> (string \<times> goval) list \<Rightarrow> 's \<Rightarrow> err option \<times> 's" where
  "set_options tset x [] s = (None, s)"
| "set_options tset x ((n, v) # opts) s =
     (case tset x n v s of
        (Some e, s1) \<Rightarrow> (Some e, s1)
      | (None, s1) \<Rightarrow> set_options tset x opts s1)"

definition sock_NewDialer ::
  "(nat \<Rightarrow> string \<Rightarrow> 'a socket_scheme \<Rightarrow> (err + nat) \<times> 'a socket_scheme) \<Rightarrow>
   (nat \<Rightarrow> string \<Rightarrow> goval \<Rightarrow> 'a socket_scheme \<Rightarrow> err option \<times> 'a socket_scheme) \<Rightarrow>
   string \<Rightarrow> (string \<times> goval) list \<Rightarrow> 'a socket_scheme \<Rightarrow> (err + nat) \<times> 'a socket_scheme" where
  "sock_NewDialer tnew tset addr opts s =
     (case getTransport addr s of
        None \<Rightarrow> (Inl ErrBadTran, s)
      | Some t \<Rightarrow>
         (case tnew t addr s of
            (Inl e, s1) \<Rightarrow> (Inl e, s1)
          | (Inr x, s1) \<Rightarrow>
             (case set_options tset x opts s1 of
                (Some e, s2) \<Rightarrow> (Inl e, s2)
              | (None, s2) \<Rightarrow>
                  (Inr (nextd s2),
                   s2\<lparr>dtab := (dtab s2)(nextd s2 := \<lparr>d_tran = x, d_addr = addr, d_closed = False,
                        d_active = False, d_closeq = False\<rparr>),
                      nextd := Suc (nextd s2)\<rparr>))))"

definition sock_NewListener ::
  "(nat \<Rightarrow> string \<Rightarrow> 'a socket_scheme \<Rightarrow> (err + nat) \<times> 'a socket_scheme) \<Rightarrow>
   (nat \<Rightarrow> string \<Rightarrow> goval \<Rightarrow> 'a socket_scheme \<Rightarrow> err option \<times> 'a socket_scheme) \<Rightarrow>
   (nat \<Rightarrow> 'a socket_scheme \<Rightarrow> 'a socket_scheme) \<Rightarrow>
   string \<Rightarrow> (string \<times> goval) list \<Rightarrow> 'a socket_scheme \<Rightarrow> (err + nat) \<times> 'a socket_scheme" where
  "sock_NewListener tnew tset tclose addr opts s =
     (case getTransport addr s of
        None \<Rightarrow> (Inl ErrBadTran, s)
      | Some t \<Rightarrow>
         (case tnew t addr s of
            (Inl e, s1) \<Rightarrow> (Inl e, s1)
          | (Inr x, s1) \<Rightarrow>
             (case set_options tset x opts s1 of
                (Some e, s2) \<Rightarrow> (Inl e, tclose x s2)
              | (None, s2) \<Rightarrow>
                  (Inr (nextl s2),
                   s2\<lparr>ltab := (ltab s2)(nextl s2 := \<lparr>l_tran = x, l_addr = addr\<rparr>),
                      nextl := Suc (nextl s2)\<rparr>))))"

section \<open>The dialer\<close>

definition upd_dialer :: "nat \<Rightarrow> (dialer \<Rightarrow> dialer) \<Rightarrow> 'a socket_scheme \<Rightarrow> 'a socket_scheme" where
  "upd_dialer d f s = s\<lparr>dtab := (dtab s)(d := f (dtab s d))\<rparr>"

definition dialer_Dial :: "nat \<Rightarrow> 'a socket_scheme \<Rightarrow> err option \<times> 'a socket_scheme" where
  "dialer_Dial d s =
     (if d_active (dtab s d) then (Some ErrAddrInUse, s)
      else (None, spawn (GDialer d)
              (upd_dialer d (\<lambda>x. x\<lparr>d_closeq := False, d_active := True\<rparr>) (s\<lparr>active := True\<rparr>))))"

definition dialer_Close :: "nat \<Rightarrow> 'a socket_scheme \<Rightarrow> (err option \<times> 'a socket_scheme) run" where
  "dialer_Close d s =
     (if d_closed (dtab s d) then Ret (Some ErrClosed, s)
      else if d_closeq (dtab s d) then Panic
      else Ret (None, upd_dialer d (\<lambda>x. x\<lparr>d_closed := True, d_closeq := True\<rparr>) s))"

definition sock_DialOptions ::
  "(nat \<Rightarrow> string \<Rightarrow> 'a socket_scheme \<Rightarrow> (err + nat) \<times> 'a socket_scheme) \<Rightarrow>
   (nat \<Rightarrow> string \<Rightarrow> goval \<Rightarrow> 'a socket_scheme \<Rightarrow> err option \<times> 'a socket_scheme) \<Rightarrow>
   string \<Rightarrow> (string \<times> goval) list \<Rightarrow> 'a socket_scheme \<Rightarrow> err option \<times> 'a socket_scheme" where
  "sock_DialOptions tnew tset addr opts s =
     (case sock_NewDialer tnew tset addr opts s of
        (Inl e, s1) \<Rightarrow> (Some e, s1)
      | (Inr d, s1) \<Rightarrow> dialer_Dial d s1)"

definition sock_Dial ::
  "(nat \<Rightarrow> string \<Rightarrow> 'a socket_scheme \<Rightarrow> (err + nat) \<times> 'a socket_scheme) \<Rightarrow>
   (nat \<Rightarrow> string \<Rightarrow> goval \<Rightarrow> 'a socket_scheme \<Rightarrow> err option \<times> 'a socket_scheme) \<Rightarrow>
   string \<Rightarrow> 'a socket_scheme \<Rightarrow> err option \<times> 'a socket_scheme" where
  "sock_Dial tnew tset addr s = sock_DialOptions tnew tset addr [] s"

text \<open>A duration is an int64: the product wraps.\<close>

definition wrap64 :: "int \<Rightarrow> int" where
  "wrap64 i = (i + 2 ^ 63) mod 2 ^ 64 - 2 ^ 63"

text \<open>The next wait after a wait of \<open>rtime\<close>.\<close>

definition next_rtime :: "dur \<Rightarrow> dur \<Rightarrow> dur" where
  "next_rtime rtmax rtime =
     (if 0 < rtmax then (let r = wrap64 (rtime * 2) in if rtmax < r then rtmax else r) else rtime)"

text \<open>
  The goroutine \<^verbatim>\<open>dialer()\<close>: about to dial; connected, with the core's pipe; waiting to
  redial, with the transport's pipe of the last attempt, if any; gone. Each phase carries
  \<open>rtime\<close>; \<open>rtmax\<close> was read when the goroutine started.
\<close>

datatype dl_phase = DlDial dur | DlHold dur nat pref | DlWait dur "nat option" | DlGone

text \<open>The phase the goroutine starts in, and its \<open>rtmax\<close>.\<close>

definition dialer_start :: "'a socket_scheme \<Rightarrow> dl_phase \<times> dur" where
  "dialer_start s = (DlDial (reconntime s), reconnmax s)"

definition dialer_dial ::
  "'a socket_scheme protocol_ops \<Rightarrow> (nat \<Rightarrow> 'a socket_scheme \<Rightarrow> 'a socket_scheme) \<Rightarrow> nat \<Rightarrow> dur \<Rightarrow>
   err + nat \<Rightarrow> 'a socket_scheme \<Rightarrow> (dl_phase \<times> 'a socket_scheme) run" where
  "dialer_dial proto tclose d rtime r s =
     (case r of
        Inl e \<Rightarrow> Ret (DlWait rtime None, s)
      | Inr tp \<Rightarrow>
          let rtime' = reconntime s
          in if d_closed (dtab s d) then Ret (DlGone, tclose tp s)
             else run_bind (addPipe proto (Some d) None s) (\<lambda>(cp, s1).
                    Ret (case cp of
                           Some p \<Rightarrow> (DlHold rtime' tp p, s1)
                         | None \<Rightarrow> (DlWait rtime' (Some tp), s1))))"

definition dialer_hold :: "nat \<Rightarrow> dur \<Rightarrow> nat \<Rightarrow> pref \<Rightarrow> 'a socket_scheme \<Rightarrow> (dl_phase \<times> 'a socket_scheme) run" where
  "dialer_hold d rtime tp p s =
     (if closeq s \<or> p_closeq (ptab s p) \<or> d_closeq (dtab s d) then Ret (DlWait rtime (Some tp), s) else Block)"

datatype wait_arm = WDialer | WSock | WTimer

text \<open>\<open>fired\<close>: whether \<open>rtime\<close> has passed.\<close>

definition dialer_wait ::
  "(nat \<Rightarrow> 'a socket_scheme \<Rightarrow> 'a socket_scheme) \<Rightarrow> dur \<Rightarrow> nat \<Rightarrow> dur \<Rightarrow> nat option \<Rightarrow> bool \<Rightarrow> wait_arm \<Rightarrow>
   'a socket_scheme \<Rightarrow> (dl_phase \<times> 'a socket_scheme) run" where
  "dialer_wait tclose rtmax d rtime tp fired pick s =
     (let leave = Ret (DlGone, case tp of None \<Rightarrow> s | Some x \<Rightarrow> tclose x s)
      in case go_select [(WDialer, d_closeq (dtab s d)), (WSock, closeq s), (WTimer, fired)] None pick of
           None \<Rightarrow> Block
         | Some WDialer \<Rightarrow> leave
         | Some WSock \<Rightarrow> leave
         | Some WTimer \<Rightarrow> Ret (DlDial (next_rtime rtmax rtime), s))"

text \<open>What a dialer hands on to its transport's dialer: \<open>tget\<close> and \<open>tset\<close> are its methods.\<close>

definition dialer_GetOption ::
  "(nat \<Rightarrow> string \<Rightarrow> 'a socket_scheme \<Rightarrow> err + goval) \<Rightarrow> nat \<Rightarrow> string \<Rightarrow> 'a socket_scheme \<Rightarrow> err + goval" where
  "dialer_GetOption tget d n s = tget (d_tran (dtab s d)) n s"

definition dialer_SetOption ::
  "(nat \<Rightarrow> string \<Rightarrow> goval \<Rightarrow> 'a socket_scheme \<Rightarrow> err option \<times> 'a socket_scheme) \<Rightarrow>
   nat \<Rightarrow> string \<Rightarrow> goval \<Rightarrow> 'a socket_scheme \<Rightarrow> err option \<times> 'a socket_scheme" where
  "dialer_SetOption tset d n v s = tset (d_tran (dtab s d)) n v s"

definition dialer_Address :: "nat \<Rightarrow> 'a socket_scheme \<Rightarrow> string" where
  "dialer_Address d s = d_addr (dtab s d)"

section \<open>The listener\<close>

text \<open>\<open>r\<close> is what the transport's Listen returned.\<close>

definition listener_Listen :: "err option \<Rightarrow> nat \<Rightarrow> 'a socket_scheme \<Rightarrow> err option \<times> 'a socket_scheme" where
  "listener_Listen r l s =
     (case r of
        Some e \<Rightarrow> (Some e, s)
      | None \<Rightarrow> (None, spawn (GServe l) (s\<lparr>listeners := listeners s @ [l], active := True\<rparr>)))"

text \<open>What a listener hands on to its transport's listener.\<close>

definition listener_GetOption ::
  "(nat \<Rightarrow> string \<Rightarrow> 'a socket_scheme \<Rightarrow> err + goval) \<Rightarrow> nat \<Rightarrow> string \<Rightarrow> 'a socket_scheme \<Rightarrow> err + goval" where
  "listener_GetOption tget l n s = tget (l_tran (ltab s l)) n s"

definition listener_SetOption ::
  "(nat \<Rightarrow> string \<Rightarrow> goval \<Rightarrow> 'a socket_scheme \<Rightarrow> err option \<times> 'a socket_scheme) \<Rightarrow>
   nat \<Rightarrow> string \<Rightarrow> goval \<Rightarrow> 'a socket_scheme \<Rightarrow> err option \<times> 'a socket_scheme" where
  "listener_SetOption tset l n v s = tset (l_tran (ltab s l)) n v s"

definition listener_Address :: "(nat \<Rightarrow> string) \<Rightarrow> nat \<Rightarrow> 'a socket_scheme \<Rightarrow> string" where
  "listener_Address taddr l s = taddr (l_tran (ltab s l))"

definition listener_Close ::
  "(nat \<Rightarrow> 'a socket_scheme \<Rightarrow> err option \<times> 'a socket_scheme) \<Rightarrow> nat \<Rightarrow> 'a socket_scheme \<Rightarrow>
   err option \<times> 'a socket_scheme" where
  "listener_Close tclose l s = tclose (l_tran (ltab s l)) s"

text \<open>One round of \<^verbatim>\<open>serve\<close>; \<open>r\<close> is what the transport's Accept returned.\<close>

definition listener_serve ::
  "'a socket_scheme protocol_ops \<Rightarrow> nat \<Rightarrow> err + nat \<Rightarrow> 'a socket_scheme \<Rightarrow> (ctl \<times> 'a socket_scheme) run" where
  "listener_serve proto l r s =
     (if closeq s then Ret (Exit, s)
      else case r of
             Inr tp \<Rightarrow> run_bind (addPipe proto None (Some l) s) (\<lambda>(cp, s1). Ret (Loop, s1))
           | Inl e \<Rightarrow> Ret (if e = ErrClosed then Exit else Loop, s))"

definition sock_ListenOptions ::
  "(nat \<Rightarrow> string \<Rightarrow> 'a socket_scheme \<Rightarrow> (err + nat) \<times> 'a socket_scheme) \<Rightarrow>
   (nat \<Rightarrow> string \<Rightarrow> goval \<Rightarrow> 'a socket_scheme \<Rightarrow> err option \<times> 'a socket_scheme) \<Rightarrow>
   (nat \<Rightarrow> 'a socket_scheme \<Rightarrow> 'a socket_scheme) \<Rightarrow>
   (nat \<Rightarrow> 'a socket_scheme \<Rightarrow> err option \<times> 'a socket_scheme) \<Rightarrow>
   string \<Rightarrow> (string \<times> goval) list \<Rightarrow> 'a socket_scheme \<Rightarrow> err option \<times> 'a socket_scheme" where
  "sock_ListenOptions tnew tset tclose tlisten addr opts s =
     (case sock_NewListener tnew tset tclose addr opts s of
        (Inl e, s1) \<Rightarrow> (Some e, s1)
      | (Inr l, s1) \<Rightarrow>
         (case tlisten (l_tran (ltab s1 l)) s1 of (r, s2) \<Rightarrow> listener_Listen r l s2))"

definition sock_Listen ::
  "(nat \<Rightarrow> string \<Rightarrow> 'a socket_scheme \<Rightarrow> (err + nat) \<times> 'a socket_scheme) \<Rightarrow>
   (nat \<Rightarrow> string \<Rightarrow> goval \<Rightarrow> 'a socket_scheme \<Rightarrow> err option \<times> 'a socket_scheme) \<Rightarrow>
   (nat \<Rightarrow> 'a socket_scheme \<Rightarrow> 'a socket_scheme) \<Rightarrow>
   (nat \<Rightarrow> 'a socket_scheme \<Rightarrow> err option \<times> 'a socket_scheme) \<Rightarrow>
   string \<Rightarrow> 'a socket_scheme \<Rightarrow> err option \<times> 'a socket_scheme" where
  "sock_Listen tnew tset tclose tlisten addr s = sock_ListenOptions tnew tset tclose tlisten addr [] s"

section \<open>Schemes\<close>

lemma scheme_of_Some: "scheme_of addr = Some sch \<Longrightarrow> \<exists>rest. addr = sch @ ''://'' @ rest"
proof (induction addr arbitrary: sch)
  case Nil
  then show ?case by simp
next
  case (Cons c cs)
  show ?case
  proof (cases "take 3 (c # cs) = ''://''")
    case True
    with Cons.prems have "sch = []" by simp
    moreover have "c # cs = ''://'' @ drop 3 (c # cs)" using True by (metis append_take_drop_id)
    ultimately show ?thesis by (metis append_Nil)
  next
    case False
    with Cons.prems obtain t where "scheme_of cs = Some t" "sch = c # t" by auto
    with Cons.IH show ?thesis by fastforce
  qed
qed

lemma scheme_of_plain: "CHR '':'' \<notin> set sch \<Longrightarrow> scheme_of (sch @ ''://'' @ rest) = Some sch"
proof (induction sch)
  case Nil
  show ?case by simp
next
  case (Cons c cs)
  have "c \<noteq> CHR '':''" using Cons.prems by auto
  with Cons show ?case by simp
qed

text \<open>
  A transport that was added under its scheme is found for the addresses its own
  StripScheme accepts.
\<close>

lemma getTransport_added:
  assumes "CHR '':'' \<notin> set sch" "StripScheme sch addr = (None, rest)"
  shows "getTransport addr (AddTransport sch t s) = Some t \<and> addr = sch @ ''://'' @ rest"
proof -
  have pre: "take (length (sch @ ''://'')) addr = sch @ ''://''"
    and rest: "rest = drop (length (sch @ ''://'')) addr"
    using assms(2) by (auto simp: StripScheme_def Let_def split: if_splits)
  have "addr = (sch @ ''://'') @ rest"
    unfolding rest by (metis pre append_take_drop_id)
  then have "addr = sch @ ''://'' @ rest" by simp
  with scheme_of_plain [OF assms(1)] show ?thesis
    by (simp add: getTransport_def AddTransport_def)
qed

section \<open>The redial interval\<close>

lemma wrap64_id: "- (2 ^ 63) \<le> i \<Longrightarrow> i < 2 ^ 63 \<Longrightarrow> wrap64 i = i"
  by (simp add: wrap64_def)

lemma next_rtime_bounds:
  assumes "0 < rtime" "rtime \<le> rtmax" "rtmax < 2 ^ 62"
  shows "rtime \<le> next_rtime rtmax rtime" and "next_rtime rtmax rtime \<le> rtmax"
    and "next_rtime rtmax rtime = min (2 * rtime) rtmax"
  using assms by (auto simp: next_rtime_def Let_def wrap64_id min_def)

text \<open>The waits after \<open>k\<close> failures double up to the maximum.\<close>

lemma next_rtime_iterate:
  assumes "0 < rt" "rt \<le> rtmax" "rtmax < 2 ^ 62"
  shows "(next_rtime rtmax ^^ k) rt = min (2 ^ k * rt) rtmax"
proof (induction k)
  case 0
  show ?case using assms by simp
next
  case (Suc k)
  have "1 * rt \<le> 2 ^ k * rt" using assms(1) by (intro mult_right_mono) auto
  then have "0 < min (2 ^ k * rt) rtmax" "min (2 ^ k * rt) rtmax \<le> rtmax" using assms by auto
  from next_rtime_bounds(3) [OF this assms(3)] Suc show ?case
    using assms(1,2) by (auto simp: min_def)
qed

lemma next_rtime_fixed: "rtmax \<le> 0 \<Longrightarrow> next_rtime rtmax rt = rt"
  by (simp add: next_rtime_def)

section \<open>Dialing and closing\<close>

lemma dialer_Dial_twice: "snd (dialer_Dial d s) = s1 \<Longrightarrow> dialer_Dial d s1 = (Some ErrAddrInUse, s1)"
  by (auto simp: dialer_Dial_def upd_dialer_def spawn_def)

text \<open>A dialer that was dialed and closed leaves its loop at the next wait, and dials no more.\<close>

lemma dialer_closed_leaves:
  assumes "d_closeq (dtab s d)" "\<not> fired"
  shows "\<exists>s'. dialer_wait tclose rtmax d rtime tp fired pick s = Ret (DlGone, s')"
  using assms by (cases pick; cases "closeq s") (auto simp: dialer_wait_def go_select_def Let_def)

lemma dialer_Close_twice:
  "dialer_Close d s = Ret (None, s1) \<Longrightarrow> dialer_Close d s1 = Ret (Some ErrClosed, s1)"
  by (auto simp: dialer_Close_def upd_dialer_def split: if_splits)

text \<open>
  A dialer closed before it is dialed can still be dialed; it gets a fresh close channel
  that nobody can close any more.
\<close>

lemma dialer_Dial_after_Close:
  assumes "dialer_Close d s = Ret (None, s1)" "\<not> d_active (dtab s d)"
  shows "\<exists>s2. dialer_Dial d s1 = (None, s2) \<and> \<not> d_closeq (dtab s2 d) \<and> GDialer d \<in> set (gos s2) \<and>
    dialer_Close d s2 = Ret (Some ErrClosed, s2)"
  using assms by (auto simp: dialer_Close_def dialer_Dial_def upd_dialer_def spawn_def split: if_splits)

lemma sock_DialOptions_active:
  assumes "sock_DialOptions tnew tset addr opts s = (None, s')"
  shows "active s'"
  using assms
  by (auto simp: sock_DialOptions_def dialer_Dial_def spawn_def upd_dialer_def
      split: prod.splits sum.splits if_splits)

end
