(* ===== verification/Tran_Opts.thy ===== *)
theory Tran_Opts
  imports Dial
begin

text \<open>
  The option tables of the transports (the type \<^verbatim>\<open>options\<close> of tcp.go, tlstcp.go and
  ipc_unix.go), what a table must guarantee as the locale \<open>opts_impl\<close>, and
  \<^verbatim>\<open>ResolveTCPAddr\<close> of transport.go.
\<close>

section \<open>Tables\<close>

type_synonym opts = "string \<rightharpoonup> goval"

text \<open>tcp.go\<close>

definition tcp_get :: "opts \<Rightarrow> string \<Rightarrow> err + goval" where
  "tcp_get ot name = (case ot name of None \<Rightarrow> Inl ErrBadOption | Some v \<Rightarrow> Inr v)"

definition tcp_set :: "string \<Rightarrow> goval \<Rightarrow> opts \<Rightarrow> err option \<times> opts" where
  "tcp_set name val ot =
     (if name = OptionNoDelay \<or> name = OptionKeepAlive then
        (case val of VBool b \<Rightarrow> (None, ot(name \<mapsto> VBool b)) | _ \<Rightarrow> (Some ErrBadValue, ot))
      else if name = OptionKeepAliveTime then
        (case val of
           VDur d \<Rightarrow> if 0 \<le> d then (None, ot(name \<mapsto> VDur d)) else (Some ErrBadValue, ot)
         | _ \<Rightarrow> (Some ErrBadValue, ot))
      else (Some ErrBadOption, ot))"

definition tcp_newOptions :: opts where
  "tcp_newOptions = [OptionNoDelay \<mapsto> VBool True, OptionKeepAlive \<mapsto> VBool True]"

text \<open>
  \<^verbatim>\<open>configTCP\<close>: \<open>nd\<close>, \<open>ka\<close> and \<open>kt\<close> are the setters of the \<^verbatim>\<open>net.TCPConn\<close>. A value of
  the wrong type fails the assertion.
\<close>

definition configTCP ::
  "(bool \<Rightarrow> err option) \<Rightarrow> (bool \<Rightarrow> err option) \<Rightarrow> (dur \<Rightarrow> err option) \<Rightarrow> opts \<Rightarrow> err option run" where
  "configTCP nd ka kt ot =
     run_bind (case ot OptionNoDelay of
                 None \<Rightarrow> Ret None | Some (VBool b) \<Rightarrow> Ret (nd b) | Some _ \<Rightarrow> Panic) (\<lambda>e.
     if e \<noteq> None then Ret e
     else run_bind (case ot OptionKeepAlive of
                 None \<Rightarrow> Ret None | Some (VBool b) \<Rightarrow> Ret (ka b) | Some _ \<Rightarrow> Panic) (\<lambda>e.
     if e \<noteq> None then Ret e
     else (case ot OptionKeepAliveTime of
             None \<Rightarrow> Ret None | Some (VDur d) \<Rightarrow> Ret (kt d) | Some _ \<Rightarrow> Panic)))"

text \<open>tlstcp.go\<close>

definition tls_get :: "opts \<Rightarrow> string \<Rightarrow> err + goval" where
  "tls_get ot name = (case ot name of Some v \<Rightarrow> Inr v | None \<Rightarrow> Inl ErrBadOption)"

definition tls_set :: "string \<Rightarrow> goval \<Rightarrow> opts \<Rightarrow> err option \<times> opts" where
  "tls_set name val ot =
     (if name = OptionNoDelay \<or> name = OptionKeepAlive then
        (case val of VBool b \<Rightarrow> (None, ot(name \<mapsto> VBool b)) | _ \<Rightarrow> (Some ErrBadValue, ot))
      else if name = OptionKeepAliveTime then
        (case val of
           VDur d \<Rightarrow> if 0 \<le> d then (None, ot(name \<mapsto> VDur d)) else (Some ErrBadValue, ot)
         | _ \<Rightarrow> (Some ErrBadValue, ot))
      else if name = OptionTLSConfig then
        (case val of VTLS c \<Rightarrow> (None, ot(name \<mapsto> VTLS c)) | _ \<Rightarrow> (Some ErrBadValue, ot))
      else (Some ErrBadOption, ot))"

text \<open>The file has a \<^verbatim>\<open>configTCP\<close> of its own, the same as tcp.go's.\<close>

definition tls_configTCP ::
  "(bool \<Rightarrow> err option) \<Rightarrow> (bool \<Rightarrow> err option) \<Rightarrow> (dur \<Rightarrow> err option) \<Rightarrow> opts \<Rightarrow> err option run" where
  [simp]: "tls_configTCP = configTCP"

definition tls_newOptions :: "nat option \<Rightarrow> opts" where
  "tls_newOptions config =
     [OptionTLSConfig \<mapsto> VTLS config, OptionNoDelay \<mapsto> VBool True, OptionKeepAlive \<mapsto> VBool True]"

text \<open>ipc_unix.go: there are no options, and the table may be nil.\<close>

definition ipc_get :: "opts option \<Rightarrow> string \<Rightarrow> err + goval" where
  "ipc_get po name =
     (case po of
        None \<Rightarrow> Inl ErrBadOption
      | Some ot \<Rightarrow> (case ot name of None \<Rightarrow> Inl ErrBadOption | Some v \<Rightarrow> Inr v))"

definition ipc_set :: "string \<Rightarrow> goval \<Rightarrow> opts option \<Rightarrow> err option \<times> opts option" where
  "ipc_set name val po = (Some ErrBadOption, po)"

text \<open>\<^verbatim>\<open>ResolveTCPAddr\<close>: \<open>resolve\<close> is \<^verbatim>\<open>net.ResolveTCPAddr\<close>.\<close>

definition ResolveTCPAddr :: "(string \<Rightarrow> err + 'a) \<Rightarrow> string \<Rightarrow> err + 'a" where
  "ResolveTCPAddr resolve addr = resolve (if take 1 addr = ''*'' then drop 1 addr else addr)"

section \<open>The contract of an option table\<close>

text \<open>
  \<open>wt n v\<close>: the value \<open>v\<close> is one the users of the option \<open>n\<close> can work with. What is in the
  table is always of that kind.
\<close>

locale opts_impl =
  fixes get :: "'ot \<Rightarrow> string \<Rightarrow> err + goval"
    and set_opt :: "string \<Rightarrow> goval \<Rightarrow> 'ot \<Rightarrow> err option \<times> 'ot"
    and wt :: "string \<Rightarrow> goval \<Rightarrow> bool"
  assumes set_ok: "set_opt n v t = (None, t') \<Longrightarrow> get t' n = Inr v \<and> wt n v"
    and set_other: "set_opt n v t = (None, t') \<Longrightarrow> m \<noteq> n \<Longrightarrow> get t' m = get t m"
    and set_err: "set_opt n v t = (Some e, t') \<Longrightarrow> t' = t \<and> (e = ErrBadOption \<or> e = ErrBadValue)"
    and get_err: "get t n = Inl e \<Longrightarrow> e = ErrBadOption"
begin

text \<open>Settings in sequence: a table that is well typed stays so, whatever is tried.\<close>

lemma fold_wt:
  assumes "\<And>n v. get t n = Inr v \<Longrightarrow> wt n v"
  shows "get (fold (\<lambda>(n, v) t. snd (set_opt n v t)) xs t) n = Inr v \<Longrightarrow> wt n v"
  using assms
proof (induction xs arbitrary: t n v)
  case Nil
  then show ?case by simp
next
  case (Cons x xs)
  obtain a b where x: "x = (a, b)" by fastforce
  obtain e t1 where s: "set_opt a b t = (e, t1)" by fastforce
  have "get t1 m = Inr w \<Longrightarrow> wt m w" for m w
    using s set_ok [of a b t t1] set_other [of a b t t1 m] set_err [of a b t] Cons.prems(2)
    by (cases e; cases "m = a") auto
  moreover have "get (fold (\<lambda>(n, v) t. snd (set_opt n v t)) xs t1) n = Inr v"
    using Cons.prems(1) x s by simp
  ultimately show ?case using Cons.IH [of t1 n v] by blast
qed

end

text \<open>
  A dialer or listener that keeps such a table in a field and hands its option methods on to
  it keeps the contract.
\<close>

locale opts_holder = opts_impl get set_opt wt
  for get :: "'ot \<Rightarrow> string \<Rightarrow> err + goval" and set_opt :: "string \<Rightarrow> goval \<Rightarrow> 'ot \<Rightarrow> err option \<times> 'ot"
    and wt :: "string \<Rightarrow> goval \<Rightarrow> bool" +
  fixes field :: "'d \<Rightarrow> 'ot" and upd :: "'ot \<Rightarrow> 'd \<Rightarrow> 'd"
    and hget :: "'d \<Rightarrow> string \<Rightarrow> err + goval" and hset :: "string \<Rightarrow> goval \<Rightarrow> 'd \<Rightarrow> err option \<times> 'd"
  assumes field_upd: "field (upd t d) = t"
    and upd_field: "upd (field d) d = d"
    and hget: "hget d n = get (field d) n"
    and hset: "hset n v d = (case set_opt n v (field d) of (e, t) \<Rightarrow> (e, upd t d))"
begin

lemma hset_cases:
  "hset n v d = (e, d') \<longleftrightarrow> (\<exists>t. set_opt n v (field d) = (e, t) \<and> d' = upd t d)"
  by (auto simp: hset split: prod.splits)

lemma fold_field: "field (fold (\<lambda>(n, v) d. snd (hset n v d)) xs d) = fold (\<lambda>(n, v) t. snd (set_opt n v t)) xs (field d)"
  by (induction xs arbitrary: d) (auto simp: hset field_upd split: prod.split)

end

sublocale opts_holder \<subseteq> held: opts_impl hget hset wt
proof unfold_locales
  fix n m v and d d' :: 'd
  assume "hset n v d = (None, d')"
  then obtain t where t: "set_opt n v (field d) = (None, t)" and d': "d' = upd t d"
    unfolding hset_cases by (elim exE conjE)
  show "hget d' n = Inr v \<and> wt n v"
    unfolding hget d' field_upd by (rule set_ok [OF t])
  show "m \<noteq> n \<Longrightarrow> hget d' m = hget d m"
    unfolding hget d' field_upd by (rule set_other [OF t])
next
  fix n v e and d d' :: 'd
  assume "hset n v d = (Some e, d')"
  then obtain t where t: "set_opt n v (field d) = (Some e, t)" and d': "d' = upd t d"
    unfolding hset_cases by (elim exE conjE)
  from set_err [OF t] show "d' = d \<and> (e = ErrBadOption \<or> e = ErrBadValue)"
    by (simp add: d' upd_field)
next
  fix d n e
  show "hget d n = Inl e \<Longrightarrow> e = ErrBadOption" unfolding hget by (rule get_err)
qed

definition tcp_wt :: "string \<Rightarrow> goval \<Rightarrow> bool" where
  "tcp_wt n v \<longleftrightarrow>
     (n = OptionNoDelay \<or> n = OptionKeepAlive \<longrightarrow> (\<exists>b. v = VBool b)) \<and>
     (n = OptionKeepAliveTime \<longrightarrow> (\<exists>d \<ge> 0. v = VDur d)) \<and>
     (n = OptionTLSConfig \<longrightarrow> (\<exists>c. v = VTLS c))"

interpretation tcp_opts: opts_impl tcp_get tcp_set tcp_wt
  by unfold_locales
     (auto simp: tcp_get_def tcp_set_def tcp_wt_def option_name split: goval.splits if_splits option.splits)

interpretation tls_opts: opts_impl tls_get tls_set tcp_wt
  by unfold_locales
     (auto simp: tls_get_def tls_set_def tcp_wt_def option_name split: goval.splits if_splits option.splits)

interpretation ipc_opts: opts_impl ipc_get ipc_set "\<lambda>_ _. True"
  by unfold_locales (auto simp: ipc_get_def ipc_set_def split: option.splits)

text \<open>A table made by newOptions and changed by set never makes \<^verbatim>\<open>configTCP\<close> panic.\<close>

lemma configTCP_no_panic:
  assumes "\<And>n v. tcp_get t n = Inr v \<Longrightarrow> tcp_wt n v"
  shows "configTCP nd ka kt t \<noteq> Panic"
proof -
  have wt: "t n = Some v \<Longrightarrow> tcp_wt n v" for n v using assms [of n v] by (simp add: tcp_get_def)
  have bool: "(case t n of None \<Rightarrow> Ret None | Some (VBool b) \<Rightarrow> Ret (f b) | Some _ \<Rightarrow> Panic) \<noteq> Panic"
    if "n = OptionNoDelay \<or> n = OptionKeepAlive" for n and f :: "bool \<Rightarrow> err option"
    using wt [of n] that by (cases "t n") (auto simp: tcp_wt_def)
  have dur: "(case t OptionKeepAliveTime of None \<Rightarrow> Ret None | Some (VDur d) \<Rightarrow> Ret (kt d) | Some _ \<Rightarrow> Panic) \<noteq> Panic"
    using wt [of OptionKeepAliveTime] by (cases "t OptionKeepAliveTime") (auto simp: tcp_wt_def)
  show ?thesis
    unfolding configTCP_def run_bind_Panic_iff if_distrib [of "\<lambda>r. r = Panic"] using bool dur by simp
qed

lemma tcp_options_config:
  "configTCP nd ka kt (fold (\<lambda>(n, v) t. snd (tcp_set n v t)) xs tcp_newOptions) \<noteq> Panic"
proof (rule configTCP_no_panic, rule tcp_opts.fold_wt)
  show "tcp_get tcp_newOptions n = Inr v \<Longrightarrow> tcp_wt n v" for n v
    by (auto simp: tcp_get_def tcp_newOptions_def tcp_wt_def option_name split: if_splits)
qed

end
