(* ===== verification/Conn.thy ===== *)
theory Conn
  imports Backtrace
begin

text \<open>
  conn.go and connipc_posix.go: SP over a byte stream. The \<^verbatim>\<open>net.Conn\<close> under a \<^verbatim>\<open>conn\<close> is
  the bytes that can be read and the error that follows them, the bytes written so far, and
  how many bytes can still be written before which error.
\<close>

section \<open>The byte stream\<close>

record conn =
  k_in :: bytes
  k_rerr :: err
  k_out :: bytes
  k_werr :: "(nat \<times> err) option"
  k_closed :: bool
  k_open :: bool
  k_maxrx :: int
  k_props :: "string \<rightharpoonup> goval"

definition ErrEOF :: err where "ErrEOF = ErrOS ''EOF''"
definition ErrUnexpectedEOF :: err where "ErrUnexpectedEOF = ErrOS ''unexpected EOF''"

text \<open>\<^verbatim>\<open>io.ReadFull\<close> of \<open>n\<close> bytes, and a \<^verbatim>\<open>Read\<close> into a buffer of one byte.\<close>

definition ReadFull :: "nat \<Rightarrow> conn \<Rightarrow> (err + bytes) \<times> conn" where
  "ReadFull n k =
     (if n \<le> length (k_in k) then (Inr (take n (k_in k)), k\<lparr>k_in := drop n (k_in k)\<rparr>)
      else (Inl (if k_in k \<noteq> [] \<and> k_rerr k = ErrEOF then ErrUnexpectedEOF else k_rerr k),
            k\<lparr>k_in := []\<rparr>))"

definition Read1 :: "conn \<Rightarrow> (err + byte) \<times> conn" where
  "Read1 k = (case k_in k of [] \<Rightarrow> (Inl (k_rerr k), k) | b # bs \<Rightarrow> (Inr b, k\<lparr>k_in := bs\<rparr>))"

definition Write :: "bytes \<Rightarrow> conn \<Rightarrow> err option \<times> conn" where
  "Write b k =
     (case k_werr k of
        None \<Rightarrow> (None, k\<lparr>k_out := k_out k @ b\<rparr>)
      | Some (n, e) \<Rightarrow>
          if length b \<le> n then (None, k\<lparr>k_out := k_out k @ b, k_werr := Some (n - length b, e)\<rparr>)
          else (Some e, k\<lparr>k_out := k_out k @ take n b, k_werr := Some (0, e)\<rparr>))"

section \<open>Messages on the wire\<close>

text \<open>The rest of \<^verbatim>\<open>Recv\<close>, shared by conn and connipc: the size, the limit, the body.\<close>

definition recv_sized :: "mref \<Rightarrow> conn \<Rightarrow> 'a heap_scheme \<Rightarrow> ((err + mref) \<times> conn \<times> 'a heap_scheme) run" where
  "recv_sized pick k s =
     (case ReadFull 8 k of
        (Inl e, k1) \<Rightarrow> Ret (Inl e, k1, s)
      | (Inr b, k1) \<Rightarrow>
         (case be_Uint64 b of
            None \<Rightarrow> Panic
          | Some w \<Rightarrow>
             let sz = sint w
             in if sz < 0 \<or> (0 < k_maxrx k1 \<and> k_maxrx k1 < sz) then Ret (Inl ErrTooLong, k1, s)
                else
                  let (m, s1) = NewMessage pick (nat sz) s
                  in if bsize (msgs s1 m) < nat sz then Panic
                     else (case ReadFull (nat sz) k1 of
                             (Inl e, k2) \<Rightarrow> Ret (Inl e, k2, Free m s1)
                           | (Inr bd, k2) \<Rightarrow> Ret (Inr m, k2, set_body m bd s1))))"

definition conn_Recv :: "mref \<Rightarrow> conn \<Rightarrow> 'a heap_scheme \<Rightarrow> ((err + mref) \<times> conn \<times> 'a heap_scheme) run" where
  "conn_Recv = recv_sized"

definition conn_Send :: "inst \<Rightarrow> mref \<Rightarrow> conn \<Rightarrow> 'a heap_scheme \<Rightarrow> err option \<times> conn \<times> 'a heap_scheme" where
  "conn_Send now m k s =
     (let l = of_nat (length (hdr_bytes (msgs s m)) + length (body (msgs s m)))
      in if Expired now (msgs s m) then (None, k, Free m s)
         else (case Write (be64 l) k of
                 (Some e, k1) \<Rightarrow> (Some e, k1, s)
               | (None, k1) \<Rightarrow>
                  (case Write (hdr_bytes (msgs s m)) k1 of
                     (Some e, k2) \<Rightarrow> (Some e, k2, s)
                   | (None, k2) \<Rightarrow>
                      (case Write (body (msgs s m)) k2 of
                         (Some e, k3) \<Rightarrow> (Some e, k3, s)
                       | (None, k3) \<Rightarrow> (None, k3, Free m s)))))"

text \<open>connipc: a leading byte, written as 1 and read without being looked at.\<close>

definition connipc_Send :: "mref \<Rightarrow> conn \<Rightarrow> 'a heap_scheme \<Rightarrow> err option \<times> conn \<times> 'a heap_scheme" where
  "connipc_Send m k s =
     (let l = of_nat (length (hdr_bytes (msgs s m)) + length (body (msgs s m)))
      in case Write (1 # be64 l) k of
           (Some e, k1) \<Rightarrow> (Some e, k1, s)
         | (None, k1) \<Rightarrow>
            (case Write (hdr_bytes (msgs s m)) k1 of
               (Some e, k2) \<Rightarrow> (Some e, k2, s)
             | (None, k2) \<Rightarrow>
                (case Write (body (msgs s m)) k2 of
                   (Some e, k3) \<Rightarrow> (Some e, k3, s)
                 | (None, k3) \<Rightarrow> (None, k3, Free m s))))"

definition connipc_Recv :: "mref \<Rightarrow> conn \<Rightarrow> 'a heap_scheme \<Rightarrow> ((err + mref) \<times> conn \<times> 'a heap_scheme) run" where
  "connipc_Recv pick k s =
     (case Read1 k of
        (Inl e, k1) \<Rightarrow> Ret (Inl e, k1, s)
      | (Inr one, k1) \<Rightarrow> recv_sized pick k1 s)"

section \<open>Close and properties\<close>

definition net_Close :: "conn \<Rightarrow> conn" where
  "net_Close k = k\<lparr>k_closed := True\<rparr>"

definition conn_IsOpen :: "conn \<Rightarrow> bool" where
  "conn_IsOpen k = k_open k"

definition conn_Close :: "conn \<Rightarrow> conn" where
  "conn_Close k = (if conn_IsOpen k then net_Close (k\<lparr>k_open := False\<rparr>) else k)"

definition conn_GetProp :: "string \<Rightarrow> conn \<Rightarrow> err + goval" where
  "conn_GetProp n k = (case k_props k n of Some v \<Rightarrow> Inr v | None \<Rightarrow> Inl ErrBadProperty)"

definition conn_LocalProtocol :: "'s protocol_ops \<Rightarrow> u16" where
  "conn_LocalProtocol proto = op_Number proto"

definition conn_RemoteProtocol :: "'s protocol_ops \<Rightarrow> u16" where
  "conn_RemoteProtocol proto = op_PeerNumber proto"

section \<open>The handshake\<close>

text \<open>\<^verbatim>\<open>connHeader\<close> and its big-endian encoding\<close>

record connHeader =
  h_Zero :: byte
  h_S :: byte
  h_P :: byte
  h_Version :: byte
  h_Proto :: u16
  h_Rsvd :: u16

definition hdr_encode :: "connHeader \<Rightarrow> bytes" where
  "hdr_encode h = [h_Zero h, h_S h, h_P h, h_Version h] @ be16 (h_Proto h) @ be16 (h_Rsvd h)"

fun hdr_decode :: "bytes \<Rightarrow> connHeader option" where
  "hdr_decode (z # sb # pb # v # rest) =
     (case (be_Uint16 rest, be_Uint16 (drop 2 rest)) of
        (Some pr, Some rs) \<Rightarrow> Some \<lparr>h_Zero = z, h_S = sb, h_P = pb, h_Version = v, h_Proto = pr, h_Rsvd = rs\<rparr>
      | _ \<Rightarrow> None)"
| "hdr_decode _ = None"

definition my_header :: "u16 \<Rightarrow> connHeader" where
  "my_header n = \<lparr>h_Zero = 0, h_S = 83, h_P = 80, h_Version = 0, h_Proto = n, h_Rsvd = 0\<rparr>"

text \<open>The loop over the properties: pairs of a name and a value.\<close>

fun set_props :: "goval list \<Rightarrow> (string \<rightharpoonup> goval) \<Rightarrow> bool \<times> (string \<rightharpoonup> goval)" where
  "set_props (VStr n # v # rest) P = set_props rest (P(n \<mapsto> v))"
| "set_props (_ # _ # rest) P = (False, P)"
| "set_props _ P = (True, P)"

text \<open>\<open>la\<close> and \<open>ra\<close> are the addresses of the connection.\<close>

definition addr_props :: "goval \<Rightarrow> goval \<Rightarrow> string \<rightharpoonup> goval" where
  "addr_props la ra = [''LOCAL-ADDR'' \<mapsto> la, ''REMOTE-ADDR'' \<mapsto> ra]"

definition handshake ::
  "'a socket_scheme protocol_ops \<Rightarrow> goval list \<Rightarrow> goval \<Rightarrow> goval \<Rightarrow> conn \<Rightarrow> 'a socket_scheme \<Rightarrow>
   (err option \<times> conn) run" where
  "handshake proto props la ra k s =
     (let (ok, P) = set_props props (addr_props la ra);
          k1 = k\<lparr>k_props := P\<rparr>
      in if \<not> ok then Ret (Some ErrBadProperty, k1)
         else
           run_bind (case sock_GetOption proto OptionMaxRecvSize s of
                       Inl e \<Rightarrow> Ret k1
                     | Inr (VInt n) \<Rightarrow> Ret (k1\<lparr>k_maxrx := n\<rparr>)
                     | Inr _ \<Rightarrow> Panic) (\<lambda>k2.
           case Write (hdr_encode (my_header (op_Number proto))) k2 of
             (Some e, k3) \<Rightarrow> Ret (Some e, k3)
           | (None, k3) \<Rightarrow>
              (case ReadFull 8 k3 of
                 (Inl e, k4) \<Rightarrow> Ret (Some e, net_Close k4)
               | (Inr b, k4) \<Rightarrow>
                  (case hdr_decode b of
                     None \<Rightarrow> Panic
                   | Some h \<Rightarrow>
                       if h_Zero h \<noteq> 0 \<or> h_S h \<noteq> 83 \<or> h_P h \<noteq> 80 \<or> h_Rsvd h \<noteq> 0
                       then Ret (Some ErrBadHeader, net_Close k4)
                       else if h_Version h \<noteq> 0 then Ret (Some ErrBadVersion, net_Close k4)
                       else if h_Proto h \<noteq> op_PeerNumber proto then Ret (Some ErrBadProto, net_Close k4)
                       else Ret (None, k4\<lparr>k_open := True\<rparr>)))))"

text \<open>A fresh connection, and \<^verbatim>\<open>NewConnPipe\<close> (\<^verbatim>\<open>NewConnPipeIPC\<close> differs in the type only).\<close>

definition NewConnPipe ::
  "'a socket_scheme protocol_ops \<Rightarrow> goval list \<Rightarrow> goval \<Rightarrow> goval \<Rightarrow> conn \<Rightarrow> 'a socket_scheme \<Rightarrow> (err + conn) run" where
  "NewConnPipe proto props la ra c s =
     run_bind (handshake proto props la ra (c\<lparr>k_open := False, k_maxrx := 0\<rparr>) s) (\<lambda>(e, k).
       Ret (case e of Some x \<Rightarrow> Inl x | None \<Rightarrow> Inr k))"

section \<open>Facts about the stream\<close>

lemma ReadFull_exact: "k_in k = b @ rest \<Longrightarrow> length b = n \<Longrightarrow> ReadFull n k = (Inr b, k\<lparr>k_in := rest\<rparr>)"
  by (auto simp: ReadFull_def)

lemma Write_ok: "k_werr k = None \<Longrightarrow> Write b k = (None, k\<lparr>k_out := k_out k @ b\<rparr>)"
  by (simp add: Write_def)

lemma hdr_decode_encode [simp]: "hdr_decode (hdr_encode h) = Some h"
proof -
  have "be16 (h_Proto h) @ be16 (h_Rsvd h) = be16 (h_Proto h) @ (be16 (h_Rsvd h) @ [])" by simp
  then show ?thesis
    by (cases h) (simp add: hdr_encode_def be_Uint16_be16 [of _ "[]", simplified])
qed

lemma length_hdr_encode [simp]: "length (hdr_encode h) = 8"
  by (simp add: hdr_encode_def)

lemma sint_of_nat64: "int n < 2 ^ 63 \<Longrightarrow> sint (of_nat n :: u64) = int n"
  by (simp add: signed_of_nat signed_take_bit_int_eq_self)

section \<open>Framing\<close>

definition frame :: "bytes \<Rightarrow> bytes" where
  "frame b = be64 (of_nat (length b)) @ b"

lemma conn_Send_frame:
  assumes "k_werr k = None" "\<not> Expired now (msgs s m)"
  shows "conn_Send now m k s =
    (None, k\<lparr>k_out := k_out k @ frame (hdr_bytes (msgs s m) @ body (msgs s m))\<rparr>, Free m s)"
  using assms by (simp add: conn_Send_def Write_ok frame_def Let_def)

lemma connipc_Send_frame:
  assumes "k_werr k = None"
  shows "connipc_Send m k s =
    (None, k\<lparr>k_out := k_out k @ 1 # frame (hdr_bytes (msgs s m) @ body (msgs s m))\<rparr>, Free m s)"
  using assms by (simp add: connipc_Send_def Write_ok frame_def Let_def)

text \<open>A frame within the limit is received whole, into a fresh message.\<close>

lemma recv_sized_frame:
  assumes "k_in k = frame b @ rest" "int (length b) < 2 ^ 63"
    and "k_maxrx k = 0 \<or> int (length b) \<le> k_maxrx k" "NewMessage pick (length b) s = (m, s1)"
  shows "recv_sized pick k s = Ret (Inr m, k\<lparr>k_in := rest\<rparr>, set_body m b s1)"
proof -
  have r8: "ReadFull 8 k = (Inr (be64 (of_nat (length b))), k\<lparr>k_in := b @ rest\<rparr>)"
    using assms(1) by (intro ReadFull_exact) (simp_all add: frame_def)
  have sz: "be_Uint64 (be64 (of_nat (length b))) = Some (of_nat (length b))"
    using be_Uint64_be64 [of _ "[]"] by simp
  have rb: "ReadFull (length b) (k\<lparr>k_in := b @ rest\<rparr>) = (Inr b, k\<lparr>k_in := rest\<rparr>)"
    by (subst ReadFull_exact) auto
  have cap: "\<not> bsize (msgs s1 m) < length b" using NewMessage_capacity [OF assms(4)] by simp
  show ?thesis
    unfolding recv_sized_def r8 prod.case sum.case sz option.case
    using assms(3,4) rb cap by (auto simp: sint_of_nat64 [OF assms(2)] Let_def)
qed

lemma recv_sized_too_long:
  assumes "k_in k = be64 v @ rest" "sint v < 0 \<or> 0 < k_maxrx k \<and> k_maxrx k < sint v"
  shows "recv_sized pick k s = Ret (Inl ErrTooLong, k\<lparr>k_in := rest\<rparr>, s)"
proof -
  have r8: "ReadFull 8 k = (Inr (be64 v), k\<lparr>k_in := rest\<rparr>)"
    using assms(1) by (intro ReadFull_exact) simp_all
  have sz: "be_Uint64 (be64 v) = Some v" using be_Uint64_be64 [of v "[]"] by simp
  show ?thesis
    unfolding recv_sized_def r8 prod.case sum.case sz option.case
    using assms(2) by (simp add: Let_def)
qed

text \<open>Several messages in a row, sent and received.\<close>

fun send_all :: "inst \<Rightarrow> mref list \<Rightarrow> conn \<Rightarrow> 'a heap_scheme \<Rightarrow> conn \<times> 'a heap_scheme" where
  "send_all now [] k s = (k, s)"
| "send_all now (m # ms) k s = (case conn_Send now m k s of (_, k1, s1) \<Rightarrow> send_all now ms k1 s1)"

fun recv_all :: "mref list \<Rightarrow> conn \<Rightarrow> 'a heap_scheme \<Rightarrow> (bytes list \<times> conn \<times> 'a heap_scheme) run" where
  "recv_all [] k s = Ret ([], k, s)"
| "recv_all (pick # picks) k s =
     run_bind (conn_Recv pick k s) (\<lambda>(r, k1, s1).
       case r of
         Inl e \<Rightarrow> Ret ([], k1, s1)
       | Inr m \<Rightarrow> run_bind (recv_all picks k1 s1) (\<lambda>(bs, k2, s2). Ret (body (msgs s1 m) # bs, k2, s2)))"

lemma send_all_frames:
  "distinct ms \<Longrightarrow> k_werr k = None \<Longrightarrow> \<forall>m \<in> set ms. \<not> Expired now (msgs s m) \<Longrightarrow>
   k_out (fst (send_all now ms k s)) =
     k_out k @ concat (map (\<lambda>m. frame (hdr_bytes (msgs s m) @ body (msgs s m))) ms)"
proof (induction ms arbitrary: k s)
  case Nil
  show ?case by simp
next
  case (Cons m ms)
  let ?k1 = "k\<lparr>k_out := k_out k @ frame (hdr_bytes (msgs s m) @ body (msgs s m))\<rparr>"
  have same: "m' \<in> set ms \<Longrightarrow> msgs (Free m s) m' = msgs s m'" for m'
    using Cons.prems(1) by (auto simp: Free_eff)
  have "k_out (fst (send_all now ms ?k1 (Free m s))) =
      k_out ?k1 @ concat (map (\<lambda>m'. frame (hdr_bytes (msgs (Free m s) m') @ body (msgs (Free m s) m'))) ms)"
    using Cons.prems same by (intro Cons.IH) auto
  also have "map (\<lambda>m'. frame (hdr_bytes (msgs (Free m s) m') @ body (msgs (Free m s) m'))) ms =
      map (\<lambda>m'. frame (hdr_bytes (msgs s m') @ body (msgs s m'))) ms"
    using same by (intro map_cong) simp_all
  finally show ?case
    using conn_Send_frame [of k now s m] Cons.prems by simp
qed

lemma recv_all_frames:
  "k_in k = concat (map frame bs) @ rest \<Longrightarrow> length picks = length bs \<Longrightarrow>
   \<forall>b \<in> set bs. int (length b) < 2 ^ 63 \<and> (k_maxrx k = 0 \<or> int (length b) \<le> k_maxrx k) \<Longrightarrow>
   \<exists>s'. recv_all picks k s = Ret (bs, k\<lparr>k_in := rest\<rparr>, s')"
proof (induction bs arbitrary: picks k s)
  case Nil
  then show ?case by (cases k) simp
next
  case (Cons b bs)
  then obtain p ps where picks: "picks = p # ps" "length ps = length bs"
    by (cases picks) auto
  obtain m s1 where nm: "NewMessage p (length b) s = (m, s1)" by fastforce
  have r: "conn_Recv p k s = Ret (Inr m, k\<lparr>k_in := concat (map frame bs) @ rest\<rparr>, set_body m b s1)"
    unfolding conn_Recv_def using Cons.prems nm by (intro recv_sized_frame) auto
  have "\<exists>s'. recv_all ps (k\<lparr>k_in := concat (map frame bs) @ rest\<rparr>) (set_body m b s1) =
      Ret (bs, (k\<lparr>k_in := concat (map frame bs) @ rest\<rparr>)\<lparr>k_in := rest\<rparr>, s')"
    using Cons.prems picks by (intro Cons.IH) auto
  then show ?case using picks r by (auto simp: set_body_def)
qed

text \<open>Receiving never panics: the message obtained is always large enough for the slice.\<close>

lemma recv_sized_no_panic: "recv_sized pick k s \<noteq> Panic"
proof -
  have "be_Uint64 b \<noteq> None" if "ReadFull 8 k = (Inr b, k1)" for b k1
  proof -
    have "length b = 8" using that by (auto simp: ReadFull_def split: if_splits)
    then show ?thesis
      using be_Uint32_None_iff [of b] be_Uint32_None_iff [of "drop 4 b"]
      by (auto simp: be_Uint64_def split: option.split)
  qed
  moreover have "\<not> bsize (msgs s1 m) < nat z" if "NewMessage pick (nat z) s = (m, s1)" for m s1 z
    using NewMessage_capacity [OF that] by simp
  ultimately show ?thesis
    by (auto simp: recv_sized_def Let_def split: prod.split sum.split option.split)
qed

text \<open>Whatever the stream holds, a message comes with all the bytes announced, or not at all.\<close>

lemma recv_sized_pool_ok:
  assumes "pool_ok s" "recv_sized pick k s = Ret (r, k', s')"
  shows "pool_ok s'"
proof -
  have free: "pool_ok (Free m s1)" if "NewMessage pick n s = (m, s1)" for m s1 n
  proof -
    have "pool_ok s1" using NewMessage_pool_ok [OF assms(1), of pick n] that by simp
    then show ?thesis using NewMessage_fresh(2) [OF that assms(1)] by (rule Free_pool_ok)
  qed
  have bd: "pool_ok (set_body m b s1)" if "NewMessage pick n s = (m, s1)" for m s1 n b
  proof -
    have "pool_ok s1" using NewMessage_pool_ok [OF assms(1), of pick n] that by simp
    then show ?thesis by (auto simp: set_body_def pool_ok_def)
  qed
  show ?thesis
    using assms free bd
    by (auto simp: recv_sized_def Let_def split: prod.splits sum.splits option.splits if_splits)
qed

section \<open>The handshake succeeds exactly for valid peers\<close>

lemma set_props_pairs: "fst (set_props (concat (map (\<lambda>(n, v). [VStr n, v]) ps)) P)"
  by (induction ps arbitrary: P) auto

lemma handshake_reads:
  assumes "fst (set_props props (addr_props la ra))" "k_werr k = None"
    and "sock_GetOption proto OptionMaxRecvSize s = Inr (VInt n)" "k_in k = hdr_encode h @ rest"
  shows "\<exists>k'. handshake proto props la ra k s = Ret
    (if h_Zero h \<noteq> 0 \<or> h_S h \<noteq> 83 \<or> h_P h \<noteq> 80 \<or> h_Rsvd h \<noteq> 0 then Some ErrBadHeader
     else if h_Version h \<noteq> 0 then Some ErrBadVersion
     else if h_Proto h \<noteq> op_PeerNumber proto then Some ErrBadProto else None, k') \<and>
    k_in k' = rest \<and> k_out k' = k_out k @ hdr_encode (my_header (op_Number proto)) \<and> k_maxrx k' = n"
proof -
  obtain P where P: "set_props props (addr_props la ra) = (True, P)"
    using assms(1) by (metis (full_types) eq_fst_iff)
  let ?k3 = "k\<lparr>k_props := P, k_maxrx := n, k_out := k_out k @ hdr_encode (my_header (op_Number proto))\<rparr>"
  have w: "Write (hdr_encode (my_header (op_Number proto))) (k\<lparr>k_props := P, k_maxrx := n\<rparr>) = (None, ?k3)"
    using assms(2) by (simp add: Write_ok)
  have r: "ReadFull 8 ?k3 = (Inr (hdr_encode h), ?k3\<lparr>k_in := rest\<rparr>)"
    using assms(4) by (intro ReadFull_exact) simp_all
  show ?thesis
    unfolding handshake_def P Let_def prod.case assms(3) sum.case goval.case run_bind.simps
    using w r by (simp add: net_Close_def)
qed

lemma handshake_valid_peers:
  assumes "fst (set_props props (addr_props la ra))" "k_werr k = None"
    and "sock_GetOption p1 OptionMaxRecvSize s = Inr (VInt n)"
    and "k_in k = hdr_encode (my_header (op_Number p2)) @ rest"
  shows "\<exists>k'. handshake p1 props la ra k s =
      Ret (if op_Number p2 = op_PeerNumber p1 then None else Some ErrBadProto, k')"
  using handshake_reads [OF assms] by (auto simp: my_header_def)

end
