(* ===== verification/Tran_Net.thy ===== *)
theory Tran_Net
  imports Tran_Opts Conn
begin

text \<open>
  The TCP, TLS and IPC transports: their dialers and listeners, around \<open>NewConnPipe\<close>. The
  operating system's and crypto/tls' operations are parameters: resolving an address,
  connecting, listening, accepting, the TLS handshake. A listener's \<open>'a\<close> is a resolved
  address; \<open>la\<close> and \<open>ra\<close> are the addresses of a connection.
\<close>

section \<open>tcp.go\<close>

record tcp_dialer =
  td_addr :: string
  td_opts :: opts

record 'a tcp_listener =
  tl_addr :: 'a
  tl_bound :: "'a option"
  tl_listening :: bool
  tl_opts :: opts

definition tcp_NewDialer :: "(string \<Rightarrow> err + 'a) \<Rightarrow> string \<Rightarrow> err + tcp_dialer" where
  "tcp_NewDialer resolve addr =
     (case StripScheme ''tcp'' addr of
        (Some e, _) \<Rightarrow> Inl e
      | (None, a) \<Rightarrow>
         (case ResolveTCPAddr resolve a of
            Inl e \<Rightarrow> Inl e
          | Inr _ \<Rightarrow> Inr \<lparr>td_addr = a, td_opts = tcp_newOptions\<rparr>))"

definition tcp_NewListener :: "(string \<Rightarrow> err + 'a) \<Rightarrow> string \<Rightarrow> err + 'a tcp_listener" where
  "tcp_NewListener resolve addr =
     (case StripScheme ''tcp'' addr of
        (Some e, _) \<Rightarrow> Inl e
      | (None, a) \<Rightarrow>
         (case ResolveTCPAddr resolve a of
            Inl e \<Rightarrow> Inl e
          | Inr ra \<Rightarrow> Inr \<lparr>tl_addr = ra, tl_bound = None, tl_listening = False, tl_opts = tcp_newOptions\<rparr>))"

text \<open>
  What Dial and Accept do with a connection: configure it, then the SP handshake. \<open>set1\<close>,
  \<open>set2\<close>, \<open>set3\<close> are the setters of the connection.
\<close>

definition tcp_conn ::
  "(conn \<Rightarrow> bool \<Rightarrow> err option) \<Rightarrow> (conn \<Rightarrow> bool \<Rightarrow> err option) \<Rightarrow> (conn \<Rightarrow> dur \<Rightarrow> err option) \<Rightarrow>
   'b socket_scheme protocol_ops \<Rightarrow> goval \<Rightarrow> goval \<Rightarrow> opts \<Rightarrow> conn \<Rightarrow> 'b socket_scheme \<Rightarrow> (err + conn) run" where
  "tcp_conn set1 set2 set3 proto la ra opts c s =
     run_bind (configTCP (set1 c) (set2 c) (set3 c) opts) (\<lambda>e.
       case e of Some x \<Rightarrow> Ret (Inl x) | None \<Rightarrow> NewConnPipe proto [] la ra c s)"

definition tcp_Dial ::
  "(string \<Rightarrow> err + 'a) \<Rightarrow> ('a \<Rightarrow> err + conn) \<Rightarrow>
   (conn \<Rightarrow> bool \<Rightarrow> err option) \<Rightarrow> (conn \<Rightarrow> bool \<Rightarrow> err option) \<Rightarrow> (conn \<Rightarrow> dur \<Rightarrow> err option) \<Rightarrow>
   'b socket_scheme protocol_ops \<Rightarrow> goval \<Rightarrow> goval \<Rightarrow> tcp_dialer \<Rightarrow> 'b socket_scheme \<Rightarrow> (err + conn) run" where
  "tcp_Dial resolve connect set1 set2 set3 proto la ra d s =
     (case ResolveTCPAddr resolve (td_addr d) of
        Inl e \<Rightarrow> Ret (Inl e)
      | Inr a \<Rightarrow>
         (case connect a of
            Inl e \<Rightarrow> Ret (Inl e)
          | Inr c \<Rightarrow> tcp_conn set1 set2 set3 proto la ra (td_opts d) c s))"

definition tcp_Listen :: "('a \<Rightarrow> err + 'a) \<Rightarrow> 'a tcp_listener \<Rightarrow> err option \<times> 'a tcp_listener" where
  "tcp_Listen listen l =
     (case listen (tl_addr l) of
        Inl e \<Rightarrow> (Some e, l\<lparr>tl_listening := False\<rparr>)
      | Inr b \<Rightarrow> (None, l\<lparr>tl_listening := True, tl_bound := Some b\<rparr>))"

definition tcp_Accept ::
  "err + conn \<Rightarrow> (conn \<Rightarrow> bool \<Rightarrow> err option) \<Rightarrow> (conn \<Rightarrow> bool \<Rightarrow> err option) \<Rightarrow> (conn \<Rightarrow> dur \<Rightarrow> err option) \<Rightarrow>
   'b socket_scheme protocol_ops \<Rightarrow> goval \<Rightarrow> goval \<Rightarrow> 'a tcp_listener \<Rightarrow> 'b socket_scheme \<Rightarrow> (err + conn) run" where
  "tcp_Accept acc set1 set2 set3 proto la ra l s =
     (if \<not> tl_listening l then Ret (Inl ErrClosed)
      else case acc of Inl e \<Rightarrow> Ret (Inl e) | Inr c \<Rightarrow> tcp_conn set1 set2 set3 proto la ra (tl_opts l) c s)"

definition tcp_Address :: "('a \<Rightarrow> string) \<Rightarrow> 'a tcp_listener \<Rightarrow> string" where
  "tcp_Address str l =
     (case tl_bound l of Some b \<Rightarrow> ''tcp://'' @ str b | None \<Rightarrow> ''tcp://'' @ str (tl_addr l))"

section \<open>tlstcp.go\<close>

record 'a tls_listener = "'a tcp_listener" +
  tl_config :: "nat option"

definition tls_NewDialer :: "nat option \<Rightarrow> (string \<Rightarrow> err + 'a) \<Rightarrow> string \<Rightarrow> err + tcp_dialer" where
  "tls_NewDialer config resolve addr =
     (case StripScheme ''tls+tcp'' addr of
        (Some e, _) \<Rightarrow> Inl e
      | (None, a) \<Rightarrow>
         (case ResolveTCPAddr resolve a of
            Inl e \<Rightarrow> Inl e
          | Inr _ \<Rightarrow> Inr \<lparr>td_addr = a, td_opts = tls_newOptions config\<rparr>))"

definition tls_NewListener :: "nat option \<Rightarrow> (string \<Rightarrow> err + 'a) \<Rightarrow> string \<Rightarrow> err + 'a tls_listener" where
  "tls_NewListener config resolve addr =
     (case StripScheme ''tls+tcp'' addr of
        (Some e, _) \<Rightarrow> Inl e
      | (None, a) \<Rightarrow>
         (case ResolveTCPAddr resolve a of
            Inl e \<Rightarrow> Inl e
          | Inr ra \<Rightarrow> Inr \<lparr>tl_addr = ra, tl_bound = None, tl_listening = False,
                            tl_opts = tls_newOptions config, tl_config = None\<rparr>))"

text \<open>
  \<open>tls\<close> is \<^verbatim>\<open>tls.Client\<close> or \<^verbatim>\<open>tls.Server\<close> with its handshake, and \<open>cs\<close> the connection
  state it exposes; \<open>certs\<close> counts the certificates of a configuration.
\<close>

definition tls_conn ::
  "(nat option \<Rightarrow> conn \<Rightarrow> err + conn) \<Rightarrow> (conn \<Rightarrow> goval) \<Rightarrow>
   (conn \<Rightarrow> bool \<Rightarrow> err option) \<Rightarrow> (conn \<Rightarrow> bool \<Rightarrow> err option) \<Rightarrow> (conn \<Rightarrow> dur \<Rightarrow> err option) \<Rightarrow>
   'b socket_scheme protocol_ops \<Rightarrow> goval \<Rightarrow> goval \<Rightarrow> opts \<Rightarrow> nat option \<Rightarrow> conn \<Rightarrow> 'b socket_scheme \<Rightarrow>
   (err + conn) run" where
  "tls_conn tls cs set1 set2 set3 proto la ra opts config c s =
     run_bind (tls_configTCP (set1 c) (set2 c) (set3 c) opts) (\<lambda>e.
       case e of
         Some x \<Rightarrow> Ret (Inl x)
       | None \<Rightarrow>
          (case tls config c of
             Inl x \<Rightarrow> Ret (Inl x)
           | Inr c2 \<Rightarrow> NewConnPipe proto [VStr ''TLS-STATE'', cs c2] la ra c2 s))"

definition tls_Dial ::
  "(string \<Rightarrow> err + 'a) \<Rightarrow> ('a \<Rightarrow> err + conn) \<Rightarrow>
   (nat option \<Rightarrow> conn \<Rightarrow> err + conn) \<Rightarrow> (conn \<Rightarrow> goval) \<Rightarrow>
   (conn \<Rightarrow> bool \<Rightarrow> err option) \<Rightarrow> (conn \<Rightarrow> bool \<Rightarrow> err option) \<Rightarrow> (conn \<Rightarrow> dur \<Rightarrow> err option) \<Rightarrow>
   'b socket_scheme protocol_ops \<Rightarrow> goval \<Rightarrow> goval \<Rightarrow> tcp_dialer \<Rightarrow> 'b socket_scheme \<Rightarrow> (err + conn) run" where
  "tls_Dial resolve connect tls cs set1 set2 set3 proto la ra d s =
     (case ResolveTCPAddr resolve (td_addr d) of
        Inl e \<Rightarrow> Ret (Inl e)
      | Inr a \<Rightarrow>
         (case connect a of
            Inl e \<Rightarrow> Ret (Inl e)
          | Inr c \<Rightarrow>
             run_bind (tls_configTCP (set1 c) (set2 c) (set3 c) (td_opts d)) (\<lambda>e.
               if e \<noteq> None then Ret (Inl (the e))
               else run_bind (case td_opts d OptionTLSConfig of
                                None \<Rightarrow> Ret None | Some (VTLS x) \<Rightarrow> Ret x | Some _ \<Rightarrow> Panic) (\<lambda>config.
                 case tls config c of
                   Inl x \<Rightarrow> Ret (Inl x)
                 | Inr c2 \<Rightarrow> NewConnPipe proto [VStr ''TLS-STATE'', cs c2] la ra c2 s))))"

definition tls_Listen ::
  "(nat \<Rightarrow> nat) \<Rightarrow> ('a \<Rightarrow> err + 'a) \<Rightarrow> 'a tls_listener \<Rightarrow> (err option \<times> 'a tls_listener) run" where
  "tls_Listen certs listen l =
     (case tl_opts l OptionTLSConfig of
        None \<Rightarrow> Ret (Some ErrTLSNoConfig, l)
      | Some (VTLS config) \<Rightarrow>
          let l1 = l\<lparr>tl_config := config\<rparr>
          in (case config of
                None \<Rightarrow> Ret (Some ErrTLSNoConfig, l1)
              | Some c \<Rightarrow>
                  if certs c = 0 then Ret (Some ErrTLSNoCert, l1)
                  else (case listen (tl_addr l1) of
                          Inl e \<Rightarrow> Ret (Some e, l1\<lparr>tl_listening := False\<rparr>)
                        | Inr b \<Rightarrow> Ret (None, l1\<lparr>tl_listening := True, tl_bound := Some b\<rparr>)))
      | Some _ \<Rightarrow> Panic)"

definition tls_Accept ::
  "err + conn \<Rightarrow> (nat option \<Rightarrow> conn \<Rightarrow> err + conn) \<Rightarrow> (conn \<Rightarrow> goval) \<Rightarrow>
   (conn \<Rightarrow> bool \<Rightarrow> err option) \<Rightarrow> (conn \<Rightarrow> bool \<Rightarrow> err option) \<Rightarrow> (conn \<Rightarrow> dur \<Rightarrow> err option) \<Rightarrow>
   'b socket_scheme protocol_ops \<Rightarrow> goval \<Rightarrow> goval \<Rightarrow> 'a tls_listener \<Rightarrow> 'b socket_scheme \<Rightarrow> (err + conn) run" where
  "tls_Accept acc tls cs set1 set2 set3 proto la ra l s =
     (case acc of
        Inl e \<Rightarrow> Ret (Inl e)
      | Inr c \<Rightarrow> tls_conn tls cs set1 set2 set3 proto la ra (tl_opts l) (tl_config l) c s)"

definition tls_Address :: "('a \<Rightarrow> string) \<Rightarrow> 'a tls_listener \<Rightarrow> string" where
  "tls_Address str l =
     (case tl_bound l of Some b \<Rightarrow> ''tls+tcp://'' @ str b | None \<Rightarrow> ''tls+tcp://'' @ str (tl_addr l))"

section \<open>ipc_unix.go\<close>

record 'a ipc_dialer =
  id_addr :: 'a
  id_opts :: "opts option"

record 'a ipc_listener =
  il_addr :: 'a
  il_opts :: "opts option"
  il_listening :: bool

definition ipc_NewDialer :: "(string \<Rightarrow> err + 'a) \<Rightarrow> string \<Rightarrow> err + 'a ipc_dialer" where
  "ipc_NewDialer resolve addr =
     (case StripScheme ''ipc'' addr of
        (Some e, _) \<Rightarrow> Inl e
      | (None, a) \<Rightarrow>
         (case resolve a of Inl e \<Rightarrow> Inl e | Inr ra \<Rightarrow> Inr \<lparr>id_addr = ra, id_opts = None\<rparr>))"

definition ipc_NewListener :: "(string \<Rightarrow> err + 'a) \<Rightarrow> string \<Rightarrow> err + 'a ipc_listener" where
  "ipc_NewListener resolve addr =
     (case StripScheme ''ipc'' addr of
        (Some e, _) \<Rightarrow> Inl e
      | (None, a) \<Rightarrow>
         (case resolve a of
            Inl e \<Rightarrow> Inl e | Inr ra \<Rightarrow> Inr \<lparr>il_addr = ra, il_opts = None, il_listening = False\<rparr>))"

definition ipc_Dial ::
  "('a \<Rightarrow> err + conn) \<Rightarrow> 'b socket_scheme protocol_ops \<Rightarrow> goval \<Rightarrow> goval \<Rightarrow> 'a ipc_dialer \<Rightarrow>
   'b socket_scheme \<Rightarrow> (err + conn) run" where
  "ipc_Dial connect proto la ra d s =
     (case connect (id_addr d) of Inl e \<Rightarrow> Ret (Inl e) | Inr c \<Rightarrow> NewConnPipe proto [] la ra c s)"

definition ipc_Listen :: "('a \<Rightarrow> err option) \<Rightarrow> 'a ipc_listener \<Rightarrow> err option \<times> 'a ipc_listener" where
  "ipc_Listen listen l =
     (case listen (il_addr l) of Some e \<Rightarrow> (Some e, l) | None \<Rightarrow> (None, l\<lparr>il_listening := True\<rparr>))"

definition ipc_Accept ::
  "err + conn \<Rightarrow> 'b socket_scheme protocol_ops \<Rightarrow> goval \<Rightarrow> goval \<Rightarrow> 'b socket_scheme \<Rightarrow> (err + conn) run" where
  "ipc_Accept acc proto la ra s =
     (case acc of Inl e \<Rightarrow> Ret (Inl e) | Inr c \<Rightarrow> NewConnPipe proto [] la ra c s)"

definition ipc_Address :: "('a \<Rightarrow> string) \<Rightarrow> 'a ipc_listener \<Rightarrow> string" where
  "ipc_Address str l = ''ipc://'' @ str (il_addr l)"

section \<open>Option methods\<close>

text \<open>Dialers and listeners hand their option methods on to their table.\<close>

definition tcp_dialer_SetOption :: "string \<Rightarrow> goval \<Rightarrow> tcp_dialer \<Rightarrow> err option \<times> tcp_dialer" where
  "tcp_dialer_SetOption n v d = (case tcp_set n v (td_opts d) of (e, t) \<Rightarrow> (e, d\<lparr>td_opts := t\<rparr>))"

definition tcp_dialer_GetOption :: "tcp_dialer \<Rightarrow> string \<Rightarrow> err + goval" where
  "tcp_dialer_GetOption d n = tcp_get (td_opts d) n"

definition tcp_listener_SetOption :: "string \<Rightarrow> goval \<Rightarrow> 'a tcp_listener \<Rightarrow> err option \<times> 'a tcp_listener" where
  "tcp_listener_SetOption n v d = (case tcp_set n v (tl_opts d) of (e, t) \<Rightarrow> (e, d\<lparr>tl_opts := t\<rparr>))"

definition tcp_listener_GetOption :: "'a tcp_listener \<Rightarrow> string \<Rightarrow> err + goval" where
  "tcp_listener_GetOption d n = tcp_get (tl_opts d) n"

definition tls_dialer_SetOption :: "string \<Rightarrow> goval \<Rightarrow> tcp_dialer \<Rightarrow> err option \<times> tcp_dialer" where
  "tls_dialer_SetOption n v d = (case tls_set n v (td_opts d) of (e, t) \<Rightarrow> (e, d\<lparr>td_opts := t\<rparr>))"

definition tls_dialer_GetOption :: "tcp_dialer \<Rightarrow> string \<Rightarrow> err + goval" where
  "tls_dialer_GetOption d n = tls_get (td_opts d) n"

definition tls_listener_SetOption :: "string \<Rightarrow> goval \<Rightarrow> 'a tls_listener \<Rightarrow> err option \<times> 'a tls_listener" where
  "tls_listener_SetOption n v d = (case tls_set n v (tl_opts d) of (e, t) \<Rightarrow> (e, d\<lparr>tl_opts := t\<rparr>))"

definition tls_listener_GetOption :: "'a tls_listener \<Rightarrow> string \<Rightarrow> err + goval" where
  "tls_listener_GetOption d n = tls_get (tl_opts d) n"

definition ipc_dialer_SetOption :: "string \<Rightarrow> goval \<Rightarrow> 'a ipc_dialer \<Rightarrow> err option \<times> 'a ipc_dialer" where
  "ipc_dialer_SetOption n v d = (case ipc_set n v (id_opts d) of (e, t) \<Rightarrow> (e, d\<lparr>id_opts := t\<rparr>))"

definition ipc_dialer_GetOption :: "'a ipc_dialer \<Rightarrow> string \<Rightarrow> err + goval" where
  "ipc_dialer_GetOption d n = ipc_get (id_opts d) n"

definition ipc_listener_SetOption :: "string \<Rightarrow> goval \<Rightarrow> 'a ipc_listener \<Rightarrow> err option \<times> 'a ipc_listener" where
  "ipc_listener_SetOption n v d = (case ipc_set n v (il_opts d) of (e, t) \<Rightarrow> (e, d\<lparr>il_opts := t\<rparr>))"

definition ipc_listener_GetOption :: "'a ipc_listener \<Rightarrow> string \<Rightarrow> err + goval" where
  "ipc_listener_GetOption d n = ipc_get (il_opts d) n"

interpretation tcp_dialer: opts_holder tcp_get tcp_set tcp_wt td_opts "\<lambda>t d. d\<lparr>td_opts := t\<rparr>" tcp_dialer_GetOption tcp_dialer_SetOption
  by unfold_locales (simp_all add: tcp_dialer_GetOption_def tcp_dialer_SetOption_def)

interpretation tcp_listener: opts_holder tcp_get tcp_set tcp_wt tl_opts "\<lambda>t d. d\<lparr>tl_opts := t\<rparr>" tcp_listener_GetOption tcp_listener_SetOption
  by unfold_locales (simp_all add: tcp_listener_GetOption_def tcp_listener_SetOption_def)

interpretation tls_dialer: opts_holder tls_get tls_set tcp_wt td_opts "\<lambda>t d. d\<lparr>td_opts := t\<rparr>" tls_dialer_GetOption tls_dialer_SetOption
  by unfold_locales (simp_all add: tls_dialer_GetOption_def tls_dialer_SetOption_def)

interpretation tls_listener: opts_holder tls_get tls_set tcp_wt tl_opts "\<lambda>t d. d\<lparr>tl_opts := t\<rparr>" tls_listener_GetOption tls_listener_SetOption
  by unfold_locales (simp_all add: tls_listener_GetOption_def tls_listener_SetOption_def)

interpretation ipc_dialer: opts_holder ipc_get ipc_set "\<lambda>_ _. True" id_opts "\<lambda>t d. d\<lparr>id_opts := t\<rparr>" ipc_dialer_GetOption ipc_dialer_SetOption
  by unfold_locales (simp_all add: ipc_dialer_GetOption_def ipc_dialer_SetOption_def)

interpretation ipc_listener: opts_holder ipc_get ipc_set "\<lambda>_ _. True" il_opts "\<lambda>t d. d\<lparr>il_opts := t\<rparr>" ipc_listener_GetOption ipc_listener_SetOption
  by unfold_locales (simp_all add: ipc_listener_GetOption_def ipc_listener_SetOption_def)

text \<open>
  Whatever an application sets on a dialer, or tries to, dialing does not panic while it
  configures the connection, nor while it looks for the TLS configuration.
\<close>

lemma tcp_dialer_config:
  assumes "tcp_NewDialer resolve addr = Inr d"
  shows "configTCP nd ka kt (td_opts (fold (\<lambda>(n, v) d. snd (tcp_dialer_SetOption n v d)) xs d)) \<noteq> Panic"
proof -
  have "td_opts d = tcp_newOptions" using assms by (auto simp: tcp_NewDialer_def split: prod.splits option.splits sum.splits)
  then show ?thesis unfolding tcp_dialer.fold_field by (simp add: tcp_options_config)
qed

lemma tls_dialer_config:
  assumes "tls_NewDialer config resolve addr = Inr d" "d' = fold (\<lambda>(n, v) d. snd (tls_dialer_SetOption n v d)) xs d"
  shows "configTCP nd ka kt (td_opts d') \<noteq> Panic" and "td_opts d' OptionTLSConfig = Some v \<Longrightarrow> \<exists>c. v = VTLS c"
proof -
  have d: "td_opts d = tls_newOptions config"
    using assms(1) by (auto simp: tls_NewDialer_def split: prod.splits option.splits sum.splits)
  have new: "tls_get (tls_newOptions config) n = Inr v \<Longrightarrow> tcp_wt n v" for n v
    by (auto simp: tls_get_def tls_newOptions_def tcp_wt_def option_name split: if_splits)
  have wt: "td_opts d' n = Some v \<Longrightarrow> tcp_wt n v" for n v
    using tls_opts.fold_wt [of "tls_newOptions config" xs n v, OF new]
    unfolding assms(2) tls_dialer.fold_field d by (simp add: tls_get_def)
  then show "configTCP nd ka kt (td_opts d') \<noteq> Panic"
    by (intro configTCP_no_panic) (simp add: tcp_get_def split: option.splits)
  show "td_opts d' OptionTLSConfig = Some v \<Longrightarrow> \<exists>c. v = VTLS c"
    using wt [of OptionTLSConfig v] by (simp add: tcp_wt_def)
qed

section \<open>Facts\<close>

lemma StripScheme_iff:
  "StripScheme sch addr = (None, rest) \<longleftrightarrow> addr = (sch @ ''://'') @ rest"
  unfolding StripScheme_def Let_def
  by (metis (no_types, lifting) append_eq_conv_conj append_take_drop_id option.distinct(1) prod.inject)

text \<open>An address of another scheme is refused before anything is resolved.\<close>

lemma tran_wrong_scheme:
  assumes "\<And>rest. addr \<noteq> (sch @ ''://'') @ rest"
  shows "sch = ''tcp'' \<Longrightarrow> tcp_NewDialer resolve addr = Inl ErrBadTran \<and> tcp_NewListener resolve addr = Inl ErrBadTran"
    and "sch = ''tls+tcp'' \<Longrightarrow> tls_NewDialer c resolve addr = Inl ErrBadTran \<and> tls_NewListener c resolve addr = Inl ErrBadTran"
    and "sch = ''ipc'' \<Longrightarrow> ipc_NewDialer resolve addr = Inl ErrBadTran \<and> ipc_NewListener resolve addr = Inl ErrBadTran"
proof -
  obtain e a where ea: "StripScheme sch addr = (e, a)" by fastforce
  have "e \<noteq> None" using assms StripScheme_iff [of sch addr a] ea by auto
  then have "e = Some ErrBadTran" using ea by (auto simp: StripScheme_def Let_def split: if_splits)
  with ea have *: "StripScheme sch addr = (Some ErrBadTran, a)" by simp
  show "sch = ''tcp'' \<Longrightarrow> tcp_NewDialer resolve addr = Inl ErrBadTran \<and> tcp_NewListener resolve addr = Inl ErrBadTran"
    using * by (simp add: tcp_NewDialer_def tcp_NewListener_def)
  show "sch = ''tls+tcp'' \<Longrightarrow> tls_NewDialer c resolve addr = Inl ErrBadTran \<and> tls_NewListener c resolve addr = Inl ErrBadTran"
    using * by (simp add: tls_NewDialer_def tls_NewListener_def)
  show "sch = ''ipc'' \<Longrightarrow> ipc_NewDialer resolve addr = Inl ErrBadTran \<and> ipc_NewListener resolve addr = Inl ErrBadTran"
    using * by (simp add: ipc_NewDialer_def ipc_NewListener_def)
qed

text \<open>A TLS listener listens only with a configuration that has a certificate.\<close>

lemma tls_Listen_needs_cert:
  assumes "tls_Listen certs listen l = Ret (None, l')"
  shows "\<exists>c. tl_opts l OptionTLSConfig = Some (VTLS (Some c)) \<and> 0 < certs c \<and>
    tl_config l' = Some c \<and> tl_listening l' \<and> (\<exists>b. listen (tl_addr l) = Inr b \<and> tl_bound l' = Some b)"
  using assms
  by (auto simp: tls_Listen_def Let_def split: option.splits goval.splits sum.splits if_splits)

text \<open>
  Accepting on a TCP listener whose descriptor is closed yields the operating system's
  error, so the accept loop of the core goes round again and again.
\<close>

lemma serve_after_close:
  assumes "tl_listening l" "e \<noteq> ErrClosed" "\<not> closeq s"
  shows "tcp_Accept (Inl e) set1 set2 set3 proto la ra l s = Ret (Inl e) \<and>
    listener_serve proto n (Inl e) s = Ret (Loop, s)"
  using assms by (simp add: tcp_Accept_def listener_serve_def)

end
