(* ===== verification/Ipc_Windows.thy ===== *)
theory Ipc_Windows
  imports Tran_Net
begin

text \<open>
  connipc_windows.go and transport/ipc/ipc_windows.go: the framing and the transport over
  Windows named pipes, the counterparts of connipc_posix.go and ipc_unix.go. The package
  go-winio appears as the arguments \<open>connect\<close> and \<open>listen\<close>.
\<close>

section \<open>Framing\<close>

text \<open>The whole frame goes out in one write.\<close>

definition connipc_win_Send :: "mref \<Rightarrow> conn \<Rightarrow> 'a heap_scheme \<Rightarrow> err option \<times> conn \<times> 'a heap_scheme" where
  "connipc_win_Send m k s =
     (let l = of_nat (length (hdr_bytes (msgs s m)) + length (body (msgs s m)));
          buf = (1 # be64 l) @ hdr_bytes (msgs s m) @ body (msgs s m)
      in case Write buf k of
           (Some e, k1) \<Rightarrow> (Some e, k1, s)
         | (None, k1) \<Rightarrow> (None, k1, Free m s))"

definition connipc_win_Recv :: "mref \<Rightarrow> conn \<Rightarrow> 'a heap_scheme \<Rightarrow> ((err + mref) \<times> conn \<times> 'a heap_scheme) run" where
  "connipc_win_Recv pick k s =
     (case Read1 k of
        (Inl e, k1) \<Rightarrow> Ret (Inl e, k1, s)
      | (Inr one, k1) \<Rightarrow> recv_sized pick k1 s)"

definition win_NewConnPipe ::
  "'a socket_scheme protocol_ops \<Rightarrow> goval list \<Rightarrow> goval \<Rightarrow> goval \<Rightarrow> conn \<Rightarrow> 'a socket_scheme \<Rightarrow> (err + conn) run" where
  "win_NewConnPipe = NewConnPipe"

section \<open>The transport\<close>

definition OptionSecurityDescriptor :: string where
  [option_name]: "OptionSecurityDescriptor = ''WIN-IPC-SECURITY-DESCRIPTOR''"
definition OptionInputBufferSize :: string where
  [option_name]: "OptionInputBufferSize = ''WIN-IPC-INPUT-BUFFER-SIZE''"
definition OptionOutputBufferSize :: string where
  [option_name]: "OptionOutputBufferSize = ''WIN-IPC-OUTPUT-BUFFER-SIZE''"

text \<open>The fields of \<^verbatim>\<open>winio.PipeConfig\<close> that the code sets.\<close>

record pipe_config =
  cf_in :: int
  cf_out :: int
  cf_sd :: string
  cf_message :: bool

record win_dialer =
  wnd_path :: string

record win_listener =
  wnl_path :: string
  wnl_listening :: bool
  wnl_config :: pipe_config

definition pipe_path :: "string \<Rightarrow> string" where
  "pipe_path p = CHR 0x5C # CHR 0x5C # CHR ''.'' # CHR 0x5C # ''pipe'' @ CHR 0x5C # p"

text \<open>The address of both ends is the path, a value of the code's own type \<^verbatim>\<open>pipeAddr\<close>.\<close>

definition win_props :: "goval \<Rightarrow> goval list" where
  "win_props a = [VStr ''LOCAL-ADDR'', a, VStr ''REMOTE-ADDR'', a]"

definition win_Dial ::
  "(string \<Rightarrow> err + conn) \<Rightarrow> (string \<Rightarrow> goval) \<Rightarrow> 'b socket_scheme protocol_ops \<Rightarrow> goval \<Rightarrow> goval \<Rightarrow> win_dialer \<Rightarrow>
   'b socket_scheme \<Rightarrow> (err + conn) run" where
  "win_Dial connect pa proto la ra d s =
     (case connect (pipe_path (wnd_path d)) of
        Inl e \<Rightarrow> Ret (Inl e)
      | Inr c \<Rightarrow> win_NewConnPipe proto (win_props (pa (wnd_path d))) la ra c s)"

definition win_dialer_SetOption :: "string \<Rightarrow> goval \<Rightarrow> win_dialer \<Rightarrow> err option \<times> win_dialer" where
  "win_dialer_SetOption n v d = (Some ErrBadOption, d)"

definition win_dialer_GetOption :: "string \<Rightarrow> win_dialer \<Rightarrow> err + goval" where
  "win_dialer_GetOption n d = Inl ErrBadOption"

definition win_Listen :: "(string \<Rightarrow> pipe_config \<Rightarrow> err option) \<Rightarrow> win_listener \<Rightarrow> err option \<times> win_listener" where
  "win_Listen listen l =
     (case listen (pipe_path (wnl_path l)) (wnl_config l) of
        Some e \<Rightarrow> (Some e, l)
      | None \<Rightarrow> (None, l\<lparr>wnl_listening := True\<rparr>))"

definition win_Address :: "win_listener \<Rightarrow> string" where
  "win_Address l = ''ipc://'' @ wnl_path l"

definition win_Accept ::
  "err + conn \<Rightarrow> (string \<Rightarrow> goval) \<Rightarrow> 'b socket_scheme protocol_ops \<Rightarrow> goval \<Rightarrow> goval \<Rightarrow> win_listener \<Rightarrow>
   'b socket_scheme \<Rightarrow> (err + conn) run" where
  "win_Accept acc pa proto la ra l s =
     (case acc of
        Inl e \<Rightarrow> Ret (Inl e)
      | Inr c \<Rightarrow> win_NewConnPipe proto (win_props (pa (wnl_path l))) la ra c s)"

definition win_SetOption :: "string \<Rightarrow> goval \<Rightarrow> win_listener \<Rightarrow> err option \<times> win_listener" where
  "win_SetOption name val l =
     (if name = OptionInputBufferSize then
        (case val of VInt32 v \<Rightarrow> (None, l\<lparr>wnl_config := (wnl_config l)\<lparr>cf_in := v\<rparr>\<rparr>) | _ \<Rightarrow> (Some ErrBadValue, l))
      else if name = OptionOutputBufferSize then
        (case val of VInt32 v \<Rightarrow> (None, l\<lparr>wnl_config := (wnl_config l)\<lparr>cf_out := v\<rparr>\<rparr>) | _ \<Rightarrow> (Some ErrBadValue, l))
      else if name = OptionSecurityDescriptor then
        (case val of VStr v \<Rightarrow> (None, l\<lparr>wnl_config := (wnl_config l)\<lparr>cf_sd := v\<rparr>\<rparr>) | _ \<Rightarrow> (Some ErrBadValue, l))
      else (Some ErrBadOption, l))"

definition win_GetOption :: "win_listener \<Rightarrow> string \<Rightarrow> err + goval" where
  "win_GetOption l name =
     (if name = OptionInputBufferSize then Inr (VInt32 (cf_in (wnl_config l)))
      else if name = OptionOutputBufferSize then Inr (VInt32 (cf_out (wnl_config l)))
      else if name = OptionSecurityDescriptor then Inr (VStr (cf_sd (wnl_config l)))
      else Inl ErrBadOption)"

definition win_NewDialer :: "string \<Rightarrow> err + win_dialer" where
  "win_NewDialer addr =
     (case StripScheme ''ipc'' addr of (Some e, _) \<Rightarrow> Inl e | (None, a) \<Rightarrow> Inr \<lparr>wnd_path = a\<rparr>)"

definition win_NewListener :: "string \<Rightarrow> err + win_listener" where
  "win_NewListener addr =
     (let cfg = \<lparr>cf_in = 4096, cf_out = 4096, cf_sd = '''', cf_message = False\<rparr>
      in case StripScheme ''ipc'' addr of
           (Some e, _) \<Rightarrow> Inl e
         | (None, a) \<Rightarrow> Inr \<lparr>wnl_path = a, wnl_listening = False, wnl_config = cfg\<rparr>)"

section \<open>Facts\<close>

definition win_wt :: "string \<Rightarrow> goval \<Rightarrow> bool" where
  "win_wt n v \<longleftrightarrow> (n \<in> {OptionInputBufferSize, OptionOutputBufferSize} \<longrightarrow> (\<exists>i. v = VInt32 i)) \<and>
     (n = OptionSecurityDescriptor \<longrightarrow> (\<exists>t. v = VStr t))"

lemma win_names [simp]:
  "OptionInputBufferSize \<noteq> OptionOutputBufferSize" "OptionOutputBufferSize \<noteq> OptionInputBufferSize"
  "OptionInputBufferSize \<noteq> OptionSecurityDescriptor" "OptionSecurityDescriptor \<noteq> OptionInputBufferSize"
  "OptionOutputBufferSize \<noteq> OptionSecurityDescriptor" "OptionSecurityDescriptor \<noteq> OptionOutputBufferSize"
  by (simp_all add: option_name)

lemma win_SetOption_cases:
  "win_SetOption n v l =
    (if n \<in> {OptionInputBufferSize, OptionOutputBufferSize, OptionSecurityDescriptor} \<and> win_wt n v
     then (None, l\<lparr>wnl_config :=
       (case v of
          VInt32 i \<Rightarrow> if n = OptionInputBufferSize then (wnl_config l)\<lparr>cf_in := i\<rparr> else (wnl_config l)\<lparr>cf_out := i\<rparr>
        | VStr t \<Rightarrow> (wnl_config l)\<lparr>cf_sd := t\<rparr>
        | _ \<Rightarrow> wnl_config l)\<rparr>)
     else (Some (if n \<in> {OptionInputBufferSize, OptionOutputBufferSize, OptionSecurityDescriptor}
                 then ErrBadValue else ErrBadOption), l))"
  by (cases v) (auto simp: win_SetOption_def win_wt_def)

interpretation win_opts: opts_impl win_GetOption win_SetOption win_wt
proof unfold_locales
  fix n v and t t' :: win_listener
  assume a: "win_SetOption n v t = (None, t')"
  then show "win_GetOption t' n = Inr v \<and> win_wt n v"
    by (cases v) (auto simp: win_SetOption_cases win_GetOption_def win_wt_def split: if_splits)
  fix m :: string
  assume "m \<noteq> n"
  with a show "win_GetOption t' m = win_GetOption t m"
    by (cases v) (auto simp: win_SetOption_cases win_GetOption_def win_wt_def split: if_splits)
next
  fix n v e and t t' :: win_listener
  assume "win_SetOption n v t = (Some e, t')"
  then show "t' = t \<and> (e = ErrBadOption \<or> e = ErrBadValue)"
    by (auto simp: win_SetOption_cases split: if_splits)
next
  fix t n e
  assume "win_GetOption t n = Inl e"
  then show "e = ErrBadOption" by (auto simp: win_GetOption_def split: if_splits)
qed

text \<open>The bytes on the pipe are those of the other systems; only a failing write differs.\<close>

lemma connipc_win_Send_same:
  assumes "k_werr k = None"
  shows "connipc_win_Send m k s = connipc_Send m k s"
  using assms by (simp add: connipc_win_Send_def connipc_Send_def Write_ok Let_def)

text \<open>A write that fails leaves a prefix of the frame on the pipe, on either system.\<close>

lemma connipc_win_Send_prefix:
  assumes "connipc_win_Send m k s = (e, k1, s1)"
  shows "\<exists>n. k_out k1 = k_out k @ take n (1 # frame (hdr_bytes (msgs s m) @ body (msgs s m)))"
proof -
  let ?f = "1 # frame (hdr_bytes (msgs s m) @ body (msgs s m))"
  have "\<exists>n. k_out (snd (Write ?f k)) = k_out k @ take n ?f"
  proof (cases "k_werr k")
    case None
    then show ?thesis by (intro exI [of _ "length ?f"]) (simp add: Write_def)
  next
    case (Some x)
    obtain n e where x: "x = (n, e)" by fastforce
    show ?thesis
    proof (cases "length ?f \<le> n")
      case True
      then show ?thesis using Some x by (intro exI [of _ "length ?f"]) (simp add: Write_def)
    next
      case False
      then show ?thesis using Some x by (intro exI [of _ n]) (simp add: Write_def)
    qed
  qed
  moreover have "k1 = snd (Write ?f k)"
    using assms by (auto simp: connipc_win_Send_def frame_def Let_def split: prod.splits option.splits)
  ultimately show ?thesis by simp
qed

end
