(* ===== verification/Macat_Format.thy ===== *)
theory Macat_Format
  imports Mangos_Prelude
begin

text \<open>
  \<^verbatim>\<open>printMsg\<close> of macat/macat.go: the formats in which macat writes a received message, and
  readers of the formats, with which the formats are shown to lose nothing.
\<close>

section \<open>The formats\<close>

text \<open>\<^verbatim>\<open>strconv.IsPrint\<close> on a rune made from one byte, that is up to U+00FF.\<close>

definition IsPrint :: "byte \<Rightarrow> bool" where
  "IsPrint b \<longleftrightarrow> (0x20 \<le> b \<and> b < 0x7F) \<or> (0xA1 \<le> b \<and> b \<noteq> 0xAD)"

definition fmt_ascii :: "bytes \<Rightarrow> bytes" where
  "fmt_ascii b = map (\<lambda>c. if IsPrint c then c else 0x2E) b @ [0x0A]"

text \<open>A digit of \<^verbatim>\<open>%02x\<close>\<close>

definition hexdigit :: "byte \<Rightarrow> byte" where
  "hexdigit n = (if n < 10 then 0x30 + n else 0x57 + n)"

definition quote_byte :: "byte \<Rightarrow> bytes" where
  "quote_byte c =
     (if c = 0x0A then [0x5C, 0x6E]
      else if c = 0x0D then [0x5C, 0x72]
      else if c = 0x5C then [0x5C, 0x5C]
      else if c = 0x22 then [0x5C, 0x22]
      else if IsPrint c then [c]
      else [0x5C, 0x78, hexdigit (drop_bit 4 c), hexdigit (c AND 15)])"

definition fmt_quoted :: "bytes \<Rightarrow> bytes" where
  "fmt_quoted b = concat (map quote_byte b) @ [0x0A]"

definition msgpack_head :: "nat \<Rightarrow> bytes" where
  "msgpack_head n =
     (if n < 256 then [0xC4, of_nat n]
      else if n < 65536 then 0xC5 # be16 (of_nat n)
      else 0xC6 # be32 (of_nat n))"

definition fmt_msgpack :: "bytes \<Rightarrow> bytes" where
  "fmt_msgpack b = msgpack_head (length b) @ b"

text \<open>What is written for a message with this body; any other format writes nothing.\<close>

definition printMsg :: "string \<Rightarrow> bytes \<Rightarrow> bytes" where
  "printMsg fmt b =
     (if fmt = ''no'' then []
      else if fmt = ''raw'' then b
      else if fmt = ''ascii'' then fmt_ascii b
      else if fmt = ''quoted'' then fmt_quoted b
      else if fmt = ''msgpack'' then fmt_msgpack b
      else [])"

section \<open>Readers\<close>

definition unhex :: "byte \<Rightarrow> byte" where
  "unhex d = (if d < 0x3A then d - 0x30 else d - 0x57)"

text \<open>Reads one quoted line and returns the message and what follows the line.\<close>

fun unquote :: "bytes \<Rightarrow> (bytes \<times> bytes) option" where
  "unquote [] = None"
| "unquote (b # r) =
     (if b = 0x0A then Some ([], r)
      else if b \<noteq> 0x5C then map_option (apfst ((#) b)) (unquote r)
      else case r of
             [] \<Rightarrow> None
           | c # r1 \<Rightarrow>
               if c = 0x78 then
                 (case r1 of
                    h # l # r3 \<Rightarrow> map_option (apfst ((#) (push_bit 4 (unhex h) OR unhex l))) (unquote r3)
                  | _ \<Rightarrow> None)
               else map_option (apfst ((#) (if c = 0x6E then 0x0A else if c = 0x72 then 0x0D else c))) (unquote r1))"

text \<open>Reads one MessagePack object of a binary type.\<close>

definition take_payload :: "nat \<Rightarrow> bytes \<Rightarrow> (bytes \<times> bytes) option" where
  "take_payload n r = (if n \<le> length r then Some (take n r, drop n r) else None)"

definition unpack :: "bytes \<Rightarrow> (bytes \<times> bytes) option" where
  "unpack b =
     (case b of
        [] \<Rightarrow> None
      | t # r \<Rightarrow>
          if t = 0xC4 then (case r of [] \<Rightarrow> None | n # p \<Rightarrow> take_payload (unat n) p)
          else if t = 0xC5 then Option.bind (be_Uint16 r) (\<lambda>n. take_payload (unat n) (drop 2 r))
          else if t = 0xC6 then Option.bind (be_Uint32 r) (\<lambda>n. take_payload (unat n) (drop 4 r))
          else None)"

text \<open>Reads all messages of a stream that one of the two readers can take apart.\<close>

fun read_all :: "(bytes \<Rightarrow> (bytes \<times> bytes) option) \<Rightarrow> nat \<Rightarrow> bytes \<Rightarrow> bytes list option" where
  "read_all rd 0 b = (if b = [] then Some [] else None)"
| "read_all rd (Suc n) b = Option.bind (rd b) (\<lambda>(m, r). map_option ((#) m) (read_all rd n r))"

section \<open>Facts\<close>

lemma nibble_cases:
  fixes n :: byte
  assumes "n < 16"
  shows "n \<in> {0, 1, 2, 3, 4, 5, 6, 7, 8, 9, 10, 11, 12, 13, 14, 15}"
proof -
  have "unat n < 16" using assms by (simp add: word_less_nat_alt)
  then have "unat n \<in> {0, 1, 2, 3, 4, 5, 6, 7, 8, 9, 10, 11, 12, 13, 14, 15}"
    by (simp only: insert_iff empty_iff) presburger
  then have "(word_of_nat (unat n) :: byte) \<in> word_of_nat ` {0, 1, 2, 3, 4, 5, 6, 7, 8, 9, 10, 11, 12, 13, 14, 15 :: nat}"
    by (rule imageI)
  moreover have "word_of_nat (unat n) = n" by simp
  ultimately have "n \<in> word_of_nat ` {0, 1, 2, 3, 4, 5, 6, 7, 8, 9, 10, 11, 12, 13, 14, 15 :: nat}"
    by (simp only:)
  then show ?thesis by (simp only: image_insert image_empty of_nat_numeral of_nat_0 of_nat_1
      semiring_1_class.of_nat_0)
qed

lemma unhex_hexdigit: "n < 16 \<Longrightarrow> unhex (hexdigit n) = n"
  using nibble_cases [of n] by (auto simp: unhex_def hexdigit_def)

lemma nibbles: "drop_bit 4 (c :: byte) < 16" "c AND 15 < 16" "push_bit 4 (drop_bit 4 c) OR (c AND 15) = c"
proof -
  show "drop_bit 4 c < 16"
    using unsigned_less [of c, where 'a = nat]
    by (simp add: word_less_nat_alt unat_drop_bit_eq) (simp add: drop_bit_eq_div)
  show "c AND 15 < 16" by (rule order.strict_trans1 [OF word_and_le1]) simp
  have m: "(15 :: byte) = mask 4" by (simp add: mask_eq_exp_minus_1)
  show "push_bit 4 (drop_bit 4 c) OR (c AND 15) = c"
    unfolding m by (intro bit_word_eqI) (auto simp: bit_simps)
qed

lemma quote_byte_not_Nil: "quote_byte c \<noteq> []"
  by (simp add: quote_byte_def)

lemma unquote_byte: "unquote (quote_byte c @ r) = map_option (apfst ((#) c)) (unquote r)"
  by (simp add: quote_byte_def unhex_hexdigit nibbles IsPrint_def)

lemma unquote_quoted: "unquote (fmt_quoted b @ r) = Some (b, r)"
proof -
  have "unquote (concat (map quote_byte b) @ 0x0A # r) = Some (b, r)"
    by (induction b) (simp_all add: unquote_byte)
  then show ?thesis by (simp add: fmt_quoted_def)
qed

lemma unpack_msgpack:
  assumes "length b < 2 ^ 32"
  shows "unpack (fmt_msgpack b @ r) = Some (b, r)"
proof -
  consider "length b < 256" | "256 \<le> length b" "length b < 65536" | "65536 \<le> length b" by linarith
  then show ?thesis
  proof cases
    case 1
    then show ?thesis
      by (simp add: fmt_msgpack_def msgpack_head_def unpack_def take_payload_def unat_of_nat)
  next
    case 2
    then show ?thesis
      by (simp add: fmt_msgpack_def msgpack_head_def unpack_def take_payload_def unat_of_nat)
  next
    case 3
    with assms show ?thesis
      by (simp add: fmt_msgpack_def msgpack_head_def unpack_def take_payload_def unat_of_nat)
  qed
qed

lemma read_all_written:
  assumes "\<And>m r. m \<in> set ms \<Longrightarrow> rd (wr m @ r) = Some (m, r)"
  shows "read_all rd (length ms) (concat (map wr ms)) = Some ms"
  using assms by (induction ms) simp_all

text \<open>A line of the ascii format is as long as the message and shows only printable bytes.\<close>

lemma fmt_ascii_line:
  "length (fmt_ascii b) = Suc (length b) \<and> (\<forall>c \<in> set (butlast (fmt_ascii b)). IsPrint c) \<and> last (fmt_ascii b) = 0x0A"
  by (auto simp: fmt_ascii_def IsPrint_def)

text \<open>A quoted line holds no line break but the one at its end.\<close>

lemma hexdigit_not_newline: "n < 16 \<Longrightarrow> hexdigit n \<noteq> 0x0A"
  using nibble_cases [of n] by (auto simp: hexdigit_def)

lemma fmt_quoted_line: "0x0A \<notin> set (butlast (fmt_quoted b))"
  by (auto simp: fmt_quoted_def quote_byte_def hexdigit_not_newline [OF nibbles(1)]
      hexdigit_not_newline [OF nibbles(2)] dest!: sym [of "0x0A"] split: if_splits)

end
