(* ===== verification/Ws.thy ===== *)
theory Ws
  imports Tran_Opts
begin

text \<open>
  transport/ws/ws.go and transport/wss/wss.go: the websocket transport. The websocket
  library (github.com/gorilla/websocket) is the record of operations \<open>ws_lib\<close> on
  connections of type \<open>'c\<close>; package net/http, package net/url and the network appear as
  the arguments that stand for their results.
\<close>

section \<open>The websocket library\<close>

text \<open>
  \<open>wl_limit\<close> is SetReadLimit, \<open>wl_tls\<close> the state of the TLS connection below (\<open>None\<close> when
  there is none), \<open>wl_sub\<close> the subprotocol that was agreed on.
\<close>

record 'c ws_lib =
  wl_read :: "'c \<Rightarrow> (err + bytes) \<times> 'c"
  wl_write :: "bytes \<Rightarrow> 'c \<Rightarrow> err option \<times> 'c"
  wl_close :: "'c \<Rightarrow> 'c"
  wl_limit :: "int \<Rightarrow> 'c \<Rightarrow> 'c"
  wl_local :: "'c \<Rightarrow> goval"
  wl_remote :: "'c \<Rightarrow> goval"
  wl_tls :: "'c \<Rightarrow> goval option"
  wl_sub :: "'c \<Rightarrow> string"

section \<open>Options\<close>

definition OptionWebSocketMux :: string where
  [option_name]: "OptionWebSocketMux = ''WEBSOCKET-MUX''"
definition OptionWebSocketHandler :: string where
  [option_name]: "OptionWebSocketHandler = ''WEBSOCKET-HANDLER''"
definition OptionWebSocketCheckOrigin :: string where
  [option_name]: "OptionWebSocketCheckOrigin = ''WEBSOCKET-CHECKORIGIN''"

definition ws_get :: "opts option \<Rightarrow> string \<Rightarrow> err + goval" where
  "ws_get po name =
     (case po of
        None \<Rightarrow> Inl ErrBadOption
      | Some ot \<Rightarrow> (case ot name of None \<Rightarrow> Inl ErrBadOption | Some v \<Rightarrow> Inr v))"

definition ws_set :: "string \<Rightarrow> goval \<Rightarrow> opts \<Rightarrow> err option \<times> opts" where
  "ws_set name val ot =
     (if name = OptionNoDelay \<or> name = OptionKeepAlive then
        (case val of VBool b \<Rightarrow> (None, ot(name \<mapsto> VBool b)) | _ \<Rightarrow> (Some ErrBadValue, ot))
      else if name = OptionTLSConfig then
        (case val of VTLS c \<Rightarrow> (None, ot(name \<mapsto> VTLS c)) | _ \<Rightarrow> (Some ErrBadValue, ot))
      else if name = OptionWebSocketCheckOrigin then
        (case val of VBool b \<Rightarrow> (None, ot(name \<mapsto> VBool b)) | _ \<Rightarrow> (Some ErrBadValue, ot))
      else (Some ErrBadOption, ot))"

section \<open>Pipes\<close>

text \<open>\<open>wp_wg\<close> is the wait group on which the HTTP handler of an accepted pipe waits.\<close>

record 'c wsPipe =
  wp_ws :: 'c
  wp_addr :: string
  wp_open :: bool
  wp_wg :: int
  wp_props :: "string \<rightharpoonup> goval"
  wp_iswss :: bool

definition ws_Recv ::
  "'c ws_lib \<Rightarrow> mref \<Rightarrow> 'c wsPipe \<Rightarrow> 'a heap_scheme \<Rightarrow> (err + mref) \<times> 'c wsPipe \<times> 'a heap_scheme" where
  "ws_Recv lib pick w s =
     (case wl_read lib (wp_ws w) of
        (Inl e, c) \<Rightarrow> (Inl e, w\<lparr>wp_ws := c\<rparr>, s)
      | (Inr b, c) \<Rightarrow>
          let (m, s1) = NewMessage pick 0 s
          in (Inr m, w\<lparr>wp_ws := c\<rparr>, set_body m b s1))"

definition ws_Send ::
  "'c ws_lib \<Rightarrow> inst \<Rightarrow> mref \<Rightarrow> 'c wsPipe \<Rightarrow> 'a heap_scheme \<Rightarrow> err option \<times> 'c wsPipe \<times> 'a heap_scheme" where
  "ws_Send lib now m w s =
     (if Expired now (msgs s m) then (None, w, Free m s)
      else
        let buf = (if 0 < length (hdr_bytes (msgs s m)) then hdr_bytes (msgs s m) @ body (msgs s m)
                   else body (msgs s m))
        in (case wl_write lib buf (wp_ws w) of
              (Some e, c) \<Rightarrow> (Some e, w\<lparr>wp_ws := c\<rparr>, s)
            | (None, c) \<Rightarrow> (None, w\<lparr>wp_ws := c\<rparr>, Free m s)))"

definition ws_LocalProtocol :: "'s protocol_ops \<Rightarrow> u16" where
  "ws_LocalProtocol proto = op_Number proto"

definition ws_RemoteProtocol :: "'s protocol_ops \<Rightarrow> u16" where
  "ws_RemoteProtocol proto = op_PeerNumber proto"

definition ws_IsOpen :: "'c wsPipe \<Rightarrow> bool" where
  "ws_IsOpen w = wp_open w"

definition ws_Close :: "'c ws_lib \<Rightarrow> 'c wsPipe \<Rightarrow> 'c wsPipe run" where
  "ws_Close lib w =
     (if ws_IsOpen w then
        let w1 = w\<lparr>wp_open := False, wp_ws := wl_close lib (wp_ws w), wp_wg := wp_wg w - 1\<rparr>
        in if wp_wg w1 < 0 then Panic else Ret w1
      else Ret w)"

definition ws_GetProp :: "string \<Rightarrow> 'c wsPipe \<Rightarrow> err + goval" where
  "ws_GetProp name w = (case wp_props w name of Some v \<Rightarrow> Inr v | None \<Rightarrow> Inl ErrBadProperty)"

definition ws_props :: "goval \<Rightarrow> goval \<Rightarrow> goval option \<Rightarrow> string \<rightharpoonup> goval" where
  "ws_props la ra tls =
     (let P = [''LOCAL-ADDR'' \<mapsto> la, ''REMOTE-ADDR'' \<mapsto> ra]
      in case tls of None \<Rightarrow> P | Some st \<Rightarrow> P(''TLS-STATE'' \<mapsto> st))"

definition subprotocol :: "string \<Rightarrow> string" where
  "subprotocol name = name @ ''.sp.nanomsg.org''"

section \<open>The dialer\<close>

record ws_dialer =
  wd_addr :: string
  wd_opts :: opts
  wd_iswss :: bool
  wd_maxrx :: int

text \<open>
  \<open>connect sub config addr\<close> is the library's Dial with the one subprotocol offered and the
  TLS configuration, if one was set.
\<close>

definition ws_Dial ::
  "'c ws_lib \<Rightarrow> (string \<Rightarrow> nat option \<Rightarrow> string \<Rightarrow> err + 'c) \<Rightarrow> 's protocol_ops \<Rightarrow> ws_dialer \<Rightarrow> (err + 'c wsPipe) run" where
  "ws_Dial lib connect proto d =
     run_bind (case wd_opts d OptionTLSConfig of
                 None \<Rightarrow> Ret None | Some (VTLS c) \<Rightarrow> Ret c | Some _ \<Rightarrow> Panic) (\<lambda>config.
       case connect (subprotocol (op_PeerName proto)) config (wd_addr d) of
         Inl e \<Rightarrow> Ret (Inl e)
       | Inr c \<Rightarrow>
           let c1 = wl_limit lib (wd_maxrx d) c
           in Ret (Inr \<lparr>wp_ws = c1, wp_addr = wd_addr d, wp_open = True, wp_wg = 1,
                wp_props = ws_props (wl_local lib c1) (wl_remote lib c1) (wl_tls lib c1), wp_iswss = False\<rparr>))"

definition ws_dialer_SetOption :: "string \<Rightarrow> goval \<Rightarrow> ws_dialer \<Rightarrow> err option \<times> ws_dialer" where
  "ws_dialer_SetOption n v d = (case ws_set n v (wd_opts d) of (e, ot) \<Rightarrow> (e, d\<lparr>wd_opts := ot\<rparr>))"

definition ws_dialer_GetOption :: "string \<Rightarrow> ws_dialer \<Rightarrow> err + goval" where
  "ws_dialer_GetOption n d = ws_get (Some (wd_opts d)) n"

section \<open>The listener\<close>

text \<open>
  \<open>wx_any_origin\<close>: the upgrader's \<^verbatim>\<open>CheckOrigin\<close> was replaced by one that accepts every
  origin. \<open>wx_host\<close> and \<open>wx_path\<close> are the parts of the URL the code reads and writes, \<open>wx_url\<close> its
  text for a path; \<open>wx_mux\<close> are the patterns registered with the mux; \<open>wx_bound\<close> says that
  the listener has a net.Listener, and whether it is a TLS one.
\<close>

record 'c ws_listener =
  wx_pending :: "'c wsPipe list"
  wx_running :: bool
  wx_noserve :: bool
  wx_any_origin :: bool
  wx_subs :: "string list"
  wx_url :: "string \<Rightarrow> string"
  wx_host :: string
  wx_path :: string
  wx_mux :: "string list"
  wx_bound :: "bool option"
  wx_opts :: opts
  wx_iswss :: bool
  wx_maxrx :: int

definition ws_SetOption :: "string \<Rightarrow> goval \<Rightarrow> 'c ws_listener \<Rightarrow> err option \<times> 'c ws_listener" where
  "ws_SetOption n v l =
     (let l1 = (if n = OptionWebSocketCheckOrigin
                then (case v of VBool b \<Rightarrow> if \<not> b then l\<lparr>wx_any_origin := True\<rparr> else l | _ \<Rightarrow> l)
                else l)
      in case ws_set n v (wx_opts l1) of (e, ot) \<Rightarrow> (e, l1\<lparr>wx_opts := ot\<rparr>))"

text \<open>
  The mux and the handler come back as the opaque values \<open>VOther 0\<close> and \<open>VOther 1\<close>. Reading
  the handler option changes the listener.
\<close>

definition ws_GetOption :: "string \<Rightarrow> 'c ws_listener \<Rightarrow> (err + goval) \<times> 'c ws_listener" where
  "ws_GetOption n l =
     (if n = OptionWebSocketMux then (Inr (VOther 0), l)
      else if n = OptionWebSocketHandler then (Inr (VOther 1), l\<lparr>wx_running := True, wx_noserve := True\<rparr>)
      else if n = OptionWebSocketCheckOrigin then
        (case ws_get (Some (wx_opts l)) n of
           Inr (VBool b) \<Rightarrow> (Inr (VBool b), l)
         | _ \<Rightarrow> (Inr (VBool True), l))
      else (ws_get (Some (wx_opts l)) n, l))"

text \<open>
  \<open>certs\<close> is the number of certificates of a configuration; a nil configuration in the table
  is a non-nil interface value and is dereferenced. \<open>resolve\<close> and \<open>listen\<close> are package net.
\<close>

definition ws_Listen ::
  "(nat \<Rightarrow> nat) \<Rightarrow> (string \<Rightarrow> err + 't) \<Rightarrow> ('t \<Rightarrow> err option) \<Rightarrow> 'c ws_listener \<Rightarrow>
   (err option \<times> 'c ws_listener) run" where
  "ws_Listen certs resolve listen l =
     (if wx_noserve l then Ret (None, l)
      else
        run_bind (if wx_iswss l
                  then (case wx_opts l OptionTLSConfig of
                          None \<Rightarrow> Ret (Some ErrTLSNoConfig)
                        | Some (VTLS None) \<Rightarrow> Panic
                        | Some (VTLS (Some c)) \<Rightarrow> Ret (if certs c = 0 then Some ErrTLSNoCert else None)
                        | Some _ \<Rightarrow> Panic)
                  else Ret None) (\<lambda>e.
          case e of
            Some x \<Rightarrow> Ret (Some x, l)
          | None \<Rightarrow>
             (case ResolveTCPAddr resolve (wx_host l) of
                Inl x \<Rightarrow> Ret (Some x, l)
              | Inr a \<Rightarrow>
                 (case listen a of
                    Some x \<Rightarrow> Ret (Some x, l)
                  | None \<Rightarrow> Ret (None, l\<lparr>wx_bound := Some (wx_iswss l), wx_pending := [], wx_running := True\<rparr>)))))"

text \<open>Accept waits while nothing is pending and takes the newest connection first.\<close>

definition ws_Accept :: "'c ws_listener \<Rightarrow> ((err + 'c wsPipe) \<times> 'c ws_listener) run" where
  "ws_Accept l =
     (if \<not> wx_running l then Ret (Inl ErrClosed, l)
      else if wx_pending l = [] then Block
      else Ret (Inr (last (wx_pending l)), l\<lparr>wx_pending := butlast (wx_pending l)\<rparr>))"

text \<open>
  \<open>handler\<close>, called by the HTTP server with an upgraded connection; \<open>tls\<close> is the TLS state
  of the request. \<open>Inl c\<close> is the connection it closed. The handler then waits for the pipe's
  wait group.
\<close>

definition ws_handler ::
  "'c ws_lib \<Rightarrow> 's protocol_ops \<Rightarrow> goval option \<Rightarrow> 'c \<Rightarrow> 'c ws_listener \<Rightarrow> ('c + 'c wsPipe) \<times> 'c ws_listener" where
  "ws_handler lib proto tls c l =
     (if \<not> wx_running l then (Inl (wl_close lib c), l)
      else if wl_sub lib c \<noteq> subprotocol (op_Name proto) then (Inl (wl_close lib c), l)
      else
        let c1 = wl_limit lib (wx_maxrx l) c;
            w = \<lparr>wp_ws = c1, wp_addr = [], wp_open = True, wp_wg = 1,
                 wp_props = ws_props (wl_local lib c1) (wl_remote lib c1) tls, wp_iswss = wx_iswss l\<rparr>
        in (Inr w, l\<lparr>wx_pending := wx_pending l @ [w]\<rparr>))"

text \<open>\<open>up\<close> is what the upgrader returned for the request.\<close>

definition ws_ServeHTTP ::
  "'c ws_lib \<Rightarrow> 's protocol_ops \<Rightarrow> goval option \<Rightarrow> err + 'c \<Rightarrow> 'c ws_listener \<Rightarrow> 'c ws_listener" where
  "ws_ServeHTTP lib proto tls up l =
     (case up of Inl e \<Rightarrow> l | Inr c \<Rightarrow> snd (ws_handler lib proto tls c l))"

definition ws_Handle :: "string \<Rightarrow> 'c ws_listener \<Rightarrow> 'c ws_listener" where
  "ws_Handle pattern l = l\<lparr>wx_mux := wx_mux l @ [pattern]\<rparr>"

fun ws_close_all :: "'c ws_lib \<Rightarrow> 'c wsPipe list \<Rightarrow> 'c wsPipe list run" where
  "ws_close_all lib [] = Ret []"
| "ws_close_all lib (w # ws) =
     run_bind (ws_Close lib w) (\<lambda>w1. run_bind (ws_close_all lib ws) (\<lambda>ws1. Ret (w1 # ws1)))"

text \<open>The second component of the result are the pipes that were pending, closed.\<close>

definition ws_Close_listener ::
  "'c ws_lib \<Rightarrow> 'c ws_listener \<Rightarrow> (err option \<times> 'c wsPipe list \<times> 'c ws_listener) run" where
  "ws_Close_listener lib l =
     (if \<not> wx_running l then Ret (Some ErrClosed, [], l)
      else run_bind (ws_close_all lib (wx_pending l)) (\<lambda>ws.
             Ret (None, ws, l\<lparr>wx_running := False, wx_pending := []\<rparr>)))"

definition ws_Address :: "'c ws_listener \<Rightarrow> string" where
  "ws_Address l = wx_url l (wx_path l)"

section \<open>The transport\<close>

definition max_rx :: "'a socket_scheme protocol_ops \<Rightarrow> 'a socket_scheme \<Rightarrow> int run" where
  "max_rx proto s =
     (case sock_GetOption proto OptionMaxRecvSize s of
        Inl e \<Rightarrow> Ret 0 | Inr (VInt n) \<Rightarrow> Ret n | Inr _ \<Rightarrow> Panic)"

definition is_wss :: "string \<Rightarrow> bool" where
  "is_wss addr \<longleftrightarrow> take 6 addr = ''wss://''"

definition ws_NewDialer ::
  "'a socket_scheme protocol_ops \<Rightarrow> string \<Rightarrow> 'a socket_scheme \<Rightarrow> ws_dialer run" where
  "ws_NewDialer proto addr s =
     run_bind (max_rx proto s) (\<lambda>n. Ret \<lparr>wd_addr = addr,
       wd_opts = [OptionNoDelay \<mapsto> VBool True, OptionKeepAlive \<mapsto> VBool True],
       wd_iswss = is_wss addr, wd_maxrx = n\<rparr>)"

text \<open>\<open>parse\<close> is \<^verbatim>\<open>url.ParseRequestURI\<close>: the URL's text as a function of the path, its host and its path.\<close>

definition ws_new_listener ::
  "(string \<Rightarrow> err + (string \<Rightarrow> string) \<times> string \<times> string) \<Rightarrow> 's protocol_ops \<Rightarrow> string \<Rightarrow> err + 'c ws_listener" where
  "ws_new_listener parse proto addr =
     (case parse addr of
        Inl e \<Rightarrow> Inl e
      | Inr (u, h, p) \<Rightarrow> Inr \<lparr>wx_pending = [], wx_running = False, wx_noserve = False, wx_any_origin = False,
          wx_subs = [subprotocol (op_Name proto)],
          wx_url = u, wx_host = h, wx_path = (if length p = 0 then ''/'' else p), wx_mux = [], wx_bound = None,
          wx_opts = Map.empty, wx_iswss = is_wss addr, wx_maxrx = 0\<rparr>)"

definition ws_NewListener ::
  "(string \<Rightarrow> err + (string \<Rightarrow> string) \<times> string \<times> string) \<Rightarrow> 'a socket_scheme protocol_ops \<Rightarrow> string \<Rightarrow> 'a socket_scheme \<Rightarrow>
   (err + 'c ws_listener) run" where
  "ws_NewListener parse proto addr s =
     (case ws_new_listener parse proto addr of
        Inl e \<Rightarrow> Ret (Inl e)
      | Inr l \<Rightarrow>
          run_bind (case sock_GetOption proto OptionMaxRecvSize s of
                      Inl e \<Rightarrow> Ret l | Inr (VInt n) \<Rightarrow> Ret (l\<lparr>wx_maxrx := n\<rparr>) | Inr _ \<Rightarrow> Panic) (\<lambda>l1.
            Ret (Inr (ws_Handle (wx_path l1) l1))))"

section \<open>Facts\<close>

definition ws_wt :: "string \<Rightarrow> goval \<Rightarrow> bool" where
  "ws_wt n v \<longleftrightarrow>
     (n \<in> {OptionNoDelay, OptionKeepAlive, OptionWebSocketCheckOrigin} \<longrightarrow> (\<exists>b. v = VBool b)) \<and>
     (n = OptionTLSConfig \<longrightarrow> (\<exists>c. v = VTLS c))"

interpretation ws_opts: opts_impl "\<lambda>t. ws_get (Some t)" ws_set ws_wt
  by unfold_locales
     (auto simp: ws_get_def ws_set_def ws_wt_def option_name split: goval.splits if_splits option.splits)

interpretation ws_dialer: opts_holder "\<lambda>t. ws_get (Some t)" ws_set ws_wt wd_opts "\<lambda>t d. d\<lparr>wd_opts := t\<rparr>"
    "\<lambda>d n. ws_dialer_GetOption n d" ws_dialer_SetOption
  by unfold_locales (simp_all add: ws_dialer_GetOption_def ws_dialer_SetOption_def)

text \<open>The assertion on the TLS configuration in Dial holds, whatever was set or tried before.\<close>

lemma ws_Dial_config:
  assumes "ws_NewDialer proto addr s = Ret d"
  shows "ws_Dial lib connect proto (fold (\<lambda>(n, v) d. snd (ws_dialer_SetOption n v d)) xs d) \<noteq> Panic"
proof -
  let ?d = "fold (\<lambda>(n, v) d. snd (ws_dialer_SetOption n v d)) xs d"
  have "wd_opts d = [OptionNoDelay \<mapsto> VBool True, OptionKeepAlive \<mapsto> VBool True]"
    using assms by (auto simp: ws_NewDialer_def run_bind_Ret_iff)
  then have new: "ws_get (Some (wd_opts d)) n = Inr v \<Longrightarrow> ws_wt n v" for n v
    by (auto simp: ws_get_def ws_wt_def option_name split: if_splits)
  have "wd_opts ?d OptionTLSConfig = Some v \<Longrightarrow> \<exists>c. v = VTLS c" for v
    using ws_opts.fold_wt [of "wd_opts d" xs OptionTLSConfig v, OF new]
    unfolding ws_dialer.fold_field by (simp add: ws_get_def ws_wt_def)
  then show ?thesis
    by (cases "wd_opts ?d OptionTLSConfig") (auto simp: ws_Dial_def Let_def split: sum.splits)
qed

text \<open>Turning the origin check off is for good, although the option reads back as on.\<close>

lemma ws_origin_stays_open:
  assumes "wx_any_origin l"
  shows "wx_any_origin (snd (ws_SetOption n v l))"
    and "fst (ws_GetOption OptionWebSocketCheckOrigin (snd (ws_SetOption OptionWebSocketCheckOrigin (VBool True) l)))
      = Inr (VBool True)"
  using assms
  by (auto simp: ws_SetOption_def ws_GetOption_def ws_set_def ws_get_def option_name
      split: goval.splits prod.splits)

lemma ws_handler_accepts:
  "wx_running l \<Longrightarrow> wl_sub lib c = subprotocol (op_Name proto) \<Longrightarrow>
   \<exists>w. ws_handler lib proto tls c l = (Inr w, l\<lparr>wx_pending := wx_pending l @ [w]\<rparr>) \<and> wp_open w \<and> wp_wg w = 1"
  by (simp add: ws_handler_def Let_def)

text \<open>What a pipe carries: the peer's transport delivers the bytes that were written.\<close>

lemma ws_Send_Recv:
  assumes "\<not> Expired now (msgs s m)"
    and "wl_write lib (hdr_bytes (msgs s m) @ body (msgs s m)) (wp_ws w) = (None, c)"
    and "wl_read lib' (wp_ws w') = (Inr (hdr_bytes (msgs s m) @ body (msgs s m)), c')"
  shows "\<exists>n t. ws_Send lib now m w s = (None, w\<lparr>wp_ws := c\<rparr>, Free m s) \<and>
    ws_Recv lib' pick w' u = (Inr n, w'\<lparr>wp_ws := c'\<rparr>, t) \<and>
    body (msgs t n) = hdr_bytes (msgs s m) @ body (msgs s m) \<and> hdr (msgs t n) = Some []"
proof -
  obtain n u1 where nm: "NewMessage pick 0 u = (n, u1)" by fastforce
  have "ws_Send lib now m w s = (None, w\<lparr>wp_ws := c\<rparr>, Free m s)"
    using assms(1,2) by (cases "hdr_bytes (msgs s m)") (simp_all add: ws_Send_def)
  with assms(3) nm NewMessage_fields [OF nm] show ?thesis
    by (simp add: ws_Recv_def set_body_def upd_msg_def)
qed

section \<open>The life of a listener\<close>

text \<open>The calls on a listener, by the application, the core and the HTTP server.\<close>

datatype 'c ws_event =
    WsServe "goval option" 'c | WsAccept | WsClose | WsSet string goval | WsGet string
  | WsListen "err option"

fun ws_step :: "'c ws_lib \<Rightarrow> 's protocol_ops \<Rightarrow> 'c ws_event \<Rightarrow> 'c ws_listener \<Rightarrow> 'c ws_listener run" where
  "ws_step lib proto (WsServe tls c) l = Ret (snd (ws_handler lib proto tls c l))"
| "ws_step lib proto WsAccept l = run_bind (ws_Accept l) (\<lambda>(r, l1). Ret l1)"
| "ws_step lib proto WsClose l = run_bind (ws_Close_listener lib l) (\<lambda>(e, ws, l1). Ret l1)"
| "ws_step lib proto (WsSet n v) l = Ret (snd (ws_SetOption n v l))"
| "ws_step lib proto (WsGet n) l = Ret (snd (ws_GetOption n l))"
| "ws_step lib proto (WsListen r) l =
     run_bind (ws_Listen (\<lambda>_. 1) Inr (\<lambda>_. r) l) (\<lambda>(e, l1). Ret l1)"

text \<open>
  Pending pipes are open and the handler of each waits for it; a listener that is not
  running has none; and a TLS configuration, if there is one, is not nil.
\<close>

definition ws_ok :: "'c ws_listener \<Rightarrow> bool" where
  "ws_ok l \<longleftrightarrow> (\<forall>w \<in> set (wx_pending l). wp_open w \<and> wp_wg w = 1) \<and> (\<not> wx_running l \<longrightarrow> wx_pending l = [])"

lemma ws_close_all_ok:
  "\<forall>w \<in> set ws. wp_open w \<and> wp_wg w = 1 \<Longrightarrow>
   \<exists>ws1. ws_close_all lib ws = Ret ws1 \<and> length ws1 = length ws \<and> (\<forall>w \<in> set ws1. \<not> wp_open w \<and> wp_wg w = 0)"
  by (induction ws) (auto simp: ws_Close_def ws_IsOpen_def)

lemma ws_handler_ok: "ws_ok l \<Longrightarrow> ws_ok (snd (ws_handler lib proto tls c l))"
  by (auto simp: ws_handler_def ws_ok_def Let_def)

lemma ws_Accept_ok:
  assumes "ws_ok l"
  shows "run_keeps (\<lambda>(r, l1). ws_ok l1 \<and> (case r of Inl e \<Rightarrow> e = ErrClosed \<and> \<not> wx_running l | Inr w \<Rightarrow> wp_open w \<and> wp_wg w = 1))
    (ws_Accept l)"
proof (cases "wx_running l \<and> wx_pending l \<noteq> []")
  case True
  then have "last (wx_pending l) \<in> set (wx_pending l)" by simp
  with True assms show ?thesis by (auto simp: ws_Accept_def ws_ok_def dest: in_set_butlastD)
next
  case False
  with assms show ?thesis by (auto simp: ws_Accept_def)
qed

lemma ws_Close_listener_ok:
  assumes "ws_ok l"
  shows "run_keeps (\<lambda>(e, ws, l1). ws_ok l1 \<and> \<not> wx_running l1 \<and> wx_pending l1 = [] \<and> length ws = length (wx_pending l) \<and>
    (\<forall>w \<in> set ws. \<not> wp_open w \<and> wp_wg w = 0)) (ws_Close_listener lib l)"
proof (cases "wx_running l")
  case True
  with ws_close_all_ok [of "wx_pending l" lib] assms show ?thesis
    by (auto simp: ws_Close_listener_def ws_ok_def)
next
  case False
  with assms show ?thesis by (simp add: ws_Close_listener_def ws_ok_def)
qed

lemma ws_options_ok: "ws_ok l \<Longrightarrow> ws_ok (snd (ws_SetOption n v l)) \<and> ws_ok (snd (ws_GetOption n l))"
  by (auto simp: ws_SetOption_def ws_GetOption_def ws_ok_def Let_def split: prod.split goval.split sum.split)

lemma ws_Listen_ok:
  assumes "ws_ok l" "\<not> wx_iswss l"
  shows "run_keeps (\<lambda>(e, l1). ws_ok l1 \<and> \<not> wx_iswss l1) (ws_Listen certs resolve listen l)"
  using assms by (auto simp: ws_Listen_def ws_ok_def split: sum.split option.split)

lemma ws_step_ok:
  assumes "ws_ok l \<and> \<not> wx_iswss l"
  shows "run_keeps (\<lambda>l. ws_ok l \<and> \<not> wx_iswss l) (ws_step lib proto e l)"
proof (cases e)
  case (WsServe tls c)
  with assms ws_handler_ok [of l lib proto tls c] show ?thesis
    by (simp add: ws_handler_def Let_def)
next
  case WsAccept
  with assms ws_Accept_ok [of l] show ?thesis
    by (auto simp: ws_Accept_def)
next
  case WsClose
  with assms ws_Close_listener_ok [of l lib] show ?thesis
    by (cases "ws_close_all lib (wx_pending l)") (auto simp: ws_Close_listener_def)
next
  case (WsSet n v)
  with assms ws_options_ok [of l n v] show ?thesis
    by (auto simp: ws_SetOption_def Let_def split: prod.split goval.split)
next
  case (WsGet n)
  with assms ws_options_ok [of l n] show ?thesis
    by (auto simp: ws_GetOption_def split: goval.split sum.split)
next
  case (WsListen r)
  from ws_Listen_ok [of l "\<lambda>_. 1" Inr "\<lambda>_. r"] assms
  have "run_keeps (\<lambda>(e, l1). ws_ok l1 \<and> \<not> wx_iswss l1) (ws_Listen (\<lambda>_. 1) Inr (\<lambda>_. r) l)" by blast
  then show ?thesis unfolding WsListen ws_step.simps by (rule run_keeps_bind) auto
qed

lemma ws_new_listener_ok:
  "ws_new_listener parse proto addr = Inr l \<Longrightarrow> ws_ok l \<and> wx_iswss l = is_wss addr"
  by (auto simp: ws_new_listener_def ws_ok_def split: sum.splits)

text \<open>
  A secure listener whose configuration was set to nil does not report
  \<^verbatim>\<open>ErrTLSNoConfig\<close>: the nil pointer in the table is not a nil interface.
\<close>

lemma ws_Listen_nil_config:
  assumes "wx_iswss l" "\<not> wx_noserve l"
  shows "ws_Listen certs resolve listen (snd (ws_SetOption OptionTLSConfig (VTLS None) l)) = Panic"
  using assms by (simp add: ws_Listen_def ws_SetOption_def ws_set_def option_name)

end
