(* ===== verification/Macat.thy ===== *)
theory Macat
  imports Macat_Format Sub Ws
begin

text \<open>
  The command macat/macat.go: its options, what \<^verbatim>\<open>main\<close> does with them before the first
  message, and its loops. Its state is the program's variables; \<open>'s\<close> is the type of the
  socket. The package that takes the command line apart calls one function for each option;
  files and certificates are what reading them returned.
\<close>

section \<open>State\<close>

text \<open>
  \<open>mc_tls_min\<close> and \<open>mc_tls_max\<close> are the versions in the TLS configuration, \<open>mc_certs\<close> the number
  of its certificates, \<open>mc_roots\<close> that it has root certificates, \<open>mc_clientauth\<close> that it requires
  client certificates, \<open>mc_skip\<close> its \<^verbatim>\<open>InsecureSkipVerify\<close>.
\<close>

record 's macat =
  mc_verbose :: int
  mc_sock :: "'s option"
  mc_dial :: "string list"
  mc_listen :: "string list"
  mc_subs :: "string list"
  mc_rto :: int
  mc_sto :: int
  mc_interval :: int
  mc_delay :: int
  mc_data :: "bytes option"
  mc_format :: string
  mc_tls_min :: u16
  mc_tls_max :: u16
  mc_certs :: nat
  mc_roots :: bool
  mc_clientauth :: bool
  mc_skip :: bool
  mc_cert :: string
  mc_key :: string
  mc_ca :: string
  mc_noverify :: bool

definition mc_init :: "'s macat" where
  "mc_init = \<lparr>mc_verbose = 0, mc_sock = None, mc_dial = [], mc_listen = [], mc_subs = [], mc_rto = -1, mc_sto = -1,
     mc_interval = -1, mc_delay = 0, mc_data = None, mc_format = [], mc_tls_min = 0, mc_tls_max = 0, mc_certs = 0,
     mc_roots = False, mc_clientauth = False, mc_skip = False, mc_cert = [], mc_key = [], mc_ca = [],
     mc_noverify = False\<rparr>"

section \<open>Options\<close>

text \<open>An error is its message. \<open>f\<close> is what the protocol's NewSocket returned.\<close>

definition setSocket :: "('s \<Rightarrow> 's) \<Rightarrow> string + 's \<Rightarrow> 's macat \<Rightarrow> string option \<times> 's macat" where
  "setSocket addt f mc =
     (if mc_sock mc \<noteq> None then (Some ''protocol already selected'', mc)
      else case f of
             Inl e \<Rightarrow> (Some e, mc\<lparr>mc_sock := None\<rparr>)
           | Inr s \<Rightarrow> (None, mc\<lparr>mc_sock := Some (addt s)\<rparr>))"

fun contains :: "string \<Rightarrow> string \<Rightarrow> bool" where
  "contains sub [] \<longleftrightarrow> sub = []"
| "contains sub (c # cs) \<longleftrightarrow> take (length sub) (c # cs) = sub \<or> contains sub cs"

definition addDial :: "string \<Rightarrow> 's macat \<Rightarrow> string option \<times> 's macat" where
  "addDial addr mc =
     (if \<not> contains ''://'' addr then (Some ''invalid address format'', mc)
      else (None, mc\<lparr>mc_dial := mc_dial mc @ [addr]\<rparr>))"

definition addListen :: "string \<Rightarrow> 's macat \<Rightarrow> string option \<times> 's macat" where
  "addListen addr mc =
     (if \<not> contains ''://'' addr then (Some ''invalid address format'', mc)
      else (None, mc\<lparr>mc_listen := mc_listen mc @ [addr]\<rparr>))"

definition addListenIPC :: "string \<Rightarrow> 's macat \<Rightarrow> string option \<times> 's macat" where
  "addListenIPC path = addListen (''ipc://'' @ path)"

definition addDialIPC :: "string \<Rightarrow> 's macat \<Rightarrow> string option \<times> 's macat" where
  "addDialIPC path = addDial (''ipc://'' @ path)"

definition addListenLocal :: "string \<Rightarrow> 's macat \<Rightarrow> string option \<times> 's macat" where
  "addListenLocal pt = addListen (''tcp://127.0.0.1:'' @ pt)"

definition addDialLocal :: "string \<Rightarrow> 's macat \<Rightarrow> string option \<times> 's macat" where
  "addDialLocal pt = addDial (''tcp://127.0.0.1:'' @ pt)"

definition addSub :: "string \<Rightarrow> 's macat \<Rightarrow> string option \<times> 's macat" where
  "addSub sub mc = (None, mc\<lparr>mc_subs := mc_subs mc @ [sub]\<rparr>)"

definition setSendData :: "string \<Rightarrow> 's macat \<Rightarrow> string option \<times> 's macat" where
  "setSendData data mc =
     (if mc_data mc \<noteq> None then (Some ''data or file already set'', mc)
      else (None, mc\<lparr>mc_data := Some (string_bytes data)\<rparr>))"

text \<open>\<open>file\<close> is what opening the file returned, and then the bytes and the error of reading it.\<close>

definition setSendFile :: "string + bytes \<times> string option \<Rightarrow> 's macat \<Rightarrow> string option \<times> 's macat" where
  "setSendFile file mc =
     (if mc_data mc \<noteq> None then (Some ''data or file already set'', mc)
      else case file of
             Inl e \<Rightarrow> (Some e, mc)
           | Inr (b, e) \<Rightarrow> (e, mc\<lparr>mc_data := Some b\<rparr>))"

definition mc_formats :: "string list" where
  "mc_formats = [''no'', ''raw'', ''ascii'', ''quoted'', ''msgpack'']"

definition setFormat :: "string \<Rightarrow> 's macat \<Rightarrow> string option \<times> 's macat" where
  "setFormat f mc =
     (if length (mc_format mc) > 0 then (Some ''output format already set'', mc)
      else if f \<notin> set mc_formats then (Some ''invalid format type'', mc)
      else (None, mc\<lparr>mc_format := f\<rparr>))"

definition setTLSVer :: "u16 \<Rightarrow> u16 \<Rightarrow> 's macat \<Rightarrow> string option \<times> 's macat" where
  "setTLSVer vmin vmax mc =
     (if mc_tls_min mc \<noteq> 0 \<or> mc_tls_max mc \<noteq> 0 then (Some ''TLS/SSL version already set'', mc)
      else (None, mc\<lparr>mc_tls_min := vmin, mc_tls_max := vmax\<rparr>))"

definition setCert :: "string \<Rightarrow> 's macat \<Rightarrow> string option \<times> 's macat" where
  "setCert path mc =
     (if length (mc_cert mc) \<noteq> 0 then (Some ''certificate file already set'', mc)
      else (None, mc\<lparr>mc_cert := path\<rparr>))"

definition setKey :: "string \<Rightarrow> 's macat \<Rightarrow> string option \<times> 's macat" where
  "setKey path mc =
     (if length (mc_key mc) \<noteq> 0 then (Some ''key file already set'', mc)
      else (None, mc\<lparr>mc_key := path\<rparr>))"

text \<open>\<open>file\<close> is an error of opening or reading the file, or whether its certificates could be added.\<close>

definition setCaCert :: "string + bool \<Rightarrow> string \<Rightarrow> 's macat \<Rightarrow> string option \<times> 's macat" where
  "setCaCert file path mc =
     (if mc_roots mc then (Some ''cacert already set'', mc)
      else
        let mc1 = mc\<lparr>mc_ca := path\<rparr>
        in case file of
             Inl e \<Rightarrow> (Some e, mc1)
           | Inr ok \<Rightarrow> (if ok then None else Some ''unable to load CA certs'', mc1\<lparr>mc_roots := True\<rparr>))"

text \<open>
  \<^verbatim>\<open>strconv.Atoi\<close>: the number and whether there was no error; out of range it is the nearest
  64-bit integer, with an error.
\<close>

definition digits_val :: "string \<Rightarrow> int" where
  "digits_val = foldl (\<lambda>n c. 10 * n + (of_char c - 48)) 0"

definition Atoi :: "string \<Rightarrow> int \<times> bool" where
  "Atoi t =
     (let neg = (take 1 t = ''-'');
          ds = (if neg \<or> take 1 t = ''+'' then drop 1 t else t);
          v = digits_val ds
      in if ds = [] \<or> \<not> list_all (\<lambda>c. c \<in> set ''0123456789'') ds then (0, False)
         else if neg then (if 2 ^ 63 < v then (- (2 ^ 63), False) else (- v, True))
         else if 2 ^ 63 \<le> v then (2 ^ 63 - 1, False) else (v, True))"

definition not_integer :: "bool \<Rightarrow> string option" where
  "not_integer ok = (if ok then None else Some ''value not an integer'')"

text \<open>The options of \<^verbatim>\<open>init\<close>, with what each calls.\<close>

datatype 's mc_arg =
    AVerbose | ASilent | ASocket "string + 's" | ABind string | AConnect string | ABindIPC string
  | AConnectIPC string | ABindLocal string | AConnectLocal string | ASubscribe string | ARecvTimeout string
  | ASendTimeout string | ASendDelay string | ARaw | AAscii | AQuoted | AMsgpack | AInterval string
  | AData string | AFile "string + bytes \<times> string option" | ACert string | AKey string
  | ACaCert "string + bool" string | AInsecure

fun mc_option :: "('s \<Rightarrow> 's) \<Rightarrow> 's mc_arg \<Rightarrow> 's macat \<Rightarrow> string option \<times> 's macat" where
  "mc_option addt AVerbose mc = (None, mc\<lparr>mc_verbose := mc_verbose mc + 1\<rparr>)"
| "mc_option addt ASilent mc = (None, mc\<lparr>mc_verbose := mc_verbose mc - 1\<rparr>)"
| "mc_option addt (ASocket f) mc = setSocket addt f mc"
| "mc_option addt (ABind a) mc = addListen a mc"
| "mc_option addt (AConnect a) mc = addDial a mc"
| "mc_option addt (ABindIPC p) mc = addListenIPC p mc"
| "mc_option addt (AConnectIPC p) mc = addDialIPC p mc"
| "mc_option addt (ABindLocal p) mc = addListenLocal p mc"
| "mc_option addt (AConnectLocal p) mc = addDialLocal p mc"
| "mc_option addt (ASubscribe t) mc = addSub t mc"
| "mc_option addt (ARecvTimeout t) mc = (case Atoi t of (n, ok) \<Rightarrow> (not_integer ok, mc\<lparr>mc_rto := n\<rparr>))"
| "mc_option addt (ASendTimeout t) mc = (case Atoi t of (n, ok) \<Rightarrow> (not_integer ok, mc\<lparr>mc_sto := n\<rparr>))"
| "mc_option addt (ASendDelay t) mc = (case Atoi t of (n, ok) \<Rightarrow> (not_integer ok, mc\<lparr>mc_delay := n\<rparr>))"
| "mc_option addt ARaw mc = setFormat ''raw'' mc"
| "mc_option addt AAscii mc = setFormat ''ascii'' mc"
| "mc_option addt AQuoted mc = setFormat ''quoted'' mc"
| "mc_option addt AMsgpack mc = setFormat ''msgpack'' mc"
| "mc_option addt (AInterval t) mc = (case Atoi t of (n, ok) \<Rightarrow> (not_integer ok, mc\<lparr>mc_interval := n\<rparr>))"
| "mc_option addt (AData d) mc = setSendData d mc"
| "mc_option addt (AFile f) mc = setSendFile f mc"
| "mc_option addt (ACert p) mc = setCert p mc"
| "mc_option addt (AKey p) mc = setKey p mc"
| "mc_option addt (ACaCert f p) mc = setCaCert f p mc"
| "mc_option addt AInsecure mc = (None, mc\<lparr>mc_noverify := True\<rparr>)"

section \<open>Main\<close>

text \<open>How the program ends before its loop: each is a call of \<^verbatim>\<open>fatalf\<close>.\<close>

datatype mc_fatal =
    FCert string | FNoProtocol | FNoAddress | FNotSub | FSubscribe err | FWildcard err
  | FNoServerCert | FNoCA | FBind string err | FDial string err | FUnknown

datatype mc_loop = LRecv | LSend | LSendRecv | LReply

text \<open>The TLS part: \<open>load\<close> is \<^verbatim>\<open>tls.LoadX509KeyPair\<close>.\<close>

definition mc_tls :: "(string \<Rightarrow> string \<Rightarrow> string option) \<Rightarrow> 's macat \<Rightarrow> mc_fatal option \<times> 's macat" where
  "mc_tls load mc =
     (let auth = (\<lambda>m. if mc_roots m then m\<lparr>mc_clientauth := True, mc_skip := False\<rparr>
                      else m\<lparr>mc_clientauth := False, mc_skip := True\<rparr>)
      in if length (mc_cert mc) \<noteq> 0 then
           (let mc1 = (if length (mc_key mc) = 0 then mc\<lparr>mc_key := mc_cert mc\<rparr> else mc)
            in case load (mc_cert mc1) (mc_key mc1) of
                 Some e \<Rightarrow> (Some (FCert e), mc1)
               | None \<Rightarrow> (None, auth (mc1\<lparr>mc_certs := 1\<rparr>)))
         else (None, auth mc))"

fun mc_subscribe ::
  "'a socket_scheme protocol_ops \<Rightarrow> string list \<Rightarrow> 'a socket_scheme \<Rightarrow> (mc_fatal option \<times> 'a socket_scheme) run" where
  "mc_subscribe proto [] s = Ret (None, s)"
| "mc_subscribe proto (t # ts) s =
     run_bind (sock_SetOption proto OptionSubscribe (VBytes (string_bytes t)) s) (\<lambda>(e, s1).
       case e of Some x \<Rightarrow> Ret (Some (FSubscribe x), s1) | None \<Rightarrow> mc_subscribe proto ts s1)"

definition mc_subscriptions ::
  "'a socket_scheme protocol_ops \<Rightarrow> string list \<Rightarrow> 'a socket_scheme \<Rightarrow> (mc_fatal option \<times> 'a socket_scheme) run" where
  "mc_subscriptions proto ts s =
     (if op_Number proto \<noteq> ProtoSub then Ret (if length ts > 0 then Some FNotSub else None, s)
      else if length ts > 0 then mc_subscribe proto ts s
      else run_bind (sock_SetOption proto OptionSubscribe (VBytes []) s) (\<lambda>(e, s1).
             Ret (map_option FWildcard e, s1)))"

definition is_tls :: "string \<Rightarrow> bool" where
  "is_tls addr \<longleftrightarrow> take 3 addr = ''tls''"

text \<open>
  The options an address is used with. \<open>cfg\<close> names the program's TLS configuration.
\<close>

definition mc_listen_opts :: "nat \<Rightarrow> 's macat \<Rightarrow> string \<Rightarrow> mc_fatal + (string \<times> goval) list" where
  "mc_listen_opts cfg mc addr =
     (if is_tls addr then
        (if mc_certs mc = 0 then Inl FNoServerCert
         else if mc_skip mc \<and> \<not> mc_noverify mc then Inl FNoCA
         else Inr [(OptionTLSConfig, VTLS (Some cfg))])
      else Inr [])"

definition mc_dial_opts :: "nat \<Rightarrow> 's macat \<Rightarrow> string \<Rightarrow> mc_fatal + (string \<times> goval) list" where
  "mc_dial_opts cfg mc addr =
     (if is_tls addr then
        (if mc_skip mc \<and> \<not> mc_noverify mc then Inl FNoCA
         else Inr [(OptionTLSConfig, VTLS (Some cfg))])
      else Inr [])"

text \<open>
  The two loops over addresses; \<open>use\<close> is the socket's ListenOptions or DialOptions and
  \<open>fatal\<close> its message.
\<close>

fun mc_addresses ::
  "(string \<Rightarrow> (string \<times> goval) list \<Rightarrow> 's \<Rightarrow> err option \<times> 's) \<Rightarrow> (string \<Rightarrow> err \<Rightarrow> mc_fatal) \<Rightarrow>
   (string \<Rightarrow> mc_fatal + (string \<times> goval) list) \<Rightarrow> string list \<Rightarrow> 's \<Rightarrow> mc_fatal option \<times> 's" where
  "mc_addresses use fatal opts [] s = (None, s)"
| "mc_addresses use fatal opts (a # as) s =
     (case opts a of
        Inl f \<Rightarrow> (Some f, s)
      | Inr os \<Rightarrow>
         (case use a os s of
            (Some e, s1) \<Rightarrow> (Some (fatal a e), s1)
          | (None, s1) \<Rightarrow> mc_addresses use fatal opts as s1))"

definition mc_open ::
  "(string \<Rightarrow> (string \<times> goval) list \<Rightarrow> 't \<Rightarrow> err option \<times> 't) \<Rightarrow> (string \<Rightarrow> (string \<times> goval) list \<Rightarrow> 't \<Rightarrow> err option \<times> 't) \<Rightarrow>
   nat \<Rightarrow> 's macat \<Rightarrow> 't \<Rightarrow> mc_fatal option \<times> 't" where
  "mc_open listen dial cfg mc s =
     (case mc_addresses listen FBind (mc_listen_opts cfg mc) (mc_listen mc) s of
        (Some x, s1) \<Rightarrow> (Some x, s1)
      | (None, s1) \<Rightarrow> mc_addresses dial FDial (mc_dial_opts cfg mc) (mc_dial mc) s1)"

text \<open>Which loop runs, by protocol and by whether there is data to send.\<close>

definition mc_loop_for :: "u16 \<Rightarrow> bool \<Rightarrow> mc_fatal + mc_loop" where
  "mc_loop_for n data =
     (if n = ProtoPull \<or> n = ProtoSub then Inr LRecv
      else if n = ProtoPush \<or> n = ProtoPub then Inr LSend
      else if n = ProtoPair \<or> n = ProtoStar \<or> n = ProtoBus then Inr (if data then LSendRecv else LRecv)
      else if n = ProtoSurveyor \<or> n = ProtoReq then Inr LSendRecv
      else if n = ProtoRep \<or> n = ProtoRespondent then Inr (if data then LReply else LRecv)
      else Inl FUnknown)"

text \<open>\<^verbatim>\<open>main\<close> up to its loop; the sleeps are left out.\<close>

definition mc_main ::
  "(string \<Rightarrow> string \<Rightarrow> string option) \<Rightarrow> nat \<Rightarrow>
   (string \<Rightarrow> (string \<times> goval) list \<Rightarrow> 'a socket_scheme \<Rightarrow> err option \<times> 'a socket_scheme) \<Rightarrow>
   (string \<Rightarrow> (string \<times> goval) list \<Rightarrow> 'a socket_scheme \<Rightarrow> err option \<times> 'a socket_scheme) \<Rightarrow>
   'a socket_scheme protocol_ops \<Rightarrow> 'a socket_scheme macat \<Rightarrow> ((mc_fatal + mc_loop) \<times> 'a socket_scheme macat) run" where
  "mc_main load cfg listen dial proto mc =
     (case mc_tls load mc of
        (Some f, mc1) \<Rightarrow> Ret (Inl f, mc1)
      | (None, mc1) \<Rightarrow>
         (case mc_sock mc1 of
            None \<Rightarrow> Ret (Inl FNoProtocol, mc1)
          | Some s \<Rightarrow>
              if length (mc_listen mc1) = 0 \<and> length (mc_dial mc1) = 0 then Ret (Inl FNoAddress, mc1)
              else
                run_bind (mc_subscriptions proto (mc_subs mc1) s) (\<lambda>(f, s1).
                  case f of
                    Some x \<Rightarrow> Ret (Inl x, mc1\<lparr>mc_sock := Some s1\<rparr>)
                  | None \<Rightarrow>
                     (case mc_open listen dial cfg mc1 s1 of
                        (Some x, s2) \<Rightarrow> Ret (Inl x, mc1\<lparr>mc_sock := Some s2\<rparr>)
                      | (None, s2) \<Rightarrow>
                          Ret (mc_loop_for (op_Number proto) (mc_data mc1 \<noteq> None), mc1\<lparr>mc_sock := Some s2\<rparr>)))))"

definition mc_cleanup :: "('s \<Rightarrow> (err option \<times> 's) run) \<Rightarrow> 's macat \<Rightarrow> 's macat run" where
  "mc_cleanup close mc =
     (case mc_sock mc of
        None \<Rightarrow> Ret mc
      | Some s \<Rightarrow> run_bind (close s) (\<lambda>(e, s1). Ret (mc\<lparr>mc_sock := Some s1\<rparr>)))"

section \<open>The loops\<close>

text \<open>
  Each function is one round, with what the clock, the selects and the message pool do in
  it. A round goes on, ends the loop, or ends the program; the second component is what it
  printed.
\<close>

datatype mc_ctl = MLoop | MExit | MNoData | MSendFailed err | MRecvFailed err

definition mc_recv_round ::
  "'a socket_scheme protocol_ops \<Rightarrow> string \<Rightarrow> inst \<Rightarrow> (inst \<times> recv_arm) list \<Rightarrow> 'a socket_scheme \<Rightarrow>
   (mc_ctl \<times> bytes \<times> 'a socket_scheme) run" where
  "mc_recv_round proto fmt now rounds s =
     run_bind (RecvMsg proto now rounds s) (\<lambda>(r, s1).
       case r of
         Inl e \<Rightarrow> Ret (if e = ErrProtoState \<or> e = ErrRecvTimeout then MExit else MRecvFailed e, [], s1)
       | Inr m \<Rightarrow> Ret (MLoop, printMsg fmt (body (msgs s1 m)), Free m s1))"

text \<open>The loop over as many rounds as there are inputs.\<close>

fun mc_recvLoop ::
  "'a socket_scheme protocol_ops \<Rightarrow> string \<Rightarrow> (inst \<times> (inst \<times> recv_arm) list) list \<Rightarrow> 'a socket_scheme \<Rightarrow>
   (mc_ctl \<times> bytes \<times> 'a socket_scheme) run" where
  "mc_recvLoop proto fmt [] s = Ret (MLoop, [], s)"
| "mc_recvLoop proto fmt ((now, rounds) # ins) s =
     run_bind (mc_recv_round proto fmt now rounds s) (\<lambda>(c, out, s1).
       if c = MLoop then
         run_bind (mc_recvLoop proto fmt ins s1) (\<lambda>(c2, out2, s2). Ret (c2, out @ out2, s2))
       else Ret (c, out, s1))"

text \<open>What all sending loops do with the data: \<open>fresh\<close>, \<open>now\<close>, \<open>t\<close>, \<open>pick\<close> as for Send of the core.\<close>

definition mc_send ::
  "'a socket_scheme protocol_ops \<Rightarrow> bytes option \<Rightarrow> mref \<Rightarrow> inst \<Rightarrow> inst \<Rightarrow> send_arm \<Rightarrow> 'a socket_scheme \<Rightarrow>
   (err option \<times> 'a socket_scheme) run" where
  "mc_send proto data fresh now t pick s =
     (let d = (case data of None \<Rightarrow> [] | Some d \<Rightarrow> d);
          (m, s1) = NewMessage fresh (length d) s
      in SendMsg proto now t pick m (set_body m (body (msgs s1 m) @ d) s1))"

definition mc_send_round ::
  "'a socket_scheme protocol_ops \<Rightarrow> 's macat \<Rightarrow> mref \<Rightarrow> inst \<Rightarrow> inst \<Rightarrow> send_arm \<Rightarrow> 'a socket_scheme \<Rightarrow>
   (mc_ctl \<times> 'a socket_scheme) run" where
  "mc_send_round proto mc fresh now t pick s =
     (if mc_data mc = None then Ret (MNoData, s)
      else run_bind (mc_send proto (mc_data mc) fresh now t pick s) (\<lambda>(e, s1).
             Ret (case e of Some x \<Rightarrow> MSendFailed x | None \<Rightarrow> if mc_interval mc \<ge> 0 then MLoop else MExit, s1)))"

definition second :: dur where "second = 10 ^ 9"

definition mc_sendRecv_round ::
  "'a socket_scheme protocol_ops \<Rightarrow> 's macat \<Rightarrow> mref \<Rightarrow> inst \<Rightarrow> inst \<Rightarrow> send_arm \<Rightarrow>
   (inst \<times> (inst \<times> recv_arm) list) list \<Rightarrow> inst \<Rightarrow> (inst \<times> recv_arm) list \<Rightarrow> 'a socket_scheme \<Rightarrow>
   (mc_ctl \<times> bytes \<times> 'a socket_scheme) run" where
  "mc_sendRecv_round proto mc fresh now t pick ins rnow rounds s =
     run_bind (mc_send proto (mc_data mc) fresh now t pick s) (\<lambda>(e, s1).
       case e of
         Some x \<Rightarrow> Ret (MSendFailed x, [], s1)
       | None \<Rightarrow>
           if mc_interval mc < 0 then mc_recvLoop proto (mc_format mc) ins s1
           else
             run_bind (if mc_rto mc < 0 \<or> mc_rto mc > mc_interval mc
                       then sock_SetOption proto OptionRecvDeadline (VDur (wrap64 (second * mc_interval mc))) s1
                       else Ret (None, s1)) (\<lambda>(_, s2).
             run_bind (RecvMsg proto rnow rounds s2) (\<lambda>(r, s3).
               case r of
                 Inl e \<Rightarrow> Ret (if e = ErrRecvTimeout then MLoop else MRecvFailed e, [], s3)
               | Inr m \<Rightarrow> Ret (MLoop, printMsg (mc_format mc) (body (msgs s3 m)), Free m s3))))"

definition mc_reply_round ::
  "'a socket_scheme protocol_ops \<Rightarrow> 's macat \<Rightarrow> inst \<Rightarrow> (inst \<times> recv_arm) list \<Rightarrow> mref \<Rightarrow> inst \<Rightarrow> inst \<Rightarrow> send_arm \<Rightarrow>
   'a socket_scheme \<Rightarrow> (mc_ctl \<times> bytes \<times> 'a socket_scheme) run" where
  "mc_reply_round proto mc rnow rounds fresh now t pick s =
     (if mc_data mc = None then Ret (MNoData, [], s)
      else
        run_bind (RecvMsg proto rnow rounds s) (\<lambda>(r, s1).
          case r of
            Inl e \<Rightarrow> Ret (if e = ErrRecvTimeout then MExit else MRecvFailed e, [], s1)
          | Inr m \<Rightarrow>
              let out = printMsg (mc_format mc) (body (msgs s1 m))
              in run_bind (mc_send proto (mc_data mc) fresh now t pick (Free m s1)) (\<lambda>(e, s2).
                   Ret (case e of Some x \<Rightarrow> MSendFailed x | None \<Rightarrow> MLoop, out, s2))))"

section \<open>Facts about the options\<close>

lemma setFormat_known: "mc_format mc \<in> set ([] # mc_formats) \<Longrightarrow> mc_format (snd (setFormat f mc)) \<in> set ([] # mc_formats)"
  by (auto simp: setFormat_def)

lemma mc_option_format:
  "mc_format mc \<in> set ([] # mc_formats) \<Longrightarrow> mc_format (snd (mc_option addt a mc)) \<in> set ([] # mc_formats)"
  using setFormat_known [of mc]
  by (cases a) (simp_all add: setSocket_def addListen_def addDial_def addListenIPC_def addDialIPC_def
      addListenLocal_def addDialLocal_def addSub_def setSendData_def setSendFile_def setCert_def setKey_def
      setCaCert_def Let_def split: prod.split sum.split)

text \<open>Data, format and socket, once chosen, are not changed by any later option.\<close>

lemma mc_option_once:
  "mc_data mc = Some d \<Longrightarrow> mc_data (snd (mc_option addt a mc)) = Some d"
  "mc_format mc = f \<Longrightarrow> f \<noteq> [] \<Longrightarrow> mc_format (snd (mc_option addt a mc)) = f"
  "mc_sock mc = Some s \<Longrightarrow> mc_sock (snd (mc_option addt a mc)) = Some s"
  by (cases a; auto simp: setFormat_def setSocket_def addListen_def addDial_def addListenIPC_def addDialIPC_def
      addListenLocal_def addDialLocal_def addSub_def setSendData_def setSendFile_def setCert_def setKey_def
      setCaCert_def Let_def split: prod.split sum.split)+

section \<open>Facts about main\<close>

lemma mc_addresses_opts:
  "mc_addresses use fatal opts as s = (None, s') \<Longrightarrow> a \<in> set as \<Longrightarrow> \<exists>os. opts a = Inr os"
  by (induction as arbitrary: s) (auto split: sum.splits prod.splits option.splits)

text \<open>
  macat only listens on and dials TLS addresses when it has what it needs: a certificate to
  listen, and a root certificate unless told not to verify.
\<close>

lemma mc_main_Inr:
  assumes "mc_main load cfg listen dial proto mc = Ret (Inr l, mc')"
  obtains mc1 s1 s2 where "mc_tls load mc = (None, mc1)" "mc_open listen dial cfg mc1 s1 = (None, s2)"
    "mc' = mc1\<lparr>mc_sock := Some s2\<rparr>" "mc_loop_for (op_Number proto) (mc_data mc1 \<noteq> None) = Inr l"
proof -
  obtain f mc1 where tls: "mc_tls load mc = (f, mc1)" by fastforce
  have f: "f = None" using assms tls by (cases f) (simp_all add: mc_main_def)
  obtain s where s: "mc_sock mc1 = Some s" using assms tls f by (cases "mc_sock mc1") (simp_all add: mc_main_def)
  obtain f2 s1 where sub: "mc_subscriptions proto (mc_subs mc1) s = Ret (f2, s1)"
    using assms tls f s by (cases "mc_subscriptions proto (mc_subs mc1) s") (auto simp: mc_main_def split: if_splits)
  have f2: "f2 = None" using assms tls f s sub by (cases f2) (simp_all add: mc_main_def split: if_splits)
  obtain f3 s2 where op: "mc_open listen dial cfg mc1 s1 = (f3, s2)" by fastforce
  have "f3 = None" using assms tls f s sub f2 op by (cases f3) (simp_all add: mc_main_def split: if_splits)
  with assms tls f s sub f2 op show ?thesis
    by (intro that [of mc1 s1 s2]) (simp_all add: mc_main_def split: if_splits)
qed

lemma mc_open_opts:
  assumes "mc_open listen dial cfg mc s = (None, s')"
  shows "a \<in> set (mc_listen mc) \<Longrightarrow> \<exists>os. mc_listen_opts cfg mc a = Inr os"
    and "a \<in> set (mc_dial mc) \<Longrightarrow> \<exists>os. mc_dial_opts cfg mc a = Inr os"
  using assms
  by (auto simp: mc_open_def split: prod.splits option.splits dest!: mc_addresses_opts)

lemma mc_main_tls:
  assumes "mc_main load cfg listen dial proto mc = Ret (Inr l, mc')"
  shows "a \<in> set (mc_listen mc') \<Longrightarrow> is_tls a \<Longrightarrow> mc_certs mc' \<noteq> 0"
    and "a \<in> set (mc_listen mc') \<union> set (mc_dial mc') \<Longrightarrow> is_tls a \<Longrightarrow> \<not> mc_skip mc' \<or> mc_noverify mc'"
proof -
  obtain mc1 s1 s2 where op: "mc_open listen dial cfg mc1 s1 = (None, s2)" and mc': "mc' = mc1\<lparr>mc_sock := Some s2\<rparr>"
    using assms by (rule mc_main_Inr)
  show "a \<in> set (mc_listen mc') \<Longrightarrow> is_tls a \<Longrightarrow> mc_certs mc' \<noteq> 0"
    using mc_open_opts(1) [OF op, of a] mc' by (auto simp: mc_listen_opts_def split: if_splits)
  show "a \<in> set (mc_listen mc') \<union> set (mc_dial mc') \<Longrightarrow> is_tls a \<Longrightarrow> \<not> mc_skip mc' \<or> mc_noverify mc'"
    using mc_open_opts [OF op, of a] mc' by (auto simp: mc_listen_opts_def mc_dial_opts_def split: if_splits)
qed

text \<open>Every protocol of the repository has its loop.\<close>

lemma mc_loop_for_known:
  "mc_loop_for n data \<noteq> Inl FUnknown \<longleftrightarrow>
   n \<in> {ProtoPair, ProtoPub, ProtoSub, ProtoReq, ProtoRep, ProtoPush, ProtoPull, ProtoSurveyor, ProtoRespondent,
     ProtoBus, ProtoStar}"
  by (auto simp: mc_loop_for_def)

text \<open>
  \<^verbatim>\<open>main\<close> never looks at the two timeouts: \<^verbatim>\<open>--send-timeout\<close> has no effect at all, and
  \<^verbatim>\<open>--recv-timeout\<close> none but on \<^verbatim>\<open>sendRecvLoop\<close>'s choice to bound a receive by the interval.
\<close>

definition set_timeouts :: "int \<Rightarrow> int \<Rightarrow> 's macat \<Rightarrow> 's macat" where
  "set_timeouts r t mc = mc\<lparr>mc_rto := r, mc_sto := t\<rparr>"

lemma set_timeouts_opts:
  "mc_listen_opts cfg (set_timeouts r t mc) = mc_listen_opts cfg mc"
  "mc_dial_opts cfg (set_timeouts r t mc) = mc_dial_opts cfg mc"
  by (rule ext, simp add: set_timeouts_def mc_listen_opts_def mc_dial_opts_def)+

lemma set_timeouts_sel [simp]:
  "mc_sock (set_timeouts r t mc) = mc_sock mc" "mc_listen (set_timeouts r t mc) = mc_listen mc"
  "mc_dial (set_timeouts r t mc) = mc_dial mc" "mc_subs (set_timeouts r t mc) = mc_subs mc"
  "mc_data (set_timeouts r t mc) = mc_data mc"
  "(set_timeouts r t mc)\<lparr>mc_sock := so\<rparr> = set_timeouts r t (mc\<lparr>mc_sock := so\<rparr>)"
  by (simp_all add: set_timeouts_def)

lemma set_timeouts_open [simp]: "mc_open listen dial cfg (set_timeouts r t mc) = mc_open listen dial cfg mc"
  by (rule ext) (simp add: mc_open_def set_timeouts_opts split: prod.split option.split)

lemma set_timeouts_tls [simp]: "mc_tls load (set_timeouts r t mc) = apsnd (set_timeouts r t) (mc_tls load mc)"
  by (simp add: mc_tls_def Let_def set_timeouts_def split: option.split)

lemma mc_main_ignores_timeouts:
  "mc_main load cfg listen dial proto (set_timeouts r t mc) =
   run_bind (mc_main load cfg listen dial proto mc) (\<lambda>(x, mc'). Ret (x, set_timeouts r t mc'))"
proof -
  obtain f mc1 where tls: "mc_tls load mc = (f, mc1)" by fastforce
  show ?thesis
  proof (cases "f = None \<and> mc_sock mc1 \<noteq> None \<and> \<not> (mc_listen mc1 = [] \<and> mc_dial mc1 = [])")
    case False
    then show ?thesis using tls by (auto simp: mc_main_def split: option.split)
  next
    case True
    then obtain s where s: "mc_sock mc1 = Some s" by auto
    show ?thesis
    proof (cases "mc_subscriptions proto (mc_subs mc1) s")
      case (Ret p)
      obtain f2 s1 where p: "p = (f2, s1)" by fastforce
      obtain f3 s2 where op: "mc_open listen dial cfg mc1 s1 = (f3, s2)" by fastforce
      from True s tls Ret p op show ?thesis by (cases f2; cases f3) (auto simp: mc_main_def)
    qed (use True s tls in \<open>simp_all add: mc_main_def\<close>)
  qed
qed

text \<open>
  The options for a \<^verbatim>\<open>wss\<close> address carry no TLS configuration, so macat can never listen on one.
\<close>

lemma mc_wss_fails:
  assumes "is_wss addr" "ws_new_listener parse proto addr = Inr l"
  shows "mc_listen_opts cfg mc addr = Inr [] \<and> ws_Listen certs resolve listen l = Ret (Some ErrTLSNoConfig, l)"
proof -
  have "\<not> is_tls addr"
  proof
    assume "is_tls addr"
    then have "hd addr = CHR ''t''" by (cases addr) (auto simp: is_tls_def)
    moreover have "hd addr = CHR ''w''" using assms(1) by (cases addr) (auto simp: is_wss_def)
    ultimately show False by simp
  qed
  with assms show ?thesis
    by (auto simp: mc_listen_opts_def ws_new_listener_def ws_Listen_def split: sum.splits)
qed

section \<open>Facts about the loops\<close>

text \<open>The bodies that a receive loop gets.\<close>

fun mc_received ::
  "'a socket_scheme protocol_ops \<Rightarrow> (inst \<times> (inst \<times> recv_arm) list) list \<Rightarrow> 'a socket_scheme \<Rightarrow> bytes list" where
  "mc_received proto [] s = []"
| "mc_received proto ((now, rounds) # ins) s =
     (case RecvMsg proto now rounds s of
        Ret (Inr m, s1) \<Rightarrow> body (msgs s1 m) # mc_received proto ins (Free m s1)
      | _ \<Rightarrow> [])"

text \<open>What it prints is what it got, in order.\<close>

lemma mc_recvLoop_prints:
  "mc_recvLoop proto fmt ins s = Ret (c, out, s') \<Longrightarrow> out = concat (map (printMsg fmt) (mc_received proto ins s))"
proof (induction ins arbitrary: s out)
  case Nil
  then show ?case by simp
next
  case (Cons x ins)
  obtain now rounds where x: "x = (now, rounds)" by fastforce
  show ?case
  proof (cases "RecvMsg proto now rounds s")
    case (Ret p)
    obtain r s1 where p: "p = (r, s1)" by fastforce
    with Cons Ret x show ?thesis
      by (cases r) (auto simp: mc_recv_round_def run_bind_Ret_iff split: if_splits)
  qed (use Cons.prems x in \<open>simp_all add: mc_recv_round_def\<close>)
qed

end
