(* ===== verification/Inproc.thy ===== *)
theory Inproc
  imports Dial
begin

text \<open>
  transport/inproc/inproc.go: pipes over channels inside one process. The global
  \<^verbatim>\<open>listeners\<close> (its map and its mutex), the listeners and the pipes are tables of one state.
  An operation that would wait for the mutex is \<open>Block\<close>. A protocol is its number and its
  peer's number.
\<close>

section \<open>State\<close>

record inproc =
  ip_rq :: "cref option"
  ip_wq :: "cref option"
  ip_closeq :: bool
  ip_readyq :: bool
  ip_proto :: "u16 \<times> u16"
  ip_addr :: string
  ip_peer :: "nat option"

record inlistener =
  in_addr :: string
  in_proto :: "u16 \<times> u16"
  in_accepters :: "nat list"

record inworld = heap +
  iptab :: "nat \<Rightarrow> inproc"
  nextip :: nat
  intab :: "nat \<Rightarrow> inlistener"
  nextin :: nat
  byAddr :: "string \<rightharpoonup> nat"
  in_mx :: bool

definition upd_ip :: "nat \<Rightarrow> (inproc \<Rightarrow> inproc) \<Rightarrow> inworld \<Rightarrow> inworld" where
  "upd_ip p f w = w\<lparr>iptab := (iptab w)(p := f (iptab w p))\<rparr>"

definition upd_in :: "nat \<Rightarrow> (inlistener \<Rightarrow> inlistener) \<Rightarrow> inworld \<Rightarrow> inworld" where
  "upd_in l f w = w\<lparr>intab := (intab w)(l := f (intab w l))\<rparr>"

section \<open>Pipes\<close>

definition ip_newpipe :: "u16 \<times> u16 \<Rightarrow> string \<Rightarrow> inworld \<Rightarrow> nat \<times> inworld" where
  "ip_newpipe proto addr w =
     (nextip w, w\<lparr>iptab := (iptab w)(nextip w := \<lparr>ip_rq = None, ip_wq = None, ip_closeq = False,
                    ip_readyq = False, ip_proto = proto, ip_addr = addr, ip_peer = None\<rparr>),
                  nextip := Suc (nextip w)\<rparr>)"

text \<open>The closed state of the peer's close channel, and whether a queue can deliver.\<close>

definition peer_closed :: "nat \<Rightarrow> inworld \<Rightarrow> bool" where
  "peer_closed p w = (case ip_peer (iptab w p) of None \<Rightarrow> False | Some q \<Rightarrow> ip_closeq (iptab w q))"

definition q_recv_ready :: "cref option \<Rightarrow> inworld \<Rightarrow> bool" where
  "q_recv_ready q w = (case q of None \<Rightarrow> False | Some c \<Rightarrow> recv_ready c w)"

definition q_send_ready :: "cref option \<Rightarrow> inworld \<Rightarrow> bool" where
  "q_send_ready q w = (case q of None \<Rightarrow> False | Some c \<Rightarrow> send_ready c w)"

datatype ip_arm = IQueue | IClosed | IPeer

definition ip_Recv :: "ip_arm \<Rightarrow> nat \<Rightarrow> inworld \<Rightarrow> ((err + mref) \<times> inworld) run" where
  "ip_Recv pick p w =
     (if ip_peer (iptab w p) = None then Ret (Inl ErrClosed, w)
      else case go_select [(IQueue, q_recv_ready (ip_rq (iptab w p)) w), (IClosed, ip_closeq (iptab w p)),
                           (IPeer, peer_closed p w)] None pick of
             None \<Rightarrow> Block
           | Some IQueue \<Rightarrow>
               run_bind (ch_recv (the (ip_rq (iptab w p))) w) (\<lambda>(m, w1).
                 Ret (case m of None \<Rightarrow> (Inl ErrClosed, w1) | Some r \<Rightarrow> (Inr r, w1)))
           | Some _ \<Rightarrow> Ret (Inl ErrClosed, w))"

text \<open>The copy that is sent: header and body in one body.\<close>

definition ip_copy :: "mref \<Rightarrow> mref \<Rightarrow> inworld \<Rightarrow> mref \<times> inworld" where
  "ip_copy fresh m w =
     (let h = hdr_bytes (msgs w m); b = body (msgs w m);
          (n, w1) = NewMessage fresh (length h + length b) w;
          w2 = set_body n (body (msgs w1 n) @ h) w1
      in (n, set_body n (body (msgs w2 n) @ b) w2))"

definition ip_Send :: "mref \<Rightarrow> inst \<Rightarrow> ip_arm \<Rightarrow> nat \<Rightarrow> mref \<Rightarrow> inworld \<Rightarrow> (err option \<times> inworld) run" where
  "ip_Send fresh now pick p m w =
     (if ip_peer (iptab w p) = None then Ret (Some ErrClosed, w)
      else if Expired now (msgs w m) then Ret (None, Free m w)
      else
        let (n, w1) = ip_copy fresh m w
        in case go_select [(IQueue, q_send_ready (ip_wq (iptab w1 p)) w1), (IClosed, ip_closeq (iptab w1 p)),
                           (IPeer, peer_closed p w1)] None pick of
             None \<Rightarrow> Block
           | Some IQueue \<Rightarrow> run_bind (ch_send (the (ip_wq (iptab w1 p))) n w1) (\<lambda>w2. Ret (None, w2))
           | Some _ \<Rightarrow> Ret (Some ErrClosed, Free n w1))"

definition ip_LocalProtocol :: "inproc \<Rightarrow> u16" where "ip_LocalProtocol p = fst (ip_proto p)"
definition ip_RemoteProtocol :: "inproc \<Rightarrow> u16" where "ip_RemoteProtocol p = snd (ip_proto p)"

definition ip_IsOpen :: "inproc \<Rightarrow> bool" where "ip_IsOpen p \<longleftrightarrow> \<not> ip_closeq p"

definition ip_Close :: "nat \<Rightarrow> inworld \<Rightarrow> inworld" where
  "ip_Close p w = (if ip_IsOpen (iptab w p) then upd_ip p (\<lambda>x. x\<lparr>ip_closeq := True\<rparr>) w else w)"

definition ip_GetProp :: "string \<Rightarrow> inproc \<Rightarrow> err + goval" where
  "ip_GetProp name p =
     (if name = ''REMOTE-ADDR'' \<or> name = ''LOCAL-ADDR'' then Inr (VStr (ip_addr p)) else Inl ErrBadProperty)"

section \<open>Listening and dialing\<close>

definition ip_NewListener :: "string \<Rightarrow> u16 \<times> u16 \<Rightarrow> inworld \<Rightarrow> (err + nat) \<times> inworld" where
  "ip_NewListener addr proto w =
     (case StripScheme ''inproc'' addr of
        (Some e, _) \<Rightarrow> (Inl e, w)
      | (None, _) \<Rightarrow> (Inr (nextin w), w\<lparr>intab := (intab w)(nextin w :=
                          \<lparr>in_addr = addr, in_proto = proto, in_accepters = []\<rparr>), nextin := Suc (nextin w)\<rparr>))"

text \<open>A dialer is the address and the protocol; neither side has options.\<close>

definition ip_NewDialer :: "string \<Rightarrow> u16 \<times> u16 \<Rightarrow> err + string \<times> (u16 \<times> u16)" where
  "ip_NewDialer addr proto =
     (case StripScheme ''inproc'' addr of (Some e, _) \<Rightarrow> Inl e | (None, _) \<Rightarrow> Inr (addr, proto))"

definition ip_SetOption :: "string \<Rightarrow> goval \<Rightarrow> 's \<Rightarrow> err option \<times> 's" where
  "ip_SetOption n v x = (Some ErrBadOption, x)"

definition ip_GetOption :: "'s \<Rightarrow> string \<Rightarrow> err + goval" where
  "ip_GetOption x n = Inl ErrBadOption"

definition ip_Address :: "inlistener \<Rightarrow> string" where
  "ip_Address l = in_addr l"

text \<open>How an address prints\<close>

definition addr_String :: "string \<Rightarrow> string" where
  "addr_String a = (if take 9 a = ''inproc://'' then drop 9 a else a)"

definition ip_Listen :: "nat \<Rightarrow> inworld \<Rightarrow> (err option \<times> inworld) run" where
  "ip_Listen l w =
     (if in_mx w then Block
      else if byAddr w (in_addr (intab w l)) \<noteq> None then Ret (Some ErrAddrInUse, w)
      else Ret (None, w\<lparr>byAddr := (byAddr w)(in_addr (intab w l) \<mapsto> l)\<rparr>))"

text \<open>Accept: queue a server pipe, then wait for it to be connected or closed.\<close>

definition ip_Accept_start :: "nat \<Rightarrow> inworld \<Rightarrow> (nat \<times> inworld) run" where
  "ip_Accept_start l w =
     (let (p, w1) = ip_newpipe (in_proto (intab w l)) (in_addr (intab w l)) w
      in if in_mx w1 then Block
         else Ret (p, upd_in l (\<lambda>x. x\<lparr>in_accepters := in_accepters x @ [p]\<rparr>) w1))"

definition ip_Accept_wait :: "bool \<Rightarrow> nat \<Rightarrow> inworld \<Rightarrow> (err + nat) run" where
  "ip_Accept_wait pick p w =
     (case go_select [(True, ip_readyq (iptab w p)), (False, ip_closeq (iptab w p))] None pick of
        None \<Rightarrow> Block | Some True \<Rightarrow> Ret (Inr p) | Some False \<Rightarrow> Ret (Inl ErrClosed))"

text \<open>
  Dial, one pass of its loop with the mutex: refused, of the wrong protocol (which returns
  without releasing the mutex), connected, or waiting for an accepter.
\<close>

datatype ip_dialed = IpErr err | IpPipe nat | IpWait

definition ip_Dial :: "string \<Rightarrow> u16 \<times> u16 \<Rightarrow> inworld \<Rightarrow> (ip_dialed \<times> inworld) run" where
  "ip_Dial addr proto w =
     (let (c, w1) = ip_newpipe proto addr w
      in if in_mx w1 then Block
         else case byAddr w1 addr of
                None \<Rightarrow> Ret (IpErr ErrConnRefused, w1)
              | Some l \<Rightarrow>
                  if fst proto \<noteq> snd (in_proto (intab w1 l)) \<or> fst (in_proto (intab w1 l)) \<noteq> snd proto
                  then Ret (IpErr ErrBadProto, w1\<lparr>in_mx := True\<rparr>)
                  else if in_accepters (intab w1 l) = [] then Ret (IpWait, w1)
                  else
                    let srv = last (in_accepters (intab w1 l));
                        w2 = upd_in l (\<lambda>x. x\<lparr>in_accepters := butlast (in_accepters x)\<rparr>) w1;
                        (swq, w3) = new_chan 0 w2;
                        (srq, w4) = new_chan 0 w3
                    in if ip_readyq (iptab w4 srv) then Panic
                       else Ret (IpPipe c,
                         upd_ip c (\<lambda>x. x\<lparr>ip_rq := Some swq, ip_wq := Some srq, ip_peer := Some srv, ip_readyq := True\<rparr>)
                          (upd_ip srv (\<lambda>x. x\<lparr>ip_wq := Some swq, ip_rq := Some srq, ip_peer := Some c, ip_readyq := True\<rparr>) w4)))"

definition ip_Close_listener :: "nat \<Rightarrow> inworld \<Rightarrow> inworld run" where
  "ip_Close_listener l w =
     (if in_mx w then Block
      else
        let w1 = (if byAddr w (in_addr (intab w l)) = Some l
                  then w\<lparr>byAddr := (byAddr w)(in_addr (intab w l) := None)\<rparr> else w);
            servers = in_accepters (intab w1 l);
            w2 = upd_in l (\<lambda>x. x\<lparr>in_accepters := []\<rparr>) w1
        in if \<exists>p \<in> set servers. ip_closeq (iptab w2 p) then Panic
           else Ret (fold (\<lambda>p. upd_ip p (\<lambda>x. x\<lparr>ip_closeq := True\<rparr>)) servers w2))"

section \<open>The queue of accepters\<close>

text \<open>
  The pipes waiting in the listeners are allocated, wait in one place only, and are neither
  connected nor closed.
\<close>

definition in_ok :: "inworld \<Rightarrow> bool" where
  "in_ok w \<longleftrightarrow>
     (\<forall>l p. p \<in> set (in_accepters (intab w l)) \<longrightarrow>
        p < nextip w \<and> \<not> ip_readyq (iptab w p) \<and> \<not> ip_closeq (iptab w p) \<and> ip_peer (iptab w p) = None) \<and>
     (\<forall>l. distinct (in_accepters (intab w l))) \<and>
     (\<forall>l l' p. p \<in> set (in_accepters (intab w l)) \<longrightarrow> p \<in> set (in_accepters (intab w l')) \<longrightarrow> l = l')"

lemma in_okD:
  assumes "in_ok w" "p \<in> set (in_accepters (intab w l))"
  shows "p < nextip w" "\<not> ip_readyq (iptab w p)" "\<not> ip_closeq (iptab w p)" "ip_peer (iptab w p) = None"
  using assms unfolding in_ok_def by blast+

lemma ip_Accept_start_ok:
  assumes "in_ok w" "ip_Accept_start l w = Ret (p, w')"
  shows "in_ok w' \<and> p \<notin> set (in_accepters (intab w l)) \<and> in_accepters (intab w' l) = in_accepters (intab w l) @ [p]"
proof -
  have new: "nextip w \<notin> set (in_accepters (intab w k))" for k
    using in_okD(1) [OF assms(1)] by blast
  from assms(2) have p: "p = nextip w"
    and w': "w' = upd_in l (\<lambda>x. x\<lparr>in_accepters := in_accepters x @ [p]\<rparr>)
        (snd (ip_newpipe (in_proto (intab w l)) (in_addr (intab w l)) w))"
    by (auto simp: ip_Accept_start_def ip_newpipe_def Let_def split: if_splits)
  have acc: "in_accepters (intab w' k) = (if k = l then in_accepters (intab w l) @ [p] else in_accepters (intab w k))" for k
    by (simp add: w' upd_in_def ip_newpipe_def)
  have tab: "iptab w' q = iptab w q" if "q \<noteq> p" for q
    using that by (simp add: w' p upd_in_def ip_newpipe_def)
  have tabp: "\<not> ip_readyq (iptab w' p)" "\<not> ip_closeq (iptab w' p)" "ip_peer (iptab w' p) = None"
    and nx: "nextip w' = Suc (nextip w)"
    by (simp_all add: w' p upd_in_def ip_newpipe_def)
  have A: "q < nextip w' \<and> \<not> ip_readyq (iptab w' q) \<and> \<not> ip_closeq (iptab w' q) \<and> ip_peer (iptab w' q) = None"
    if "q \<in> set (in_accepters (intab w' k))" for k q
  proof (cases "q = p")
    case True
    with tabp nx p show ?thesis by simp
  next
    case False
    with that have "q \<in> set (in_accepters (intab w k))" by (auto simp: acc split: if_splits)
    from in_okD [OF assms(1) this] tab [OF False] nx show ?thesis by simp
  qed
  have B: "distinct (in_accepters (intab w' k))" for k
    using assms(1) new p by (auto simp: acc in_ok_def)
  have C: "k = k'" if "q \<in> set (in_accepters (intab w' k))" "q \<in> set (in_accepters (intab w' k'))" for k k' q
  proof (cases "q = p")
    case True
    with that new p show ?thesis by (auto simp: acc split: if_splits)
  next
    case False
    with that have "q \<in> set (in_accepters (intab w k))" "q \<in> set (in_accepters (intab w k'))"
      by (auto simp: acc split: if_splits)
    with assms(1) show ?thesis unfolding in_ok_def by blast
  qed
  have "in_ok w'" unfolding in_ok_def using A B C by blast
  with acc [of l] new p show ?thesis by simp
qed

text \<open>
  A connected dial takes the accepter that waited last out of its queue, and the two pipes
  are each other's peers over crossed queues.
\<close>

lemma ip_Dial_connects:
  assumes "in_ok w" "ip_Dial addr proto w = Ret (IpPipe c, w')"
  shows "\<exists>l srv. byAddr w addr = Some l \<and> srv \<in> set (in_accepters (intab w l)) \<and>
     srv \<notin> set (in_accepters (intab w' l)) \<and>
     fst proto = snd (in_proto (intab w l)) \<and> fst (in_proto (intab w l)) = snd proto \<and>
     ip_peer (iptab w' c) = Some srv \<and> ip_peer (iptab w' srv) = Some c \<and>
     ip_rq (iptab w' c) = ip_wq (iptab w' srv) \<and> ip_wq (iptab w' c) = ip_rq (iptab w' srv) \<and>
     ip_rq (iptab w' c) \<noteq> ip_wq (iptab w' c) \<and> ip_readyq (iptab w' srv) \<and> c \<noteq> srv"
proof -
  from assms(2) obtain l where l: "byAddr w addr = Some l" "in_accepters (intab w l) \<noteq> []"
    "fst proto = snd (in_proto (intab w l))" "fst (in_proto (intab w l)) = snd proto" "c = nextip w"
    by (auto simp: ip_Dial_def ip_newpipe_def new_chan_def Let_def split: if_splits option.splits)
  let ?srv = "last (in_accepters (intab w l))"
  have m: "?srv \<in> set (in_accepters (intab w l))" using l(2) by simp
  have ne: "?srv \<noteq> nextip w" using in_okD(1) [OF assms(1) m] by simp
  have "distinct (in_accepters (intab w l))" using assms(1) by (simp add: in_ok_def)
  then have "?srv \<notin> set (butlast (in_accepters (intab w l)))"
    using l(2) by (metis append_butlast_last_id distinct_append distinct.simps(2) not_distinct_conv_prefix)
  moreover have "intab w' l = (intab w l)\<lparr>in_accepters := butlast (in_accepters (intab w l))\<rparr>"
    "iptab w' c = \<lparr>ip_rq = Some (nextc w), ip_wq = Some (Suc (nextc w)), ip_closeq = False,
        ip_readyq = True, ip_proto = proto, ip_addr = addr, ip_peer = Some ?srv\<rparr>"
    "iptab w' ?srv = (iptab w ?srv)\<lparr>ip_wq := Some (nextc w), ip_rq := Some (Suc (nextc w)),
        ip_peer := Some c, ip_readyq := True\<rparr>"
    using assms(2) l ne
    by (auto simp: ip_Dial_def ip_newpipe_def upd_in_def upd_ip_def new_chan_def Let_def split: if_splits)
  ultimately show ?thesis
    using l m ne by (intro exI [of _ l] exI [of _ ?srv]) simp
qed

lemma ip_Dial_not_Panic: "in_ok w \<Longrightarrow> ip_Dial addr proto w \<noteq> Panic"
proof -
  assume ok: "in_ok w"
  have "\<not> ip_readyq (iptab w (last (in_accepters (intab w l))))" if "in_accepters (intab w l) \<noteq> []" for l
    using in_okD(2) [OF ok last_in_set [OF that]] .
  moreover have "last (in_accepters (intab w l)) \<noteq> nextip w" if "in_accepters (intab w l) \<noteq> []" for l
    using in_okD(1) [OF ok last_in_set [OF that]] by simp
  ultimately show ?thesis
    by (auto simp: ip_Dial_def ip_newpipe_def upd_in_def new_chan_def Let_def split: option.splits if_splits)
qed

text \<open>
  Taking pipes out of the queues, and changing pipes that are in no queue, keeps the
  invariant; so does a fresh pipe.
\<close>

lemma in_ok_shrink:
  assumes "in_ok w" "\<And>l. set (in_accepters (intab w' l)) \<subseteq> set (in_accepters (intab w l))"
    and "\<And>l. distinct (in_accepters (intab w' l))" "nextip w \<le> nextip w'"
    and "\<And>l p. p \<in> set (in_accepters (intab w' l)) \<Longrightarrow> iptab w' p = iptab w p"
  shows "in_ok w'"
proof -
  have "p < nextip w' \<and> \<not> ip_readyq (iptab w' p) \<and> \<not> ip_closeq (iptab w' p) \<and> ip_peer (iptab w' p) = None"
    if "p \<in> set (in_accepters (intab w' l))" for l p
  proof -
    from that assms(2) have "p \<in> set (in_accepters (intab w l))" by blast
    from in_okD [OF assms(1) this] assms(4) assms(5) [OF that] show ?thesis by simp
  qed
  moreover have "l = l'" if "p \<in> set (in_accepters (intab w' l))" "p \<in> set (in_accepters (intab w' l'))" for l l' p
    using that assms(1,2) unfolding in_ok_def by blast
  ultimately show ?thesis unfolding in_ok_def using assms(3) by blast
qed

lemma ip_Dial_ok:
  assumes "in_ok w" "ip_Dial addr proto w = Ret (r, w')"
  shows "in_ok w'"
proof -
  have new: "nextip w \<notin> set (in_accepters (intab w k))" for k
    using in_okD(1) [OF assms(1)] by blast
  have d: "distinct (in_accepters (intab w k))" for k using assms(1) by (simp add: in_ok_def)
  show ?thesis
  proof (cases r)
    case (IpPipe c)
    from assms(2) IpPipe obtain l where l: "in_accepters (intab w l) \<noteq> []"
      and w': "intab w' = (intab w)(l := (intab w l)\<lparr>in_accepters := butlast (in_accepters (intab w l))\<rparr>)"
        "nextip w' = Suc (nextip w)"
        "\<And>p. p \<noteq> nextip w \<Longrightarrow> p \<noteq> last (in_accepters (intab w l)) \<Longrightarrow> iptab w' p = iptab w p"
      by (auto simp: ip_Dial_def ip_newpipe_def upd_in_def upd_ip_def new_chan_def Let_def
          split: if_splits option.splits)
    let ?srv = "last (in_accepters (intab w l))"
    have srv: "?srv \<in> set (in_accepters (intab w l))" using l by simp
    have nb: "?srv \<notin> set (butlast (in_accepters (intab w l)))"
      using d [of l] l by (metis append_butlast_last_id distinct_append distinct.simps(2) not_distinct_conv_prefix)
    have n1: "?srv \<notin> set (in_accepters (intab w' k))" for k
    proof (cases "k = l")
      case True
      with nb w'(1) show ?thesis by simp
    next
      case False
      with srv assms(1) show ?thesis unfolding in_ok_def w'(1) by auto
    qed
    have n2: "nextip w \<notin> set (in_accepters (intab w' k))" for k
      using new [of k] w'(1) by (auto dest: in_set_butlastD)
    show ?thesis
    proof (rule in_ok_shrink [OF assms(1)])
      show "set (in_accepters (intab w' k)) \<subseteq> set (in_accepters (intab w k))" for k
        by (auto simp: w'(1) dest: in_set_butlastD)
      show "distinct (in_accepters (intab w' k))" for k
        using d by (simp add: w'(1) distinct_butlast)
      show "nextip w \<le> nextip w'" by (simp add: w'(2))
      fix k p assume "p \<in> set (in_accepters (intab w' k))"
      then show "iptab w' p = iptab w p" using n1 [of k] n2 [of k] by (intro w'(3)) auto
    qed
  qed (use assms new d in \<open>auto intro!: in_ok_shrink [OF assms(1)]
        simp: ip_Dial_def ip_newpipe_def new_chan_def Let_def split: if_splits option.splits\<close>)
qed

lemma ip_Close_listener_ok:
  assumes "in_ok w" "\<not> in_mx w"
  shows "\<exists>w'. ip_Close_listener l w = Ret w' \<and> in_ok w' \<and> in_accepters (intab w' l) = [] \<and>
    byAddr w' (in_addr (intab w l)) \<noteq> Some l \<and> (\<forall>p \<in> set (in_accepters (intab w l)). ip_closeq (iptab w' p))"
proof -
  define w1 where "w1 = (if byAddr w (in_addr (intab w l)) = Some l
                  then w\<lparr>byAddr := (byAddr w)(in_addr (intab w l) := None)\<rparr> else w)"
  define ps where "ps = in_accepters (intab w l)"
  define w2 where "w2 = upd_in l (\<lambda>x. x\<lparr>in_accepters := []\<rparr>) w1"
  have f: "iptab (fold (\<lambda>p. upd_ip p (\<lambda>x. x\<lparr>ip_closeq := True\<rparr>)) qs u) =
      (\<lambda>p. if p \<in> set qs then (iptab u p)\<lparr>ip_closeq := True\<rparr> else iptab u p) \<and>
    intab (fold (\<lambda>p. upd_ip p (\<lambda>x. x\<lparr>ip_closeq := True\<rparr>)) qs u) = intab u \<and>
    byAddr (fold (\<lambda>p. upd_ip p (\<lambda>x. x\<lparr>ip_closeq := True\<rparr>)) qs u) = byAddr u \<and>
    nextip (fold (\<lambda>p. upd_ip p (\<lambda>x. x\<lparr>ip_closeq := True\<rparr>)) qs u) = nextip u" for qs u
    by (induction qs arbitrary: u) (auto simp: upd_ip_def fun_eq_iff)
  let ?w' = "fold (\<lambda>p. upd_ip p (\<lambda>x. x\<lparr>ip_closeq := True\<rparr>)) ps w2"
  have same: "intab w1 = intab w" "iptab w1 = iptab w" "nextip w1 = nextip w" by (auto simp: w1_def)
  have "\<forall>p \<in> set ps. \<not> ip_closeq (iptab w2 p)"
    using in_okD(3) [OF assms(1)] by (simp add: ps_def w2_def upd_in_def same)
  then have r: "ip_Close_listener l w = Ret ?w'"
    using assms(2) by (simp add: ip_Close_listener_def Let_def w1_def [symmetric] w2_def ps_def same)
  have acc: "in_accepters (intab ?w' k) = (if k = l then [] else in_accepters (intab w k))" for k
    using f [of ps w2] by (simp add: w2_def upd_in_def same)
  have "in_ok ?w'"
  proof (rule in_ok_shrink [OF assms(1)])
    fix k p assume p: "p \<in> set (in_accepters (intab ?w' k))"
    then have "k \<noteq> l" "p \<in> set (in_accepters (intab w k))" using acc [of k] by (auto split: if_splits)
    then have "p \<notin> set ps" using assms(1) unfolding in_ok_def ps_def by blast
    then show "iptab ?w' p = iptab w p" using f [of ps w2] by (simp add: w2_def upd_in_def same)
  next
    show "distinct (in_accepters (intab ?w' k))" for k using acc [of k] assms(1) by (simp add: in_ok_def)
    show "nextip w \<le> nextip ?w'" using f [of ps w2] by (simp add: w2_def upd_in_def same)
    show "set (in_accepters (intab ?w' k)) \<subseteq> set (in_accepters (intab w k))" for k using acc [of k] by simp
  qed
  moreover have "byAddr ?w' (in_addr (intab w l)) \<noteq> Some l"
    using f [of ps w2] by (simp add: w2_def upd_in_def w1_def)
  moreover have "\<forall>p \<in> set ps. ip_closeq (iptab ?w' p)" using f [of ps w2] by simp
  ultimately show ?thesis using r acc [of l] by (auto simp: ps_def)
qed

section \<open>The mutex that is not released\<close>

text \<open>After a dial with the wrong protocol nobody can use inproc any more.\<close>

lemma ip_Dial_bad_proto:
  assumes "ip_Dial addr proto w = Ret (IpErr ErrBadProto, w')"
  shows "in_mx w'" and "ip_Dial a p w' = Block" and "ip_Listen l w' = Block"
    and "ip_Accept_start l w' = Block" and "ip_Close_listener l w' = Block"
proof -
  show m: "in_mx w'"
    using assms by (auto simp: ip_Dial_def ip_newpipe_def new_chan_def Let_def split: if_splits option.splits)
  then show "ip_Dial a p w' = Block" "ip_Listen l w' = Block" "ip_Accept_start l w' = Block"
    "ip_Close_listener l w' = Block"
    by (simp_all add: ip_Dial_def ip_Listen_def ip_Accept_start_def ip_Close_listener_def ip_newpipe_def)
qed

section \<open>Sending and receiving\<close>

lemma ip_copy_body:
  assumes "ip_copy fresh m w = (n, w')" "pool_ok w" "live w m"
  shows "body (msgs w' n) = hdr_bytes (msgs w m) @ body (msgs w m)" and "hdr (msgs w' n) = Some []"
    and "n \<noteq> m" and "msgs w' m = msgs w m" and "iptab w' = iptab w" and "chans w' = chans w"
proof -
  let ?len = "length (hdr_bytes (msgs w m)) + length (body (msgs w m))"
  obtain w1 where nm: "NewMessage fresh ?len w = (n, w1)"
    and w': "w' = set_body n (body (msgs (set_body n (body (msgs w1 n) @ hdr_bytes (msgs w m)) w1) n) @ body (msgs w m))
        (set_body n (body (msgs w1 n) @ hdr_bytes (msgs w m)) w1)"
    using assms(1) by (auto simp: ip_copy_def Let_def split: prod.splits)
  note f = NewMessage_fields [OF nm] and fresh = NewMessage_fresh [OF nm assms(2)]
  show "n \<noteq> m" using fresh(1) assms(3) by auto
  then show "msgs w' m = msgs w m"
    using NewMessage_frame [OF nm, of m] by (simp add: w' set_body_def)
  show "body (msgs w' n) = hdr_bytes (msgs w m) @ body (msgs w m)" "hdr (msgs w' n) = Some []"
    using f by (simp_all add: w' set_body_def)
  have "iptab w1 = iptab w \<and> chans w1 = chans w"
    using nm by (auto simp: NewMessage_unfold split: option.splits if_splits)
  then show "iptab w' = iptab w" "chans w' = chans w" by (simp_all add: w' set_body_def)
qed

text \<open>
  What one pipe sends the other receives: header and body arrive as the body of a message
  of its own with an empty header. The sender's message keeps its reference.
\<close>

lemma ip_Send_Recv:
  assumes "ip_peer (iptab w p) = Some q" "ip_peer (iptab w q) = Some p"
    and "ip_wq (iptab w p) = Some c" "ip_rq (iptab w q) = Some c"
    and "\<not> cclosed (chans w c)" "cbuf (chans w c) = []" "chan_room (chans w c)"
    and "\<not> ip_closeq (iptab w p)" "\<not> ip_closeq (iptab w q)" "\<not> Expired now (msgs w m)"
    and "pool_ok w" "live w m"
  shows "\<exists>n w1 w2. ip_Send fresh now pick p m w = Ret (None, w1) \<and> ip_Recv pick q w1 = Ret (Inr n, w2) \<and>
    body (msgs w2 n) = hdr_bytes (msgs w m) @ body (msgs w m) \<and> hdr (msgs w2 n) = Some [] \<and>
    msgs w2 m = msgs w m \<and> n \<noteq> m"
proof -
  obtain n w' where cp: "ip_copy fresh m w = (n, w')" by fastforce
  note C = ip_copy_body [OF cp assms(11,12)]
  have s: "ip_Send fresh now pick p m w = Ret (None, push_on c n w')"
    using assms(1,3,5,7-10) cp C(5,6)
    by (simp add: ip_Send_def go_select_def q_send_ready_def peer_closed_def chan_cases)
  have r: "ip_Recv pick q (push_on c n w') = Ret (Inr n, pop_on c (push_on c n w'))"
    using assms(2,4,6,8,9) C(5,6)
    by (simp add: ip_Recv_def go_select_def q_recv_ready_def peer_closed_def chan_cases push_on_def)
  show ?thesis
    using s r C by (intro exI conjI) (assumption | simp add: pop_on_def push_on_def)+
qed

section \<open>Addresses and options\<close>

text \<open>
  A dialer or listener is made exactly for addresses of the scheme, and its address prints
  as what follows the scheme.
\<close>

lemma ip_NewDialer_iff: "ip_NewDialer a proto = Inr d \<longleftrightarrow> d = (a, proto) \<and> a = ''inproc://'' @ addr_String a"
proof -
  have "take 9 a = ''inproc://'' \<longleftrightarrow> a = ''inproc://'' @ drop 9 a"
    using append_take_drop_id [of 9 a] by (metis append_same_eq)
  moreover have "a \<noteq> ''inproc://'' @ a"
  proof
    assume "a = ''inproc://'' @ a"
    then have "length a = 9 + length a" using arg_cong [of a "''inproc://'' @ a" length] by simp
    then show False by simp
  qed
  ultimately show ?thesis
    by (auto simp: ip_NewDialer_def StripScheme_def addr_String_def Let_def eval_nat_numeral)
qed

end
