(* ===== verification/Compat.thy ===== *)
theory Compat
  imports Dial
begin

text \<open>
  compat/compat.go: the nanomsg-like wrapper around a socket. Its state is the wrapper's
  fields next to the socket's; \<open>proto\<close> is the protocol chosen by \<^verbatim>\<open>NewSocket\<close>'s switch.
\<close>

section \<open>State\<close>

record compat =
  cp_proto :: u16
  cp_dom :: int
  cp_rto :: dur
  cp_sto :: dur

datatype cerr = CErr err | CNotSup | CNoFlag | CBadDomain

definition AF_SP :: int where "AF_SP = 0"
definition AF_SP_RAW :: int where "AF_SP_RAW = 1"

text \<open>The protocols of the switch in \<^verbatim>\<open>NewSocket\<close>\<close>

definition compat_protos :: "u16 list" where
  "compat_protos = [ProtoPub, ProtoSub, ProtoPush, ProtoPull, ProtoReq, ProtoRep, ProtoSurveyor,
     ProtoRespondent, ProtoPair, ProtoBus]"

section \<open>Operations\<close>

text \<open>
  \<^verbatim>\<open>NewSocket\<close>; \<open>s\<close> is the fresh socket of the protocol \<open>proto\<close>, \<open>p\<close> the number asked for and
  \<open>cls\<close> the socket's \<^verbatim>\<open>Close\<close>. \<open>addt\<close> adds the transports.
\<close>

definition compat_NewSocket ::
  "'a socket_scheme protocol_ops \<Rightarrow> ('a socket_scheme \<Rightarrow> 'a socket_scheme run) \<Rightarrow>
   ('a socket_scheme \<Rightarrow> 'a socket_scheme) \<Rightarrow> int \<Rightarrow> u16 \<Rightarrow> 'a socket_scheme \<Rightarrow>
   ((cerr + compat) \<times> 'a socket_scheme) run" where
  "compat_NewSocket proto cls addt d p s =
     (if p \<notin> set compat_protos then Ret (Inl (CErr ErrBadProto), s)
      else
        run_bind
          (if d = AF_SP then Ret (None, s)
           else if d = AF_SP_RAW then
             run_bind (sock_SetOption proto OptionRaw (VBool True) s) (\<lambda>(e, s1). Ret (map_option CErr e, s1))
           else Ret (Some CBadDomain, s)) (\<lambda>(e, s1).
        case e of
          Some x \<Rightarrow> run_bind (cls s1) (\<lambda>s2. Ret (Inl x, s2))
        | None \<Rightarrow>
            run_bind (sock_SetOption proto OptionWriteQLen (VInt 0) s1) (\<lambda>(e2, s2).
              case e2 of
                Some x \<Rightarrow> run_bind (cls s2) (\<lambda>s3. Ret (Inl (CErr x), s3))
              | None \<Rightarrow> Ret (Inr \<lparr>cp_proto = p, cp_dom = d, cp_rto = -1, cp_sto = -1\<rparr>, addt s2))))"

text \<open>
  The switch on a timeout: a positive one is passed on as a duration, zero and negative ones
  as the untyped constants -1 and 0, which become int values.
\<close>

definition compat_deadline :: "dur \<Rightarrow> goval" where
  "compat_deadline t = (if t > 0 then VDur t else if t = 0 then VInt (-1) else VInt 0)"

definition compat_Recv ::
  "'a socket_scheme protocol_ops \<Rightarrow> inst \<Rightarrow> (inst \<times> recv_arm) list \<Rightarrow> int \<Rightarrow> compat \<Rightarrow> 'a socket_scheme \<Rightarrow>
   ((cerr + bytes) \<times> 'a socket_scheme) run" where
  "compat_Recv proto now rounds flags c s =
     (if flags \<noteq> 0 then Ret (Inl CNoFlag, s)
      else
        run_bind (sock_SetOption proto OptionRecvDeadline (compat_deadline (cp_rto c)) s) (\<lambda>(_, s1).
        run_bind (RecvMsg proto now rounds s1) (\<lambda>(r, s2).
        case r of
          Inl e \<Rightarrow> Ret (Inl (CErr e), s2)
        | Inr m \<Rightarrow>
            let b = (if cp_dom c = AF_SP_RAW then hdr_bytes (msgs s2 m) @ body (msgs s2 m)
                     else body (msgs s2 m))
            in Ret (Inr b, Free m s2))))"

definition compat_Send ::
  "'a socket_scheme protocol_ops \<Rightarrow> mref \<Rightarrow> inst \<Rightarrow> inst \<Rightarrow> send_arm \<Rightarrow> bytes \<Rightarrow> int \<Rightarrow> compat \<Rightarrow>
   'a socket_scheme \<Rightarrow> ((int \<times> cerr option) \<times> 'a socket_scheme) run" where
  "compat_Send proto fresh now t pick b flags c s =
     (if flags \<noteq> 0 then Ret ((-1, Some CNoFlag), s)
      else
        let (m, s1) = NewMessage fresh (length b) s;
            s2 = set_body m (body (msgs s1 m) @ b) s1
        in run_bind (sock_SetOption proto OptionSendDeadline (compat_deadline (cp_sto c)) s2) (\<lambda>(_, s3).
           run_bind (SendMsg proto now t pick m s3) (\<lambda>(e, s4).
             Ret ((int (length b), map_option CErr e), s4))))"

definition compat_Bind ::
  "('a socket_scheme \<Rightarrow> err option \<times> 'a socket_scheme) \<Rightarrow> string \<Rightarrow> 'a socket_scheme \<Rightarrow> (err + string) \<times> 'a socket_scheme" where
  "compat_Bind listen addr s =
     (case listen s of (Some e, s1) \<Rightarrow> (Inl e, s1) | (None, s1) \<Rightarrow> (Inr addr, s1))"

definition compat_Connect ::
  "(nat \<Rightarrow> string \<Rightarrow> 'a socket_scheme \<Rightarrow> (err + nat) \<times> 'a socket_scheme) \<Rightarrow>
   (nat \<Rightarrow> string \<Rightarrow> goval \<Rightarrow> 'a socket_scheme \<Rightarrow> err option \<times> 'a socket_scheme) \<Rightarrow>
   string \<Rightarrow> 'a socket_scheme \<Rightarrow> (err + string) \<times> 'a socket_scheme" where
  "compat_Connect tnew tset addr s =
     (case sock_NewDialer tnew tset addr [] s of
        (Inl e, s1) \<Rightarrow> (Inl e, s1)
      | (Inr d, s1) \<Rightarrow>
         (case dialer_Dial d s1 of (Some e, s2) \<Rightarrow> (Inl e, s2) | (None, s2) \<Rightarrow> (Inr addr, s2)))"

definition compat_SetSendTimeout :: "dur \<Rightarrow> compat \<Rightarrow> compat" where
  "compat_SetSendTimeout d c = c\<lparr>cp_sto := d\<rparr>"

definition compat_SetRecvTimeout :: "dur \<Rightarrow> compat \<Rightarrow> compat" where
  "compat_SetRecvTimeout d c = c\<lparr>cp_rto := d\<rparr>"

section \<open>Facts\<close>

text \<open>
  With the default timeouts, and with any timeout that is not positive, both calls panic in
  the type assertion of the core's \<^verbatim>\<open>SetOption\<close>, for every protocol.
\<close>

lemma compat_Recv_panics:
  assumes "protocol_impl proto" "cp_rto c \<le> 0"
  shows "compat_Recv proto now rounds 0 c s = Panic"
proof -
  have "sock_SetOption proto OptionRecvDeadline (compat_deadline (cp_rto c)) s = Panic"
    using assms(2) by (intro protocol_impl.wrong_deadline_panics [OF assms(1)]) (auto simp: compat_deadline_def split: if_splits)
  then show ?thesis by (simp add: compat_Recv_def)
qed

lemma compat_Send_panics:
  assumes "protocol_impl proto" "cp_sto c \<le> 0"
  shows "compat_Send proto fresh now t pick b 0 c s = Panic"
proof -
  have "sock_SetOption proto OptionSendDeadline (compat_deadline (cp_sto c)) u = Panic" for u
    using assms(2) by (intro protocol_impl.wrong_deadline_panics [OF assms(1)]) (auto simp: compat_deadline_def split: if_splits)
  then show ?thesis by (simp add: compat_Send_def case_prod_unfold Let_def)
qed

lemma compat_NewSocket_defaults:
  assumes "compat_NewSocket proto cls addt d p s = Ret (Inr c, s')"
  shows "cp_rto c = -1" "cp_sto c = -1" "cp_dom c = d" "cp_proto c = p" "d = AF_SP \<or> d = AF_SP_RAW"
  using assms
  by (auto simp: compat_NewSocket_def run_bind_Ret_iff split: if_splits option.splits prod.splits)

text \<open>With a positive timeout a received message is handed out, in raw mode with its header.\<close>

lemma compat_Recv_positive:
  assumes "0 < cp_rto c" "protocol_impl proto"
    and "RecvMsg proto now rounds (s\<lparr>rdeadline := cp_rto c\<rparr>) = Ret (Inr m, s2)"
  shows "compat_Recv proto now rounds 0 c s =
    Ret (Inr (if cp_dom c = AF_SP_RAW then hdr_bytes (msgs s2 m) @ body (msgs s2 m) else body (msgs s2 m)), Free m s2)"
proof -
  have "op_SetOption proto OptionRecvDeadline (VDur (cp_rto c)) s = (Some ErrBadOption, s)"
    by (rule protocol_impl.set_core [OF assms(2)]) (simp add: core_options_def)
  then have "sock_SetOption proto OptionRecvDeadline (VDur (cp_rto c)) s = Ret (None, s\<lparr>rdeadline := cp_rto c\<rparr>)"
    by (simp add: sock_SetOption_def)
  with assms(1,3) show ?thesis by (simp add: compat_Recv_def compat_deadline_def)
qed

end
