(* ===== verification/Compat_Sockets.thy ===== *)
theory Compat_Sockets
  imports Compat Fresh_Sockets
begin

text \<open>
  The rest of compat/compat.go: the constructors of the typed sockets, each of which makes a
  socket of its protocol, the calls that only report what was set or that they are not
  supported, and the calls specific to SUB and SURVEYOR sockets. \<open>cls\<close> is the socket's
  Close, \<open>addt\<close> adds the transports.
\<close>

section \<open>Calls of every socket\<close>

text \<open>\<open>so\<close> is the wrapped socket, \<open>None\<close> when it is nil; the error of Close is dropped.\<close>

definition compat_Close :: "('s \<Rightarrow> (err option \<times> 's) run) \<Rightarrow> 's option \<Rightarrow> (cerr option \<times> 's option) run" where
  "compat_Close close so =
     (case so of
        None \<Rightarrow> Ret (None, None)
      | Some s \<Rightarrow> run_bind (close s) (\<lambda>(e, s1). Ret (None, Some s1)))"

definition compat_Protocol :: "compat \<Rightarrow> u16 \<times> cerr option" where
  "compat_Protocol c = (cp_proto c, None)"

definition compat_Domain :: "compat \<Rightarrow> int \<times> cerr option" where
  "compat_Domain c = (cp_dom c, None)"

definition compat_SendTimeout :: "compat \<Rightarrow> dur \<times> cerr option" where
  "compat_SendTimeout c = (cp_sto c, None)"

definition compat_RecvTimeout :: "compat \<Rightarrow> dur \<times> cerr option" where
  "compat_RecvTimeout c = (cp_rto c, None)"

definition compat_RecvFd :: "nat \<times> cerr option" where "compat_RecvFd = (0, Some CNotSup)"
definition compat_SendFd :: "nat \<times> cerr option" where "compat_SendFd = (0, Some CNotSup)"
definition compat_SendPrio :: "int \<times> cerr option" where "compat_SendPrio = (0, Some CNotSup)"
definition compat_SetSendPrio :: "int \<Rightarrow> cerr option" where "compat_SetSendPrio i = Some CNotSup"
definition compat_Linger :: "dur \<times> cerr option" where "compat_Linger = (0, Some CNotSup)"
definition compat_SetLinger :: "dur \<Rightarrow> cerr option" where "compat_SetLinger d = Some CNotSup"
definition compat_Shutdown :: "string \<Rightarrow> cerr option" where "compat_Shutdown ep = Some CNotSup"

section \<open>Typed sockets\<close>

type_synonym 's compat_new =
  "('s \<Rightarrow> 's run) \<Rightarrow> ('s \<Rightarrow> 's) \<Rightarrow> ((cerr + compat) \<times> 's) run"

definition compat_NewBusSocket :: "bus compat_new" where
  "compat_NewBusSocket cls addt = compat_NewSocket bus_ops cls addt AF_SP ProtoBus (bus_NewSocket zero_bus)"

definition compat_NewPairSocket :: "pair compat_new" where
  "compat_NewPairSocket cls addt = compat_NewSocket pair_ops cls addt AF_SP ProtoPair (pair_NewSocket zero_pair)"

definition compat_NewPubSocket :: "pub compat_new" where
  "compat_NewPubSocket cls addt = compat_NewSocket pub_ops cls addt AF_SP ProtoPub (pub_NewSocket zero_pub)"

definition compat_NewPullSocket :: "pull compat_new" where
  "compat_NewPullSocket cls addt = compat_NewSocket pull_ops cls addt AF_SP ProtoPull (pull_NewSocket zero_pull)"

definition compat_NewPushSocket :: "push compat_new" where
  "compat_NewPushSocket cls addt = compat_NewSocket push_ops cls addt AF_SP ProtoPush (push_NewSocket zero_push)"

definition compat_NewRepSocket :: "rep compat_new" where
  "compat_NewRepSocket cls addt = compat_NewSocket rep_ops cls addt AF_SP ProtoRep (rep_NewSocket zero_rep)"

definition compat_NewRespondentSocket :: "resp compat_new" where
  "compat_NewRespondentSocket cls addt = compat_NewSocket resp_ops cls addt AF_SP ProtoRespondent (resp_NewSocket zero_resp)"

definition compat_NewSubSocket :: "sub compat_new" where
  "compat_NewSubSocket cls addt = compat_NewSocket sub_ops cls addt AF_SP ProtoSub (sub_NewSocket zero_sub)"

definition compat_NewSurveyorSocket :: "surveyor compat_new" where
  "compat_NewSurveyorSocket cls addt = compat_NewSocket sv_ops cls addt AF_SP ProtoSurveyor (sv_NewSocket zero_surveyor)"

text \<open>\<open>now\<close> is the clock reading that seeds the request identifiers.\<close>

definition compat_NewReqSocket :: "u32 \<Rightarrow> req compat_new" where
  "compat_NewReqSocket now cls addt =
     compat_NewSocket (req_ops now) cls addt AF_SP ProtoReq (req_NewSocket now zero_req)"

section \<open>SUB and SURVEYOR\<close>

definition compat_Subscribe :: "string \<Rightarrow> sub \<Rightarrow> (err option \<times> sub) run" where
  "compat_Subscribe topic s = sock_SetOption sub_ops OptionSubscribe (VStr topic) s"

definition compat_Unsubscribe :: "string \<Rightarrow> sub \<Rightarrow> (err option \<times> sub) run" where
  "compat_Unsubscribe topic s = sock_SetOption sub_ops OptionUnsubscribe (VStr topic) s"

definition compat_Deadline :: "surveyor \<Rightarrow> (dur \<times> err option) run" where
  "compat_Deadline s =
     (case sock_GetOption sv_ops OptionSurveyTime s of
        Inl e \<Rightarrow> Ret (0, Some e)
      | Inr (VDur d) \<Rightarrow> Ret (d, None)
      | Inr _ \<Rightarrow> Panic)"

definition compat_SetDeadline :: "dur \<Rightarrow> surveyor \<Rightarrow> (err option \<times> surveyor) run" where
  "compat_SetDeadline d s = sock_SetOption sv_ops OptionSurveyTime (VDur d) s"

section \<open>Facts\<close>

text \<open>
  On a fresh socket of any protocol \<^verbatim>\<open>NewSocket\<close> succeeds, and makes the send queue
  unbuffered, so that a send without a peer times out.
\<close>

lemma compat_NewSocket_fresh:
  assumes "protocol_impl proto" "p \<in> set compat_protos"
    and "\<not> active s" "\<not> cclosed (chans s (uwq s))" "uwq s < nextc s"
  shows "\<exists>c s'. compat_NewSocket proto cls addt AF_SP p s = Ret (Inr c, addt s') \<and> cp_proto c = p \<and>
    cp_dom c = AF_SP \<and> uwqLen s' = 0 \<and> ccap (chans s' (uwq s')) = 0"
proof -
  have "op_SetOption proto OptionWriteQLen (VInt 0) s = (Some ErrBadOption, s)"
    by (rule protocol_impl.set_core [OF assms(1)]) (simp add: core_options_def)
  then have "\<exists>s'. sock_SetOption proto OptionWriteQLen (VInt 0) s = Ret (None, s') \<and> uwqLen s' = 0 \<and>
      ccap (chans s' (uwq s')) = 0"
    using assms(3-5) by (simp add: sock_SetOption_def option_name new_chan_def ch_close_cases close_on_def Let_def)
  with assms(2) show ?thesis by (auto simp: compat_NewSocket_def)
qed

lemma compat_Deadline_set:
  "\<exists>s'. compat_SetDeadline d s = Ret (None, s') \<and> compat_Deadline s' = Ret (d, None)"
  by (simp add: compat_SetDeadline_def compat_Deadline_def sock_SetOption_def sock_GetOption_def core_GetOption_def
      sv_ops_def sv_SetOption_def sv_GetOption_def option_name)

lemma compat_Subscribe_topic:
  assumes "distinct (subs s)"
  shows "\<exists>s'. compat_Subscribe topic s = Ret (None, s') \<and> distinct (subs s') \<and>
    set (subs s') = insert (string_bytes topic) (set (subs s))"
  using assms
  by (auto simp: compat_Subscribe_def sock_SetOption_def sub_ops_def sub_SetOption_def option_name sub_present_iff)

end
