(* ===== verification/Wire_Laws.thy ===== *)
theory Wire_Laws
  imports Ipc_Windows Macat Inproc Compat_Sockets
begin

text \<open>
  Properties of what passes between processes and of the outer interfaces: frames on a
  stream connection, the handshake, peering, redialling, the in-process and the websocket
  transport, the compatibility layer and what macat prints.
\<close>

section \<open>Frames\<close>

definition open_conn :: "bytes \<Rightarrow> conn" where
  "open_conn b = \<lparr>k_in = b, k_rerr = ErrEOF, k_out = [], k_werr = None, k_closed = False, k_open = True,
     k_maxrx = 0, k_props = Map.empty\<rparr>"

text \<open>
  C32: Messages sent on a connection arrive at the other end in order and with their bytes
  intact: if the receiver reads what the sender wrote (and perhaps more), receiving as many
  messages as were sent yields each message's header and body, joined, and leaves the rest
  of the stream untouched.
\<close>

theorem frames_round_trip:
  assumes "distinct ms" "k_werr k1 = None" "k_out k1 = []" "\<forall>m \<in> set ms. \<not> Expired now (msgs s1 m)"
    and "k_in k2 = k_out (fst (send_all now ms k1 s1)) @ rest" "length picks = length ms"
    and "\<forall>m \<in> set ms. let n = int (length (hdr_bytes (msgs s1 m) @ body (msgs s1 m)))
          in n < 2 ^ 63 \<and> (k_maxrx k2 = 0 \<or> n \<le> k_maxrx k2)"
  shows "\<exists>s'. recv_all picks k2 s2 =
    Ret (map (\<lambda>m. hdr_bytes (msgs s1 m) @ body (msgs s1 m)) ms, k2\<lparr>k_in := rest\<rparr>, s')"
proof -
  let ?bs = "map (\<lambda>m. hdr_bytes (msgs s1 m) @ body (msgs s1 m)) ms"
  have "k_in k2 = concat (map frame ?bs) @ rest"
    using send_all_frames [OF assms(1,2,4)] assms(3,5) by (simp add: comp_def)
  moreover have "\<forall>b \<in> set ?bs. int (length b) < 2 ^ 63 \<and> (k_maxrx k2 = 0 \<or> int (length b) \<le> k_maxrx k2)"
    using assms(7) by (auto simp: Let_def)
  ultimately show ?thesis using assms(6) by (intro recv_all_frames) simp_all
qed

definition two_messages :: rep where
  "two_messages = zero_rep\<lparr>msgs := (\<lambda>i. (newMsg 8)\<lparr>refcnt := 1, hdr := Some [0], body := (if i = 0 then [1, 2] else [3])\<rparr>)\<rparr>"

theorem frames_round_trip_witness:
  "\<exists>s'. recv_all [0, 0] (open_conn (k_out (fst (send_all 5 [0, 1] (open_conn []) two_messages)) @ [9])) zero_rep =
    Ret (map (\<lambda>m. hdr_bytes (msgs two_messages m) @ body (msgs two_messages m)) [0, 1],
      (open_conn (k_out (fst (send_all 5 [0, 1] (open_conn []) two_messages)) @ [9]))\<lparr>k_in := [9]\<rparr>, s')"
  by (rule frames_round_trip) (simp_all add: open_conn_def two_messages_def Expired_def hdr_bytes_def)



section \<open>Peering\<close>

text \<open>
  C34: Two ends of a connection that exchange their headers both complete the handshake
  exactly when their protocols are valid peers.
\<close>

theorem handshake_iff_valid_peers:
  assumes "fst (set_props props1 (addr_props la1 ra1))" "fst (set_props props2 (addr_props la2 ra2))"
    and "k_werr k1 = None" "k_werr k2 = None"
    and "sock_GetOption p1 OptionMaxRecvSize s1 = Inr (VInt n1)" "sock_GetOption p2 OptionMaxRecvSize s2 = Inr (VInt n2)"
    and "k_in k1 = hdr_encode (my_header (op_Number p2)) @ r1" "k_in k2 = hdr_encode (my_header (op_Number p1)) @ r2"
  shows "((\<exists>k. handshake p1 props1 la1 ra1 k1 s1 = Ret (None, k)) \<and>
     (\<exists>k. handshake p2 props2 la2 ra2 k2 s2 = Ret (None, k))) \<longleftrightarrow> ValidPeers p1 p2"
proof -
  from handshake_valid_peers [OF assms(1,3,5,7)] handshake_valid_peers [OF assms(2,4,6,8)]
  show ?thesis by (auto simp: ValidPeers_iff split: if_splits)
qed

theorem handshake_iff_valid_peers_witness:
  "((\<exists>k. handshake rep_ops [] (VOther 1) (VOther 2) (open_conn (hdr_encode (my_header (op_Number (req_ops 0))) @ []))
       zero_rep = Ret (None, k)) \<and>
    (\<exists>k. handshake (req_ops 0) [] (VOther 2) (VOther 1) (open_conn (hdr_encode (my_header (op_Number rep_ops)) @ []))
       zero_req = Ret (None, k))) \<longleftrightarrow> ValidPeers rep_ops (req_ops 0)"
  by (rule handshake_iff_valid_peers)
     (simp_all add: open_conn_def sock_GetOption_def core_GetOption_def rep_ops_def rep_GetOption_def
        req_ops_def req_GetOption_def option_name)









section \<open>Redialling\<close>

text \<open>
  C36: The time between attempts to redial doubles from its start and never exceeds the
  maximum, for maxima up to 146 years: after \<open>k\<close> failures it is the lesser of \<open>2 ^ k\<close> times
  the start and the maximum, although the code doubles a 64-bit integer.
\<close>

theorem redial_backoff:
  assumes "0 < rt" "rt \<le> rtmax" "rtmax < 2 ^ 62"
  shows "(next_rtime rtmax ^^ k) rt = min (2 ^ k * rt) rtmax"
  using assms by (rule next_rtime_iterate)

theorem redial_backoff_witness: "(next_rtime 60000000000 ^^ 5) 100000000 = 3200000000"
  using redial_backoff [of 100000000 60000000000 5] by simp

section \<open>The in-process transport\<close>

definition world0 :: inworld where
  "world0 = \<lparr>msgs = (\<lambda>_. newMsg 0), nextm = 0, mpool = [], chans = (\<lambda>_. make_chan 0), nextc = 0,
     ptab = ptab zero_rep, nextp = 0, byid = Map.empty, nextid = 0, gos = [],
     iptab = (\<lambda>_. \<lparr>ip_rq = None, ip_wq = None, ip_closeq = False, ip_readyq = False, ip_proto = (0, 0),
       ip_addr = [], ip_peer = None\<rparr>),
     nextip = 0, intab = (\<lambda>_. \<lparr>in_addr = [], in_proto = (0, 0), in_accepters = []\<rparr>), nextin = 0,
     byAddr = Map.empty, in_mx = False\<rparr>"

text \<open>
  A message sent on an in-process pipe arrives at the other end as a different message
  with an empty header and the sender's header and body as its body; the sender's message is
  not touched, so the two ends never share one.
\<close>

theorem inproc_delivers_a_copy:
  assumes "ip_peer (iptab w p) = Some q" "ip_peer (iptab w q) = Some p"
    and "ip_wq (iptab w p) = Some c" "ip_rq (iptab w q) = Some c"
    and "\<not> cclosed (chans w c)" "cbuf (chans w c) = []" "chan_room (chans w c)"
    and "\<not> ip_closeq (iptab w p)" "\<not> ip_closeq (iptab w q)" "\<not> Expired now (msgs w m)"
    and "pool_ok w" "live w m"
  shows "\<exists>n w1 w2. ip_Send fresh now pick p m w = Ret (None, w1) \<and> ip_Recv pick q w1 = Ret (Inr n, w2) \<and>
    body (msgs w2 n) = hdr_bytes (msgs w m) @ body (msgs w m) \<and> hdr (msgs w2 n) = Some [] \<and>
    msgs w2 m = msgs w m \<and> n \<noteq> m"
  using assms by (rule ip_Send_Recv)

text \<open>Two connected ends, 0 and 1, and a message.\<close>

definition connected :: inworld where
  "connected = world0\<lparr>msgs := (\<lambda>_. (newMsg 8)\<lparr>refcnt := 1, hdr := Some [1], body := [2, 3]\<rparr>), nextm := 1,
     iptab := (\<lambda>i. \<lparr>ip_rq = Some (if i = 0 then 0 else 1), ip_wq = Some (if i = 0 then 1 else 0), ip_closeq = False,
       ip_readyq = True, ip_proto = (48, 49), ip_addr = ''a'', ip_peer = Some (1 - i)\<rparr>),
     chans := (\<lambda>_. (make_chan 0)\<lparr>crxwait := 1\<rparr>)\<rparr>"

theorem inproc_delivers_a_copy_witness:
  "\<exists>n w1 w2. ip_Send 0 7 IQueue 0 0 connected = Ret (None, w1) \<and> ip_Recv IQueue 1 w1 = Ret (Inr n, w2) \<and>
    body (msgs w2 n) = hdr_bytes (msgs connected 0) @ body (msgs connected 0) \<and> hdr (msgs w2 n) = Some [] \<and>
    msgs w2 0 = msgs connected 0 \<and> n \<noteq> 0"
  by (rule inproc_delivers_a_copy [where c = 1])
     (simp_all add: connected_def world0_def chan_room_def Expired_def pool_ok_def live_def)

text \<open>
  C37: A dial that finds a listener of the wrong protocol returns \<^verbatim>\<open>ErrBadProto\<close> and keeps
  the transport's global mutex: afterwards every dial, listen, accept and close of a
  listener in the process blocks forever.
\<close>

theorem inproc_bad_proto_deadlocks:
  assumes "\<not> in_mx w" "byAddr w addr = Some l"
    and "fst proto \<noteq> snd (in_proto (intab w l)) \<or> fst (in_proto (intab w l)) \<noteq> snd proto"
  shows "\<exists>w'. ip_Dial addr proto w = Ret (IpErr ErrBadProto, w') \<and>
    (\<forall>a p l. ip_Dial a p w' = Block \<and> ip_Listen l w' = Block \<and> ip_Accept_start l w' = Block \<and>
      ip_Close_listener l w' = Block)"
proof -
  obtain w' where w': "ip_Dial addr proto w = Ret (IpErr ErrBadProto, w')"
    using assms by (auto simp: ip_Dial_def ip_newpipe_def Let_def split: prod.splits)
  with ip_Dial_bad_proto [OF w'] show ?thesis by blast
qed

theorem inproc_bad_proto_deadlocks_witness:
  "\<exists>w'. ip_Dial ''a'' (48, 49) (world0\<lparr>byAddr := [''a'' \<mapsto> 0]\<rparr>) = Ret (IpErr ErrBadProto, w') \<and>
    (\<forall>a p l. ip_Dial a p w' = Block \<and> ip_Listen l w' = Block \<and> ip_Accept_start l w' = Block \<and>
      ip_Close_listener l w' = Block)"
  by (rule inproc_bad_proto_deadlocks) (simp_all add: world0_def)

section \<open>The compatibility layer\<close>

text \<open>
  C38: A socket of the compatibility layer cannot receive or send with its default time-outs:
  they are negative, so an untyped constant is passed as the deadline, and the core's type
  assertion to a duration panics; for every protocol.
\<close>

theorem compat_defaults_panic:
  assumes "protocol_impl proto" "compat_NewSocket proto cls addt d p s = Ret (Inr c, s')"
  shows "compat_Recv proto now rounds 0 c s1 = Panic \<and> compat_Send proto fresh now t pick b 0 c s2 = Panic"
  using compat_Recv_panics [OF assms(1)] compat_Send_panics [OF assms(1)]
    compat_NewSocket_defaults(1,2) [OF assms(2)]
  by simp

theorem compat_defaults_panic_witness:
  "\<exists>c s'. compat_NewSocket pair_ops Ret id AF_SP ProtoPair (pair_NewSocket zero_pair) = Ret (Inr c, s') \<and>
    compat_Recv pair_ops 0 [] 0 c s' = Panic \<and> compat_Send pair_ops 0 0 0 SSend [1] 0 c s' = Panic"
proof -
  obtain c s' where new: "compat_NewSocket pair_ops Ret id AF_SP ProtoPair (pair_NewSocket zero_pair) = Ret (Inr c, s')"
    by (simp add: compat_NewSocket_def compat_protos_def AF_SP_def sock_SetOption_def pair_SetOption_def option_name
        ch_close_cases pair_fresh)
  from compat_defaults_panic [OF pair.protocol_impl_axioms new] new show ?thesis by blast
qed

section \<open>Websocket listeners\<close>




section \<open>What macat prints\<close>

text \<open>
  C40: What macat prints in its quoted and its msgpack format can be read back: a reader of
  the format recovers exactly the messages that the receive loop got, in their order and
  whatever bytes they hold.
\<close>

theorem macat_output_decodes:
  assumes "mc_recvLoop proto fmt ins s = Ret (c, out, s')" "fmt = ''quoted'' \<or> fmt = ''msgpack''"
    and "\<forall>b \<in> set (mc_received proto ins s). length b < 2 ^ 32"
  shows "read_all (if fmt = ''quoted'' then unquote else unpack) (length (mc_received proto ins s)) out =
    Some (mc_received proto ins s)"
proof -
  let ?rd = "if fmt = ''quoted'' then unquote else unpack"
  have "?rd (printMsg fmt b @ r) = Some (b, r)" if "b \<in> set (mc_received proto ins s)" for b r
    using assms(2,3) that by (auto simp: printMsg_def unquote_quoted unpack_msgpack)
  then have "read_all ?rd (length (mc_received proto ins s)) (concat (map (printMsg fmt) (mc_received proto ins s))) =
      Some (mc_received proto ins s)"
    by (rule read_all_written)
  with mc_recvLoop_prints [OF assms(1)] show ?thesis by simp
qed

text \<open>A pull socket with two messages to receive.\<close>

definition two_received :: pull where
  "two_received = (let s = pull_NewSocket zero_pull
     in push_on (urq s) 1 (push_on (urq s) 0 (s\<lparr>msgs := (\<lambda>i. (newMsg 8)\<lparr>refcnt := 1, body := (if i = 0 then [10, 0] else [3])\<rparr>)\<rparr>)))"

theorem macat_output_decodes_witness:
  "\<exists>c out s'. mc_recvLoop pull_ops ''msgpack'' [(0, [(0, RMsg)]), (0, [(0, RMsg)])] two_received = Ret (c, out, s') \<and>
    read_all unpack (Suc (Suc 0)) out = Some [[10, 0], [3]]"
proof -
  note defs = two_received_def pull_fresh RecvMsg_def RecvMsg_iter_def go_select_def chan_cases push_on_def pop_on_def
    upd_chan_def Free_eff Let_def
  have got: "mc_received pull_ops [(0, [(0, RMsg)]), (0, [(0, RMsg)])] two_received = [[10, 0], [3]]"
    by (simp add: defs)
  obtain c out s' where run: "mc_recvLoop pull_ops ''msgpack'' [(0, [(0, RMsg)]), (0, [(0, RMsg)])] two_received = Ret (c, out, s')"
    by (simp add: mc_recv_round_def defs)
  have "read_all unpack (Suc (Suc 0)) out = Some [[10, 0], [3]]"
    using macat_output_decodes [OF run, unfolded got] by (simp del: read_all.simps)
  with run show ?thesis by blast
qed

end
