(* ===== verification/All_Transports.thy ===== *)
theory All_Transports
  imports Ws
begin

text \<open>
  transport/wss, which hands everything on to the ws transport, and transport/all, which
  registers every transport of the repository with a socket.
\<close>

section \<open>Schemes\<close>

definition tcp_Scheme :: string where "tcp_Scheme = ''tcp''"
definition inproc_Scheme :: string where "inproc_Scheme = ''inproc''"
definition ipc_Scheme :: string where "ipc_Scheme = ''ipc''"
definition win_Scheme :: string where "win_Scheme = ''ipc''"
definition tls_Scheme :: string where "tls_Scheme = ''tls+tcp''"
definition ws_Scheme :: string where "ws_Scheme = ''ws''"
definition wss_Scheme :: string where "wss_Scheme = ''wss''"

lemmas schemes = tcp_Scheme_def inproc_Scheme_def ipc_Scheme_def tls_Scheme_def ws_Scheme_def wss_Scheme_def

section \<open>wss.go\<close>

definition wss_NewDialer :: "'a socket_scheme protocol_ops \<Rightarrow> string \<Rightarrow> 'a socket_scheme \<Rightarrow> ws_dialer run" where
  "wss_NewDialer proto addr s = ws_NewDialer proto addr s"

definition wss_NewListener ::
  "(string \<Rightarrow> err + (string \<Rightarrow> string) \<times> string \<times> string) \<Rightarrow> 'a socket_scheme protocol_ops \<Rightarrow> string \<Rightarrow> 'a socket_scheme \<Rightarrow>
   (err + 'c ws_listener) run" where
  "wss_NewListener parse proto addr s = ws_NewListener parse proto addr s"

section \<open>all.go\<close>

text \<open>\<open>t\<close> is the first of the six numbers of the new transports.\<close>

definition AddTransports :: "nat \<Rightarrow> 'a socket_scheme \<Rightarrow> 'a socket_scheme" where
  "AddTransports t s =
     (let s1 = AddTransport tcp_Scheme t s;
          s2 = AddTransport inproc_Scheme (t + 1) s1;
          s3 = AddTransport ipc_Scheme (t + 2) s2;
          s4 = AddTransport tls_Scheme (t + 3) s3;
          s5 = AddTransport ws_Scheme (t + 4) s4
      in AddTransport wss_Scheme (t + 5) s5)"

definition all_schemes :: "string list" where
  "all_schemes = [tcp_Scheme, inproc_Scheme, ipc_Scheme, tls_Scheme, ws_Scheme, wss_Scheme]"

text \<open>
  The schemes are different, so none hides another, and exactly the addresses of these
  schemes find a transport that the socket did not know before.
\<close>

lemma all_schemes_distinct: "distinct all_schemes" "sch \<in> set all_schemes \<Longrightarrow> CHR '':'' \<notin> set sch"
  by (auto simp: all_schemes_def schemes)

lemma AddTransports_other: "AddTransports t s = s\<lparr>transports := transports (AddTransports t s)\<rparr>"
  by (simp add: AddTransports_def AddTransport_def Let_def)

lemma AddTransports_known:
  assumes "i < 6"
  shows "getTransport (all_schemes ! i @ ''://'' @ rest) (AddTransports t s) = Some (t + i)"
proof -
  have i: "i < length all_schemes" using assms by (simp add: all_schemes_def)
  then have "scheme_of (all_schemes ! i @ ''://'' @ rest) = Some (all_schemes ! i)"
    by (intro scheme_of_plain all_schemes_distinct(2) nth_mem)
  moreover have "transports (AddTransports t s) (all_schemes ! i) = Some (t + i)"
    using assms by (auto simp: AddTransports_def AddTransport_def all_schemes_def schemes Let_def less_Suc_eq numeral_eq_Suc)
  ultimately show ?thesis by (simp add: getTransport_def)
qed

lemma AddTransports_unknown:
  assumes "\<And>sch. scheme_of addr = Some sch \<Longrightarrow> sch \<notin> set all_schemes"
  shows "getTransport addr (AddTransports t s) = getTransport addr s"
proof (cases "scheme_of addr")
  case (Some sch)
  then have "transports (AddTransports t s) sch = transports s sch"
    using assms [OF Some] by (auto simp: AddTransports_def AddTransport_def all_schemes_def Let_def)
  with Some show ?thesis by (simp add: getTransport_def)
qed (simp add: getTransport_def)

lemma NewDialer_unknown:
  assumes "transports s = Map.empty" "\<And>sch. scheme_of addr = Some sch \<Longrightarrow> sch \<notin> set all_schemes"
  shows "sock_NewDialer tnew tset addr opts (AddTransports t s) = (Inl ErrBadTran, AddTransports t s)"
proof -
  have "getTransport addr (AddTransports t s) = getTransport addr s" by (rule AddTransports_unknown) (rule assms(2))
  then have "getTransport addr (AddTransports t s) = None"
    using assms(1) by (simp add: getTransport_def split: option.splits)
  then show ?thesis by (simp add: sock_NewDialer_def)
qed

end
