(* ===== verification/Perf.thy ===== *)
theory Perf
  imports Macat All_Transports Pair_Link Rep Req
begin

text \<open>
  The measuring programs of src/perf: the command line, and the clients and servers that
  measure latency and throughput. A program is its set-up and its loop on a socket of the
  core; the methods of the socket's dialers and listeners are parameters, and so is what the
  clock, the selects and the message pool do in each round. What is printed is left out.
\<close>

section \<open>How a program ends\<close>

text \<open>
  \<open>EDone\<close> is the normal end and \<open>ERunning\<close> a loop whose rounds were not enough; the others
  are calls of \<^verbatim>\<open>log.Fatalf\<close>, which end the program without its deferred calls.
\<close>

datatype perf_end =
    EDone | ERunning | ESocket err | ELinger err | EOpen err | EStart err | ERecv err | ESize int | ESend err

section \<open>Setting up\<close>

text \<open>
  \<open>newl\<close>, \<open>setl\<close> and \<open>listen\<close> are NewListener, the listener's SetOption and its Listen; \<open>nd\<close> is
  the value of the no-delay option, whose error is ignored; \<open>lg\<close> says whether the linger time
  is set. The client's is the same with a dialer.
\<close>

definition perf_open ::
  "(string \<Rightarrow> (string \<times> goval) list \<Rightarrow> 'a socket_scheme \<Rightarrow> (err + nat) \<times> 'a socket_scheme) \<Rightarrow>
   (nat \<Rightarrow> string \<Rightarrow> goval \<Rightarrow> 'a socket_scheme \<Rightarrow> err option \<times> 'a socket_scheme) \<Rightarrow>
   (nat \<Rightarrow> 'a socket_scheme \<Rightarrow> err option \<times> 'a socket_scheme) \<Rightarrow>
   'a socket_scheme protocol_ops \<Rightarrow> bool \<Rightarrow> bool \<Rightarrow> string \<Rightarrow> 'a socket_scheme \<Rightarrow> (perf_end option \<times> 'a socket_scheme) run" where
  "perf_open newl setl listen proto nd lg addr s =
     (case newl addr [] s of
        (Inl e, s1) \<Rightarrow> Ret (Some (ESocket e), s1)
      | (Inr l, s1) \<Rightarrow>
          run_bind (let s2 = snd (setl l OptionNoDelay (VBool nd) s1)
                    in if lg then sock_SetOption proto OptionLinger (VDur second) s2 else Ret (None, s2)) (\<lambda>(e, s3).
            case e of
              Some x \<Rightarrow> Ret (Some (ELinger x), s3)
            | None \<Rightarrow> (case listen l s3 of (e, s4) \<Rightarrow> Ret (map_option EOpen e, s4))))"

text \<open>The body of a program between its set-up and its deferred \<^verbatim>\<open>s.Close()\<close>.\<close>

definition perf_run ::
  "('s \<Rightarrow> (err option \<times> 's) run) \<Rightarrow> (perf_end option \<times> 's) run \<Rightarrow> ('s \<Rightarrow> (perf_end \<times> 's) run) \<Rightarrow> (perf_end \<times> 's) run" where
  "perf_run close start loop =
     run_bind start (\<lambda>(f, s1).
       case f of
         Some x \<Rightarrow> Ret (x, s1)
       | None \<Rightarrow> run_bind (loop s1) (\<lambda>(e, s2).
           if e = EDone then run_bind (close s2) (\<lambda>(_, s3). Ret (EDone, s3)) else Ret (e, s2)))"

section \<open>latency.go and reqlatency.go\<close>

text \<open>
  The server's loop \<^verbatim>\<open>for i := 0; i != roundTrips; i++\<close>: receive, check the size, send the
  message back. The counter is an int64.
\<close>

type_synonym recv_in = "inst \<times> (inst \<times> recv_arm) list"
type_synonym send_in = "inst \<times> inst \<times> send_arm"

fun lat_serve ::
  "'a socket_scheme protocol_ops \<Rightarrow> int \<Rightarrow> int \<Rightarrow> (recv_in \<times> send_in) list \<Rightarrow> int \<Rightarrow> 'a socket_scheme \<Rightarrow>
   (perf_end \<times> 'a socket_scheme) run" where
  "lat_serve proto sz n [] i s = Ret (if i = n then EDone else ERunning, s)"
| "lat_serve proto sz n (((now, rounds), (snow, t, pick)) # ins) i s =
     (if i = n then Ret (EDone, s)
      else run_bind (RecvMsg proto now rounds s) (\<lambda>(r, s1).
        case r of
          Inl e \<Rightarrow> Ret (ERecv e, s1)
        | Inr m \<Rightarrow>
            if int (length (body (msgs s1 m))) \<noteq> sz then Ret (ESize (int (length (body (msgs s1 m)))), s1)
            else run_bind (SendMsg proto snow t pick m s1) (\<lambda>(e, s2).
              case e of Some x \<Rightarrow> Ret (ESend x, s2) | None \<Rightarrow> lat_serve proto sz n ins (wrap64 (i + 1)) s2)))"

text \<open>
  \<^verbatim>\<open>b[0:size]\<close>, where \<open>junk\<close> is what the backing array of \<open>b\<close> holds behind it. Beyond the
  capacity it panics.
\<close>

definition reslice :: "int \<Rightarrow> bytes \<Rightarrow> bytes \<Rightarrow> bytes run" where
  "reslice sz b junk =
     (if sz < 0 \<or> int (length b + length junk) < sz then Panic else Ret (take (nat sz) (b @ junk)))"

text \<open>
  The clients' loops \<^verbatim>\<open>for i := 0; i < roundTrips; i++\<close>: send the message, receive the next. The
  client of reqlatency.go first cuts header and body to size.
\<close>

fun lat_client ::
  "'a socket_scheme protocol_ops \<Rightarrow> int \<Rightarrow> (send_in \<times> recv_in) list \<Rightarrow> int \<Rightarrow> mref \<Rightarrow> 'a socket_scheme \<Rightarrow>
   (perf_end \<times> 'a socket_scheme) run" where
  "lat_client proto n [] i m s = Ret (if i < n then (ERunning, s) else (EDone, Free m s))"
| "lat_client proto n (((snow, t, pick), (now, rounds)) # ins) i m s =
     (if \<not> i < n then Ret (EDone, Free m s)
      else run_bind (SendMsg proto snow t pick m s) (\<lambda>(e, s1).
        case e of
          Some x \<Rightarrow> Ret (ESend x, s1)
        | None \<Rightarrow> run_bind (RecvMsg proto now rounds s1) (\<lambda>(r, s2).
            case r of
              Inl e \<Rightarrow> Ret (ERecv e, s2)
            | Inr m' \<Rightarrow> lat_client proto n ins (wrap64 (i + 1)) m' s2)))"

fun req_client ::
  "'a socket_scheme protocol_ops \<Rightarrow> int \<Rightarrow> int \<Rightarrow> (bytes \<times> send_in \<times> recv_in) list \<Rightarrow> int \<Rightarrow> mref \<Rightarrow> 'a socket_scheme \<Rightarrow>
   (perf_end \<times> 'a socket_scheme) run" where
  "req_client proto sz n [] i m s = Ret (if i < n then (ERunning, s) else (EDone, Free m s))"
| "req_client proto sz n ((junk, (snow, t, pick), (now, rounds)) # ins) i m s =
     (if \<not> i < n then Ret (EDone, Free m s)
      else run_bind (reslice sz (body (msgs s m)) junk) (\<lambda>b.
        let s0 = upd_msg m (\<lambda>x. x\<lparr>hdr := map_option (\<lambda>_. []) (hdr x), body := b\<rparr>) s
        in run_bind (SendMsg proto snow t pick m s0) (\<lambda>(e, s1).
          case e of
            Some x \<Rightarrow> Ret (ESend x, s1)
          | None \<Rightarrow> run_bind (RecvMsg proto now rounds s1) (\<lambda>(r, s2).
              case r of
                Inl e \<Rightarrow> Ret (ERecv e, s2)
              | Inr m' \<Rightarrow> req_client proto sz n ins (wrap64 (i + 1)) m' s2))))"

text \<open>The programs; \<open>tn\<close> numbers the transports.\<close>

definition LatencyServer ::
  "(string \<Rightarrow> (string \<times> goval) list \<Rightarrow> pair \<Rightarrow> (err + nat) \<times> pair) \<Rightarrow> (nat \<Rightarrow> string \<Rightarrow> goval \<Rightarrow> pair \<Rightarrow> err option \<times> pair) \<Rightarrow>
   (nat \<Rightarrow> pair \<Rightarrow> err option \<times> pair) \<Rightarrow> (pair \<Rightarrow> (err option \<times> pair) run) \<Rightarrow> nat \<Rightarrow>
   string \<Rightarrow> int \<Rightarrow> int \<Rightarrow> (recv_in \<times> send_in) list \<Rightarrow> pair \<Rightarrow> (perf_end \<times> pair) run" where
  "LatencyServer newl setl listen close tn addr sz n ins s =
     perf_run close (perf_open newl setl listen pair_ops True True addr (AddTransports tn (pair_NewSocket s)))
       (lat_serve pair_ops sz n ins 0)"

definition LatencyClient ::
  "(string \<Rightarrow> (string \<times> goval) list \<Rightarrow> pair \<Rightarrow> (err + nat) \<times> pair) \<Rightarrow> (nat \<Rightarrow> string \<Rightarrow> goval \<Rightarrow> pair \<Rightarrow> err option \<times> pair) \<Rightarrow>
   (nat \<Rightarrow> pair \<Rightarrow> err option \<times> pair) \<Rightarrow> (pair \<Rightarrow> (err option \<times> pair) run) \<Rightarrow> nat \<Rightarrow>
   string \<Rightarrow> int \<Rightarrow> int \<Rightarrow> mref \<Rightarrow> bytes \<Rightarrow> (send_in \<times> recv_in) list \<Rightarrow> pair \<Rightarrow> (perf_end \<times> pair) run" where
  "LatencyClient newd setd dial close tn addr sz n fresh junk ins s =
     perf_run close (perf_open newd setd dial pair_ops True True addr (AddTransports tn (pair_NewSocket s)))
       (\<lambda>s1. let (m, s2) = NewMessage fresh (nat sz) s1
             in run_bind (reslice sz (body (msgs s2 m)) junk) (\<lambda>b.
                  lat_client pair_ops n ins 0 m (set_body m b s2)))"

definition ReqRepLatencyServer ::
  "(string \<Rightarrow> (string \<times> goval) list \<Rightarrow> rep \<Rightarrow> (err + nat) \<times> rep) \<Rightarrow> (nat \<Rightarrow> string \<Rightarrow> goval \<Rightarrow> rep \<Rightarrow> err option \<times> rep) \<Rightarrow>
   (nat \<Rightarrow> rep \<Rightarrow> err option \<times> rep) \<Rightarrow> (rep \<Rightarrow> (err option \<times> rep) run) \<Rightarrow> nat \<Rightarrow>
   string \<Rightarrow> int \<Rightarrow> int \<Rightarrow> (recv_in \<times> send_in) list \<Rightarrow> rep \<Rightarrow> (perf_end \<times> rep) run" where
  "ReqRepLatencyServer newl setl listen close tn addr sz n ins s =
     perf_run close (perf_open newl setl listen rep_ops True False addr (AddTransports tn (rep_NewSocket s)))
       (lat_serve rep_ops sz n ins 0)"

definition ReqRepLatencyClient ::
  "(string \<Rightarrow> (string \<times> goval) list \<Rightarrow> req \<Rightarrow> (err + nat) \<times> req) \<Rightarrow> (nat \<Rightarrow> string \<Rightarrow> goval \<Rightarrow> req \<Rightarrow> err option \<times> req) \<Rightarrow>
   (nat \<Rightarrow> req \<Rightarrow> err option \<times> req) \<Rightarrow> (req \<Rightarrow> (err option \<times> req) run) \<Rightarrow> nat \<Rightarrow>
   string \<Rightarrow> int \<Rightarrow> int \<Rightarrow> u32 \<Rightarrow> mref \<Rightarrow> (bytes \<times> send_in \<times> recv_in) list \<Rightarrow> req \<Rightarrow> (perf_end \<times> req) run" where
  "ReqRepLatencyClient newd setd dial close tn addr sz n now fresh ins s =
     perf_run close (perf_open newd setd dial (req_ops now) True False addr (AddTransports tn (req_NewSocket now s)))
       (\<lambda>s1. let (m, s2) = NewMessage fresh (nat sz) s1 in req_client (req_ops now) sz n ins 0 m s2)"

section \<open>throughput.go\<close>

text \<open>The server's loop \<^verbatim>\<open>for i := 0; i != count; i++\<close> and the client's \<^verbatim>\<open>for i := 0; i < count; i++\<close>.\<close>

fun thr_serve ::
  "'a socket_scheme protocol_ops \<Rightarrow> int \<Rightarrow> int \<Rightarrow> recv_in list \<Rightarrow> int \<Rightarrow> 'a socket_scheme \<Rightarrow>
   (perf_end \<times> 'a socket_scheme) run" where
  "thr_serve proto sz n [] i s = Ret (if i = n then EDone else ERunning, s)"
| "thr_serve proto sz n ((now, rounds) # ins) i s =
     (if i = n then Ret (EDone, s)
      else run_bind (RecvMsg proto now rounds s) (\<lambda>(r, s1).
        case r of
          Inl e \<Rightarrow> Ret (ERecv e, s1)
        | Inr m \<Rightarrow>
            if int (length (body (msgs s1 m))) \<noteq> sz then Ret (ESize (int (length (body (msgs s1 m)))), s1)
            else thr_serve proto sz n ins (wrap64 (i + 1)) (Free m s1)))"

fun thr_client ::
  "'a socket_scheme protocol_ops \<Rightarrow> bytes \<Rightarrow> int \<Rightarrow> (mref \<times> send_in) list \<Rightarrow> int \<Rightarrow> 'a socket_scheme \<Rightarrow>
   (perf_end \<times> 'a socket_scheme) run" where
  "thr_client proto b n [] i s = Ret (if i < n then ERunning else EDone, s)"
| "thr_client proto b n ((fresh, (now, t, pick)) # ins) i s =
     (if \<not> i < n then Ret (EDone, s)
      else run_bind (Send proto fresh now t pick b s) (\<lambda>(e, s1).
        case e of Some x \<Rightarrow> Ret (ESend x, s1) | None \<Rightarrow> thr_client proto b n ins (wrap64 (i + 1)) s1))"

definition ThroughputServer ::
  "(string \<Rightarrow> (string \<times> goval) list \<Rightarrow> pair \<Rightarrow> (err + nat) \<times> pair) \<Rightarrow> (nat \<Rightarrow> string \<Rightarrow> goval \<Rightarrow> pair \<Rightarrow> err option \<times> pair) \<Rightarrow>
   (nat \<Rightarrow> pair \<Rightarrow> err option \<times> pair) \<Rightarrow> (pair \<Rightarrow> (err option \<times> pair) run) \<Rightarrow> nat \<Rightarrow>
   string \<Rightarrow> int \<Rightarrow> int \<Rightarrow> recv_in \<Rightarrow> recv_in list \<Rightarrow> pair \<Rightarrow> (perf_end \<times> pair) run" where
  "ThroughputServer newl setl listen close tn addr sz n start ins s =
     perf_run close (perf_open newl setl listen pair_ops False True addr (AddTransports tn (pair_NewSocket s)))
       (\<lambda>s1. run_bind (RecvMsg pair_ops (fst start) (snd start) s1) (\<lambda>(r, s2).
          case r of
            Inl e \<Rightarrow> Ret (EStart e, s2)
          | Inr m \<Rightarrow> thr_serve pair_ops sz n ins 0 (Free m s2)))"

text \<open>The bytes are 111; the result of sending the empty start message is not looked at.\<close>

definition ThroughputClient ::
  "(string \<Rightarrow> (string \<times> goval) list \<Rightarrow> pair \<Rightarrow> (err + nat) \<times> pair) \<Rightarrow> (nat \<Rightarrow> string \<Rightarrow> goval \<Rightarrow> pair \<Rightarrow> err option \<times> pair) \<Rightarrow>
   (nat \<Rightarrow> pair \<Rightarrow> err option \<times> pair) \<Rightarrow> (pair \<Rightarrow> (err option \<times> pair) run) \<Rightarrow> nat \<Rightarrow>
   string \<Rightarrow> int \<Rightarrow> int \<Rightarrow> mref \<Rightarrow> send_in \<Rightarrow> (mref \<times> send_in) list \<Rightarrow> pair \<Rightarrow> (perf_end \<times> pair) run" where
  "ThroughputClient newd setd dial close tn addr sz n fresh start ins s =
     perf_run close (perf_open newd setd dial pair_ops False True addr (AddTransports tn (pair_NewSocket s)))
       (\<lambda>s1. if sz < 0 then Panic
             else run_bind (case start of (now, t, pick) \<Rightarrow> Send pair_ops fresh now t pick [] s1) (\<lambda>(_, s2).
                    thr_client pair_ops (replicate (nat sz) 111) n ins 0 s2))"

section \<open>main.go\<close>

datatype perf_prog = PLatServer | PLatClient | PThrServer | PThrClient | PReqServer | PReqClient

text \<open>
  What the command line asks for: programs with an address, a size and a count, all but the
  last in a goroutine of its own, then the exit; or a message and the exit.
\<close>

datatype perf_main =
    XRun "(perf_prog \<times> string \<times> int \<times> int) list" | XUsage string | XBadSize string | XBadCount string | XBadUsage

definition perf_numbers :: "string \<Rightarrow> string \<Rightarrow> (int \<Rightarrow> int \<Rightarrow> perf_main) \<Rightarrow> perf_main" where
  "perf_numbers a b f =
     (case Atoi a of (sz, ok) \<Rightarrow>
        if \<not> ok then XBadSize a
        else case Atoi b of (n, ok2) \<Rightarrow> if \<not> ok2 then XBadCount b else f sz n)"

definition doRemoteReqRepLatency :: "string list \<Rightarrow> perf_main" where
  "doRemoteReqRepLatency args =
     (if length args < 3 then XUsage ''remote_lat <connect-to> <msg-size> <roundtrips>''
      else perf_numbers (args ! 1) (args ! 2) (\<lambda>sz n. XRun [(PReqClient, args ! 0, sz, n)]))"

definition doLocalReqRepLatency :: "string list \<Rightarrow> perf_main" where
  "doLocalReqRepLatency args =
     (if length args < 3 then XUsage ''local_lat <connect-to> <msg-size> <roundtrips>''
      else perf_numbers (args ! 1) (args ! 2) (\<lambda>sz n. XRun [(PReqServer, args ! 0, sz, n)]))"

definition doRemoteLatency :: "string list \<Rightarrow> perf_main" where
  "doRemoteLatency args =
     (if length args < 3 then XUsage ''remote_lat <connect-to> <msg-size> <roundtrips>''
      else perf_numbers (args ! 1) (args ! 2) (\<lambda>sz n. XRun [(PLatClient, args ! 0, sz, n)]))"

definition doLocalLatency :: "string list \<Rightarrow> perf_main" where
  "doLocalLatency args =
     (if length args < 3 then XUsage ''local_lat <connect-to> <msg-size> <roundtrips>''
      else perf_numbers (args ! 1) (args ! 2) (\<lambda>sz n. XRun [(PLatServer, args ! 0, sz, n)]))"

definition doRemoteThroughput :: "string list \<Rightarrow> perf_main" where
  "doRemoteThroughput args =
     (if length args < 3 then XUsage ''remote_thr <connect-to> <msg-size> <msg-count>''
      else perf_numbers (args ! 1) (args ! 2) (\<lambda>sz n. XRun [(PThrClient, args ! 0, sz, n)]))"

definition doLocalThroughput :: "string list \<Rightarrow> perf_main" where
  "doLocalThroughput args =
     (if length args < 3 then XUsage ''local_thr <connect-to> <msg-size> <msg-count>''
      else perf_numbers (args ! 1) (args ! 2) (\<lambda>sz n. XRun [(PThrServer, args ! 0, sz, n)]))"

definition doInprocLat :: "string list \<Rightarrow> perf_main" where
  "doInprocLat args =
     (if length args < 2 then XUsage ''inproc_lat <msg-size> <roundtrip-count>''
      else perf_numbers (args ! 0) (args ! 1) (\<lambda>sz n.
        XRun [(PLatServer, ''inproc://inproc_lat'', sz, n), (PLatClient, ''inproc://inproc_lat'', sz, n)]))"

definition doInprocThr :: "string list \<Rightarrow> perf_main" where
  "doInprocThr args =
     (if length args < 2 then XUsage ''inproc_thr <msg-size> <msg-count>''
      else perf_numbers (args ! 0) (args ! 1) (\<lambda>sz n.
        XRun [(PThrClient, ''inproc://inproc_lat'', sz, n), (PThrServer, ''inproc://inproc_lat'', sz, n)]))"

text \<open>\<^verbatim>\<open>path.Base\<close>\<close>

definition path_Base :: "string \<Rightarrow> string" where
  "path_Base p =
     (if p = [] then ''.''
      else let q = rev (dropWhile (\<lambda>c. c = CHR ''/'') (rev p))
           in if q = [] then ''/'' else rev (takeWhile (\<lambda>c. c \<noteq> CHR ''/'') (rev q)))"

text \<open>The names the switch of \<^verbatim>\<open>main\<close> knows.\<close>

definition perf_switch :: "string \<Rightarrow> (string list \<Rightarrow> perf_main) option" where
  "perf_switch name = map_of
     [(''remote_reqlat'', doRemoteReqRepLatency), (''local_reqlat'', doLocalReqRepLatency),
      (''latency_client'', doRemoteLatency), (''remote_lat'', doRemoteLatency),
      (''latency_server'', doLocalLatency), (''local_lat'', doLocalLatency),
      (''throughput_client'', doRemoteThroughput), (''remote_thr'', doRemoteThroughput),
      (''througput_server'', doLocalThroughput), (''local_thr'', doLocalThroughput),
      (''inproc_thr'', doInprocThr), (''inproc_lat'', doInprocLat)] name"

text \<open>The loop of \<^verbatim>\<open>main\<close>: the program's own name, then its first argument.\<close>

fun perf_tries :: "nat \<Rightarrow> string list \<Rightarrow> perf_main run" where
  "perf_tries 0 args = Ret XBadUsage"
| "perf_tries (Suc n) [] = Panic"
| "perf_tries (Suc n) (a # args) =
     (case perf_switch (path_Base a) of Some f \<Rightarrow> Ret (f args) | None \<Rightarrow> perf_tries n args)"

definition perf_Main :: "string list \<Rightarrow> perf_main run" where
  "perf_Main args = perf_tries 2 args"

section \<open>Facts about the command line\<close>

text \<open>Called under another name and without an argument, the program indexes an empty slice.\<close>

lemma perf_Main_panics: "perf_Main args = Panic \<longleftrightarrow> args = [] \<or> (\<exists>a. args = [a] \<and> perf_switch (path_Base a) = None)"
  unfolding perf_Main_def numeral_2_eq_2
  by (cases args; cases "tl args") (auto split: option.splits)

text \<open>A program can be named by its file or by the first argument.\<close>

lemma perf_Main_named:
  assumes "perf_switch name = Some f" "CHR ''/'' \<notin> set name" "name \<noteq> []"
  shows "perf_Main (name # args) = Ret (f args)"
    and "perf_switch (path_Base p) = None \<Longrightarrow> perf_Main (p # name # args) = Ret (f args)"
proof -
  have "last name \<noteq> CHR ''/''" using last_in_set [OF assms(3)] assms(2) by auto
  then have "dropWhile (\<lambda>c. c = CHR ''/'') (rev name) = rev name"
    by (simp add: dropWhile_eq_self_iff hd_rev)
  moreover have "takeWhile (\<lambda>c. c \<noteq> CHR ''/'') (rev name) = rev name"
    unfolding takeWhile_eq_all_conv using assms(2) by auto
  ultimately have b: "path_Base name = name" using assms(3) by (simp add: path_Base_def del: takeWhile_eq_all_conv)
  with assms(1) show "perf_Main (name # args) = Ret (f args)"
    and "perf_switch (path_Base p) = None \<Longrightarrow> perf_Main (p # name # args) = Ret (f args)"
    by (simp_all add: perf_Main_def numeral_2_eq_2)
qed

text \<open>The counterpart of \<^verbatim>\<open>throughput_client\<close> is known under a misspelt name only.\<close>

lemma perf_misspelt:
  "perf_Main [''perf'', ''throughput_server'', addr, sz, n] = Ret XBadUsage"
  "perf_Main [''perf'', ''througput_server'', addr, sz, n] = Ret (doLocalThroughput [addr, sz, n])"
  by (simp_all add: perf_Main_def numeral_2_eq_2 path_Base_def perf_switch_def)

section \<open>Facts about the loops\<close>

text \<open>A counter below its limit does not wrap.\<close>

lemma wrap64_Suc: "0 \<le> i \<Longrightarrow> i < n \<Longrightarrow> n < 2 ^ 63 \<Longrightarrow> wrap64 (i + 1) = i + 1"
  by (simp add: wrap64_id)

text \<open>A server that ended normally went through all its rounds.\<close>

lemma lat_serve_rounds:
  "lat_serve proto sz n ins i s = Ret (EDone, s') \<Longrightarrow> 0 \<le> i \<Longrightarrow> i \<le> n \<Longrightarrow> n < 2 ^ 63 \<Longrightarrow>
   n - i \<le> int (length ins)"
proof (induction proto sz n ins i s rule: lat_serve.induct)
  case (1 proto sz n i s)
  then show ?case by (auto split: if_splits)
next
  case (2 proto sz n now rounds snow t pick ins i s)
  show ?case
  proof (cases "i = n")
    case False
    from "2.prems"(1) False obtain r s1 where r: "RecvMsg proto now rounds s = Ret (r, s1)"
      by (auto simp: run_bind_Ret_iff)
    with "2.prems"(1) False obtain m where m: "r = Inr m" by (cases r) auto
    with r "2.prems"(1) False have sz: "\<not> int (length (body (msgs s1 m))) \<noteq> sz" by (auto split: if_splits)
    with r m "2.prems"(1) False obtain e s2 where e: "SendMsg proto snow t pick m s1 = Ret (e, s2)"
      by (auto simp: run_bind_Ret_iff)
    with r m sz "2.prems"(1) False have e0: "e = None" by (cases e) auto
    with r m sz e "2.prems"(1) False have go: "lat_serve proto sz n ins (wrap64 (i + 1)) s2 = Ret (EDone, s')"
      by simp
    from "2.IH" [OF False m sz e0 go] wrap64_Suc [of i n] False "2.prems"(2-4) show ?thesis by simp
  qed simp
qed

text \<open>What the throughput server says of the bodies it received.\<close>

fun thr_check :: "int \<Rightarrow> int \<Rightarrow> int \<Rightarrow> bytes list \<Rightarrow> perf_end" where
  "thr_check sz n i [] = (if i = n then EDone else ERunning)"
| "thr_check sz n i (b # bs) =
     (if i = n then EDone
      else if int (length b) \<noteq> sz then ESize (int (length b))
      else thr_check sz n (wrap64 (i + 1)) bs)"

lemma thr_serve_check:
  "thr_serve proto sz n ins i s = Ret (e, s') \<Longrightarrow> \<forall>x. e \<noteq> ERecv x \<Longrightarrow>
   e = thr_check sz n i (mc_received proto ins s)"
proof (induction ins arbitrary: i s)
  case Nil
  then show ?case by simp
next
  case (Cons x ins)
  obtain now rounds where x: "x = (now, rounds)" by fastforce
  show ?case
  proof (cases "i = n")
    case True
    with Cons.prems x show ?thesis by (cases "mc_received proto (x # ins) s") simp_all
  next
    case False
    with Cons.prems x obtain r s1 where r: "RecvMsg proto now rounds s = Ret (r, s1)"
      by (auto simp: run_bind_Ret_iff)
    with Cons.prems False x obtain m where "r = Inr m" by (cases r) auto
    with r Cons False x show ?thesis by (auto split: if_splits)
  qed
qed

lemma thr_check_right:
  "\<forall>b \<in> set bs. int (length b) = sz \<Longrightarrow> 0 \<le> i \<Longrightarrow> i \<le> n \<Longrightarrow> n < 2 ^ 63 \<Longrightarrow>
   thr_check sz n i bs = (if n - i \<le> int (length bs) then EDone else ERunning)"
proof (induction bs arbitrary: i)
  case Nil
  then show ?case by auto
next
  case (Cons b bs)
  then show ?case using wrap64_Suc [of i n] by auto
qed

text \<open>
  Over a connected pair, in any interleaving: while the client has sent nothing but its start
  message and bodies of the size both were given, the server, after the start message, never
  sees a wrong size, and is done exactly when it received its count.
\<close>

lemma throughput_meets:
  assumes "run_events link_step es (link_start (\<lambda>y. socket0 (x y))) = Ret c"
    and "prefix (lk_sent c True) ([] # replicate k (replicate (nat sz) 111))"
    and "0 \<le> sz" "0 \<le> n" "n < 2 ^ 63"
  shows "thr_check sz n 0 (tl (lk_got c False)) =
    (if n \<le> int (length (tl (lk_got c False))) then EDone else ERunning)"
proof -
  have "run_keeps link_ok (run_events link_step es (link_start (\<lambda>y. socket0 (x y))))"
    by (rule run_keeps_events [OF link_ok_step link_start_ok])
  then have "link_ok c" using assms(1) by simp
  then have "prefix (lk_got c False) (lk_sent c True)"
    using link_okD(2) [of c True] by (simp add: prefix_def)
  then have "prefix (lk_got c False) ([] # replicate k (replicate (nat sz) 111))"
    using assms(2) by (rule prefix_order.trans)
  then have "set (tl (lk_got c False)) \<subseteq> {replicate (nat sz) 111}"
    by (cases "lk_got c False") (auto dest!: set_mono_prefix split: if_splits)
  then have "\<forall>b \<in> set (tl (lk_got c False)). int (length b) = sz" using assms(3) by auto
  from thr_check_right [OF this order_refl assms(4,5)] show ?thesis by simp
qed

end
