(* ===== verification/Examples.thy ===== *)
theory Examples
  imports All_Transports Perf Pub Sub Push Pull Bus Surveyor Respondent
begin

text \<open>
  The demonstration programs of src/examples that work on a socket alone: pipeline, pair,
  pubsub, reqrep, survey and bus. A program is a computation on the socket that prints lines
  and may end early. The socket's Listen, Dial and Close are parameters; each round of a loop
  gets what the clock, the selects and the message pool do in it. Making a socket of the
  core never fails, so the branches for that error are left out, and so are the sleeps.
\<close>

section \<open>Programs\<close>

text \<open>
  \<open>XDie f e\<close> is \<^verbatim>\<open>die\<close> with format \<open>f\<close> and the error, \<open>XExit\<close> a program that returned to
  \<^verbatim>\<open>main\<close>, \<open>XMore\<close> an endless loop of which no more rounds are given.
\<close>

datatype ex_end = XExit | XMore | XDie string err | XDieNum string int

type_synonym ('s, 'v) prog = "'s \<Rightarrow> ((ex_end + 'v) \<times> string list \<times> 's) run"

definition ex_ret :: "'v \<Rightarrow> ('s, 'v) prog" where
  "ex_ret v s = Ret (Inr v, [], s)"

definition ex_stop :: "ex_end \<Rightarrow> ('s, 'v) prog" where
  "ex_stop e s = Ret (Inl e, [], s)"

definition ex_bind :: "('s, 'v) prog \<Rightarrow> ('v \<Rightarrow> ('s, 'w) prog) \<Rightarrow> ('s, 'w) prog" where
  "ex_bind p f s =
     run_bind (p s) (\<lambda>(r, out, s1).
       case r of
         Inl e \<Rightarrow> Ret (Inl e, out, s1)
       | Inr v \<Rightarrow> run_bind (f v s1) (\<lambda>(r2, out2, s2). Ret (r2, out @ out2, s2)))"

definition ex_say :: "string \<Rightarrow> ('s, unit) prog" where
  "ex_say line s = Ret (Inr (), [line], s)"

text \<open>An operation of the core whose result is an error or nothing, and one with a value.\<close>

definition ex_call :: "('s \<Rightarrow> 'v \<times> 's) \<Rightarrow> ('s, 'v) prog" where
  "ex_call f s = (case f s of (v, s1) \<Rightarrow> Ret (Inr v, [], s1))"

definition ex_run :: "('s \<Rightarrow> ('v \<times> 's) run) \<Rightarrow> ('s, 'v) prog" where
  "ex_run f s = run_bind (f s) (\<lambda>(v, s1). Ret (Inr v, [], s1))"

definition ex_ok :: "string \<Rightarrow> ('s, err option) prog \<Rightarrow> ('s, unit) prog" where
  "ex_ok f p = ex_bind p (\<lambda>e. case e of Some x \<Rightarrow> ex_stop (XDie f x) | None \<Rightarrow> ex_ret ())"

definition ex_get :: "string \<Rightarrow> ('s, err + 'v) prog \<Rightarrow> ('s, 'v) prog" where
  "ex_get f p = ex_bind p (\<lambda>r. case r of Inl x \<Rightarrow> ex_stop (XDie f x) | Inr v \<Rightarrow> ex_ret v)"

text \<open>\<^verbatim>\<open>for { ... }\<close>: one round for each input.\<close>

primrec ex_loop :: "('i \<Rightarrow> ('s, unit) prog) \<Rightarrow> 'i list \<Rightarrow> ('s, unit) prog" where
  "ex_loop f [] = ex_stop XMore"
| "ex_loop f (i # is) = ex_bind (f i) (\<lambda>_. ex_loop f is)"

text \<open>\<^verbatim>\<open>sock.Send\<close> and \<^verbatim>\<open>sock.Recv\<close> with what happens in the call.\<close>

type_synonym sending = "mref \<times> send_in"

definition ex_Send :: "'a socket_scheme protocol_ops \<Rightarrow> sending \<Rightarrow> bytes \<Rightarrow> ('a socket_scheme, err option) prog" where
  "ex_Send proto i b = (case i of (fresh, now, t, pick) \<Rightarrow> ex_run (Send proto fresh now t pick b))"

definition ex_Recv :: "'a socket_scheme protocol_ops \<Rightarrow> recv_in \<Rightarrow> ('a socket_scheme, err + bytes) prog" where
  "ex_Recv proto i = (case i of (now, rounds) \<Rightarrow> ex_run (Recv proto now rounds))"

text \<open>\<^verbatim>\<open>string(msg)\<close>, and \<^verbatim>\<open>%d\<close> for numbers that are not negative.\<close>

definition text_of :: "bytes \<Rightarrow> string" where
  "text_of b = map (\<lambda>x. char_of (unat x)) b"

fun dec :: "nat \<Rightarrow> string" where
  "dec n = (if n < 10 then [char_of (48 + n)] else dec (n div 10) @ [char_of (48 + n mod 10)])"

declare dec.simps [simp del]

definition quote :: "string \<Rightarrow> string" where
  "quote t = ''\"'' @ t @ ''\"''"

text \<open>Both transports of the examples, then Listen or Dial; \<open>f\<close> is the message of the error.\<close>

definition ex_open :: "string \<Rightarrow> (string \<Rightarrow> 'a socket_scheme \<Rightarrow> err option \<times> 'a socket_scheme) \<Rightarrow>
    nat \<Rightarrow> string \<Rightarrow> ('a socket_scheme, unit) prog" where
  "ex_open f conn tn url =
     ex_bind (ex_call (\<lambda>s. ((), AddTransport tcp_Scheme (Suc tn) (AddTransport ipc_Scheme tn s)))) (\<lambda>_.
       ex_ok f (ex_call (conn url)))"

text \<open>The command lines: \<open>None\<close> is the usage message and exit status 1.\<close>

definition two_args :: "string \<Rightarrow> (string \<Rightarrow> 'p) \<Rightarrow> string list \<Rightarrow> 'p option" where
  "two_args word prog args =
     (if length args > 2 \<and> args ! 1 = word then Some (prog (args ! 2)) else None)"

definition three_args :: "string \<Rightarrow> (string \<Rightarrow> string \<Rightarrow> 'p) \<Rightarrow> string list \<Rightarrow> 'p option" where
  "three_args word prog args =
     (if length args > 3 \<and> args ! 1 = word then Some (prog (args ! 2) (args ! 3)) else None)"

definition or_else :: "'p option \<Rightarrow> 'p option \<Rightarrow> 'p option" where
  "or_else a b = (case a of None \<Rightarrow> b | Some x \<Rightarrow> Some x)"

section \<open>pipeline\<close>

text \<open>The receiver does not look at the error: \<^verbatim>\<open>msg\<close> is nil then, and it prints an empty message.\<close>

definition pipeline_node0_round :: "recv_in \<Rightarrow> (pull, unit) prog" where
  "pipeline_node0_round i =
     ex_bind (ex_Recv pull_ops i) (\<lambda>r.
       ex_say (''NODE0: RECEIVED '' @ quote (text_of (case r of Inl e \<Rightarrow> [] | Inr b \<Rightarrow> b))))"

definition pipeline_node0 ::
  "(string \<Rightarrow> pull \<Rightarrow> err option \<times> pull) \<Rightarrow> nat \<Rightarrow> string \<Rightarrow> recv_in list \<Rightarrow> (pull, unit) prog" where
  "pipeline_node0 listen tn url ins s =
     ex_bind (ex_open ''can't listen on pull socket: %s'' listen tn url) (\<lambda>_.
       ex_loop pipeline_node0_round ins) (pull_NewSocket s)"

definition pipeline_node1 ::
  "(string \<Rightarrow> push \<Rightarrow> err option \<times> push) \<Rightarrow> (push \<Rightarrow> (err option \<times> push) run) \<Rightarrow> nat \<Rightarrow> string \<Rightarrow> string \<Rightarrow>
   sending \<Rightarrow> (push, unit) prog" where
  "pipeline_node1 dial close tn url msg i s =
     ex_bind (ex_open ''can't dial on push socket: %s'' dial tn url) (\<lambda>_.
     ex_bind (ex_say (''NODE1: SENDING '' @ quote msg)) (\<lambda>_.
     ex_bind (ex_ok ''can't send message on push socket: %s'' (ex_Send push_ops i (string_bytes msg))) (\<lambda>_.
     ex_bind (ex_run close) (\<lambda>_. ex_stop XExit)))) (push_NewSocket s)"

datatype pipeline_cmd = PlNode0 string | PlNode1 string string

definition pipeline_main :: "string list \<Rightarrow> pipeline_cmd option" where
  "pipeline_main args = or_else (two_args ''node0'' PlNode0 args) (three_args ''node1'' PlNode1 args)"

section \<open>pair\<close>

definition sendName :: "string \<Rightarrow> sending \<Rightarrow> (pair, unit) prog" where
  "sendName name i =
     ex_bind (ex_say (name @ '': SENDING '' @ quote name)) (\<lambda>_.
       ex_ok ''failed sending: %s'' (ex_Send pair_ops i (string_bytes name)))"

definition recvName :: "string \<Rightarrow> recv_in \<Rightarrow> (pair, unit) prog" where
  "recvName name i =
     ex_bind (ex_Recv pair_ops i) (\<lambda>r.
       case r of
         Inl e \<Rightarrow> ex_ret ()
       | Inr b \<Rightarrow> ex_say (name @ '': RECEIVED: '' @ quote (text_of b)))"

text \<open>The deadline is 100ms; the result of setting it is not looked at.\<close>

definition sendRecv_round :: "string \<Rightarrow> recv_in \<times> sending \<Rightarrow> (pair, unit) prog" where
  "sendRecv_round name i =
     ex_bind (ex_run (sock_SetOption pair_ops OptionRecvDeadline (VDur (100 * 1000000)))) (\<lambda>_.
     ex_bind (recvName name (fst i)) (\<lambda>_. sendName name (snd i)))"

definition sendRecv :: "string \<Rightarrow> (recv_in \<times> sending) list \<Rightarrow> (pair, unit) prog" where
  "sendRecv name = ex_loop (sendRecv_round name)"

definition pair_node0 ::
  "(string \<Rightarrow> pair \<Rightarrow> err option \<times> pair) \<Rightarrow> nat \<Rightarrow> string \<Rightarrow> (recv_in \<times> sending) list \<Rightarrow> (pair, unit) prog" where
  "pair_node0 listen tn url ins s =
     ex_bind (ex_open ''can't listen on pair socket: %s'' listen tn url) (\<lambda>_. sendRecv ''node0'' ins)
       (pair_NewSocket s)"

definition pair_node1 ::
  "(string \<Rightarrow> pair \<Rightarrow> err option \<times> pair) \<Rightarrow> nat \<Rightarrow> string \<Rightarrow> (recv_in \<times> sending) list \<Rightarrow> (pair, unit) prog" where
  "pair_node1 dial tn url ins s =
     ex_bind (ex_open ''can't dial on pair socket: %s'' dial tn url) (\<lambda>_. sendRecv ''node1'' ins)
       (pair_NewSocket s)"

datatype pair_cmd = PaNode0 string | PaNode1 string

definition pair_main :: "string list \<Rightarrow> pair_cmd option" where
  "pair_main args = or_else (two_args ''node0'' PaNode0 args) (two_args ''node1'' PaNode1 args)"

section \<open>pubsub\<close>

text \<open>\<open>d\<close> is the date of the round.\<close>

definition pubsub_server_round :: "string \<times> sending \<Rightarrow> (pub, unit) prog" where
  "pubsub_server_round i =
     (case i of (d, snd_in) \<Rightarrow>
       ex_bind (ex_say (''SERVER: PUBLISHING DATE '' @ d)) (\<lambda>_.
         ex_ok ''Failed publishing: %s'' (ex_Send pub_ops snd_in (string_bytes d))))"

definition pubsub_server ::
  "(string \<Rightarrow> pub \<Rightarrow> err option \<times> pub) \<Rightarrow> nat \<Rightarrow> string \<Rightarrow> (string \<times> sending) list \<Rightarrow> (pub, unit) prog" where
  "pubsub_server listen tn url ins s =
     ex_bind (ex_open ''can't listen on pub socket: %s'' listen tn url) (\<lambda>_.
       ex_loop pubsub_server_round ins) (pub_NewSocket s)"

definition pubsub_client_round :: "string \<Rightarrow> recv_in \<Rightarrow> (sub, unit) prog" where
  "pubsub_client_round name i =
     ex_bind (ex_get ''Cannot recv: %s'' (ex_Recv sub_ops i)) (\<lambda>b.
       ex_say (''CLIENT('' @ name @ ''): RECEIVED '' @ text_of b))"

definition pubsub_client ::
  "(string \<Rightarrow> sub \<Rightarrow> err option \<times> sub) \<Rightarrow> nat \<Rightarrow> string \<Rightarrow> string \<Rightarrow> recv_in list \<Rightarrow> (sub, unit) prog" where
  "pubsub_client dial tn url name ins s =
     ex_bind (ex_open ''can't dial on sub socket: %s'' dial tn url) (\<lambda>_.
     ex_bind (ex_ok ''cannot subscribe: %s'' (ex_run (sock_SetOption sub_ops OptionSubscribe (VBytes [])))) (\<lambda>_.
       ex_loop (pubsub_client_round name) ins)) (sub_NewSocket s)"

datatype pubsub_cmd = PsServer string | PsClient string string

definition pubsub_main :: "string list \<Rightarrow> pubsub_cmd option" where
  "pubsub_main args = or_else (two_args ''server'' PsServer args) (three_args ''client'' PsClient args)"

section \<open>reqrep\<close>

text \<open>
  The server does not look at the error of Recv; whatever is not the text DATE, a failure
  included, leaves the round without a reply.
\<close>

definition reqrep_node0_round :: "string \<times> recv_in \<times> sending \<Rightarrow> (rep, unit) prog" where
  "reqrep_node0_round i =
     (case i of (d, rin, sin) \<Rightarrow>
       ex_bind (ex_Recv rep_ops rin) (\<lambda>r.
         if r = Inr (string_bytes ''DATE'') then
           ex_bind (ex_say ''NODE0: RECEIVED DATE REQUEST'') (\<lambda>_.
           ex_bind (ex_say (''NODE0: SENDING DATE '' @ d)) (\<lambda>_.
             ex_ok ''can't send reply: %s'' (ex_Send rep_ops sin (string_bytes d))))
         else ex_ret ()))"

definition reqrep_node0 ::
  "(string \<Rightarrow> rep \<Rightarrow> err option \<times> rep) \<Rightarrow> nat \<Rightarrow> string \<Rightarrow> (string \<times> recv_in \<times> sending) list \<Rightarrow> (rep, unit) prog" where
  "reqrep_node0 listen tn url ins s =
     ex_bind (ex_open ''can't listen on rep socket: %s'' listen tn url) (\<lambda>_.
       ex_loop reqrep_node0_round ins) (rep_NewSocket s)"

definition reqrep_node1 ::
  "(string \<Rightarrow> req \<Rightarrow> err option \<times> req) \<Rightarrow> (req \<Rightarrow> (err option \<times> req) run) \<Rightarrow> nat \<Rightarrow> u32 \<Rightarrow> string \<Rightarrow> sending \<Rightarrow> recv_in \<Rightarrow>
   (req, unit) prog" where
  "reqrep_node1 dial close tn now url sin rin s =
     ex_bind (ex_open ''can't dial on req socket: %s'' dial tn url) (\<lambda>_.
     ex_bind (ex_say ''NODE1: SENDING DATE REQUEST DATE'') (\<lambda>_.
     ex_bind (ex_ok ''can't send message on push socket: %s'' (ex_Send (req_ops now) sin (string_bytes ''DATE''))) (\<lambda>_.
     ex_bind (ex_get ''can't receive date: %s'' (ex_Recv (req_ops now) rin)) (\<lambda>b.
     ex_bind (ex_say (''NODE1: RECEIVED DATE '' @ text_of b)) (\<lambda>_.
     ex_bind (ex_run close) (\<lambda>_. ex_stop XExit)))))) (req_NewSocket now s)"

datatype reqrep_cmd = RrNode0 string | RrNode1 string

definition reqrep_main :: "string list \<Rightarrow> reqrep_cmd option" where
  "reqrep_main args = or_else (two_args ''node0'' RrNode0 args) (two_args ''node1'' RrNode1 args)"

section \<open>survey\<close>

text \<open>The inner loop over the responses ends at the first error of Recv.\<close>

primrec survey_responses :: "recv_in list \<Rightarrow> (surveyor, unit) prog" where
  "survey_responses [] = ex_stop XMore"
| "survey_responses (i # is) =
     ex_bind (ex_Recv sv_ops i) (\<lambda>r.
       case r of
         Inl e \<Rightarrow> ex_ret ()
       | Inr b \<Rightarrow>
           ex_bind (ex_say (''SERVER: RECEIVED '' @ quote (text_of b) @ '' SURVEY RESPONSE'')) (\<lambda>_.
             survey_responses is))"

definition survey_server_round :: "sending \<times> recv_in list \<Rightarrow> (surveyor, unit) prog" where
  "survey_server_round i =
     ex_bind (ex_say ''SERVER: SENDING DATE SURVEY REQUEST'') (\<lambda>_.
     ex_bind (ex_ok ''Failed sending survey: %s'' (ex_Send sv_ops (fst i) (string_bytes ''DATE''))) (\<lambda>_.
     ex_bind (survey_responses (snd i)) (\<lambda>_. ex_say ''SERVER: SURVEY OVER'')))"

definition survey_server ::
  "(string \<Rightarrow> surveyor \<Rightarrow> err option \<times> surveyor) \<Rightarrow> nat \<Rightarrow> string \<Rightarrow> (sending \<times> recv_in list) list \<Rightarrow>
   (surveyor, unit) prog" where
  "survey_server listen tn url ins s =
     ex_bind (ex_open ''can't listen on surveyor socket: %s'' listen tn url) (\<lambda>_.
     ex_bind (ex_ok ''SetOption(): %s'' (ex_run (sock_SetOption sv_ops OptionSurveyTime (VDur (second div 2))))) (\<lambda>_.
       ex_loop survey_server_round ins)) (sv_NewSocket s)"

definition survey_client_round :: "string \<Rightarrow> string \<times> recv_in \<times> sending \<Rightarrow> (resp, unit) prog" where
  "survey_client_round name i =
     (case i of (d, rin, sin) \<Rightarrow>
       ex_bind (ex_get ''Cannot recv: %s'' (ex_Recv resp_ops rin)) (\<lambda>b.
       ex_bind (ex_say (''CLIENT('' @ name @ ''): RECEIVED '' @ quote (text_of b) @ '' SURVEY REQUEST'')) (\<lambda>_.
       ex_bind (ex_say (''CLIENT('' @ name @ ''): SENDING DATE SURVEY RESPONSE'')) (\<lambda>_.
         ex_ok ''Cannot send: %s'' (ex_Send resp_ops sin (string_bytes d))))))"

definition survey_client ::
  "(string \<Rightarrow> resp \<Rightarrow> err option \<times> resp) \<Rightarrow> nat \<Rightarrow> string \<Rightarrow> string \<Rightarrow> (string \<times> recv_in \<times> sending) list \<Rightarrow>
   (resp, unit) prog" where
  "survey_client dial tn url name ins s =
     ex_bind (ex_open ''can't dial on respondent socket: %s'' dial tn url) (\<lambda>_.
       ex_loop (survey_client_round name) ins) (resp_NewSocket s)"

datatype survey_cmd = SuServer string | SuClient string string

definition survey_main :: "string list \<Rightarrow> survey_cmd option" where
  "survey_main args = or_else (two_args ''server'' SuServer args) (three_args ''client'' SuClient args)"

section \<open>bus\<close>

text \<open>\<open>args\<close> is the whole command line: the name, the address to listen on, and those to dial.\<close>

primrec bus_dials :: "(string \<Rightarrow> bus \<Rightarrow> err option \<times> bus) \<Rightarrow> string list \<Rightarrow> (bus, unit) prog" where
  "bus_dials dial [] = ex_ret ()"
| "bus_dials dial (a # as) = ex_bind (ex_ok ''socket.Dial: %s'' (ex_call (dial a))) (\<lambda>_. bus_dials dial as)"

definition bus_node_round :: "string \<Rightarrow> recv_in \<Rightarrow> (bus, unit) prog" where
  "bus_node_round name i =
     ex_bind (ex_get ''sock.Recv: %s'' (ex_Recv bus_ops i)) (\<lambda>b.
       ex_say (name @ '': RECEIVED '' @ quote (text_of b) @ '' FROM BUS''))"

definition bus_node ::
  "(string \<Rightarrow> bus \<Rightarrow> err option \<times> bus) \<Rightarrow> (string \<Rightarrow> bus \<Rightarrow> err option \<times> bus) \<Rightarrow> nat \<Rightarrow> string list \<Rightarrow> sending \<Rightarrow>
   recv_in list \<Rightarrow> (bus, unit) prog" where
  "bus_node listen dial tn args sin ins s =
     ex_bind (ex_open ''sock.Listen: %s'' listen tn (args ! 2)) (\<lambda>_.
     ex_bind (bus_dials dial (drop 3 args)) (\<lambda>_.
     ex_bind (ex_say (args ! 1 @ '': SENDING '' @ [CHR 0x27] @ args ! 1 @ [CHR 0x27] @ '' ONTO BUS'')) (\<lambda>_.
     ex_bind (ex_ok ''sock.Send: %s'' (ex_Send bus_ops sin (string_bytes (args ! 1)))) (\<lambda>_.
       ex_loop (bus_node_round (args ! 1)) ins)))) (bus_NewSocket s)"

definition bus_main :: "string list \<Rightarrow> string list option" where
  "bus_main args = (if length args > 3 then Some args else None)"

section \<open>How programs end\<close>

lemma ex_bind_Ret:
  "p s = Ret (Inl e, o1, s1) \<Longrightarrow> ex_bind p f s = Ret (Inl e, o1, s1)"
  "p s = Ret (Inr v, o1, s1) \<Longrightarrow> ex_bind p f s = run_bind (f v s1) (\<lambda>(r, o2, s2). Ret (r, o1 @ o2, s2))"
  "p s = Block \<Longrightarrow> ex_bind p f s = Block"
  "p s = Panic \<Longrightarrow> ex_bind p f s = Panic"
  by (simp_all add: ex_bind_def)

lemma ex_bind_cases:
  assumes "ex_bind p f s = Ret (r, out, s')"
  obtains (stop) e where "p s = Ret (Inl e, out, s')" "r = Inl e"
    | (go) v o1 s1 o2 where "p s = Ret (Inr v, o1, s1)" "f v s1 = Ret (r, o2, s')" "out = o1 @ o2"
proof (cases "p s")
  case (Ret x)
  then obtain q o1 s1 where x: "p s = Ret (q, o1, s1)" by (cases x) auto
  then show ?thesis
    using assms stop go by (cases q) (auto simp: ex_bind_Ret run_bind_Ret_iff)
qed (use assms in \<open>auto simp: ex_bind_Ret\<close>)

text \<open>The ends a program may have, by its parts.\<close>

definition ex_ends :: "ex_end set \<Rightarrow> ('s, 'v) prog \<Rightarrow> bool" where
  "ex_ends E p \<longleftrightarrow> (\<forall>s e out s'. p s = Ret (Inl e, out, s') \<longrightarrow> e \<in> E)"

named_theorems ends

lemma ex_endsI: "(\<And>s e out s'. p s = Ret (Inl e, out, s') \<Longrightarrow> e \<in> E) \<Longrightarrow> ex_ends E p"
  by (auto simp: ex_ends_def)

lemma ex_ends_bind [ends]: "ex_ends E p \<Longrightarrow> (\<And>v. ex_ends E (f v)) \<Longrightarrow> ex_ends E (ex_bind p f)"
proof (rule ex_endsI)
  fix s e out s'
  assume "ex_ends E p" and f: "\<And>v. ex_ends E (f v)" and b: "ex_bind p f s = Ret (Inl e, out, s')"
  then have p: "p s = Ret (Inl e', o1, s1) \<Longrightarrow> e' \<in> E" for e' o1 s1 by (auto simp: ex_ends_def)
  have f: "f v s = Ret (Inl e', o1, s1) \<Longrightarrow> e' \<in> E" for v s e' o1 s1 using f [of v] by (auto simp: ex_ends_def)
  show "e \<in> E" using b by (cases rule: ex_bind_cases) (use p f in blast)+
qed

lemma ex_ends_simple [ends]:
  "ex_ends E (ex_ret v)" "ex_ends E (ex_say l)" "ex_ends E (ex_call g)" "ex_ends E (ex_run h)"
  "e \<in> E \<Longrightarrow> ex_ends E (ex_stop e)" "ex_ends E (ex_Recv proto i)" "ex_ends E (ex_Send proto j b)"
  by (auto simp: ex_ends_def ex_ret_def ex_say_def ex_call_def ex_run_def ex_stop_def ex_Recv_def ex_Send_def
      run_bind_Ret_iff split: prod.splits)

lemma ex_ends_ok [ends]: "range (XDie f) \<subseteq> E \<Longrightarrow> ex_ends E p \<Longrightarrow> ex_ends E (ex_ok f p)"
  unfolding ex_ok_def by (intro ends) (auto intro!: ends split: option.splits)

lemma ex_ends_get [ends]: "range (XDie f) \<subseteq> E \<Longrightarrow> ex_ends E p \<Longrightarrow> ex_ends E (ex_get f p)"
  unfolding ex_get_def by (intro ends) (auto intro!: ends split: sum.splits)

lemma ex_ends_loop [ends]: "XMore \<in> E \<Longrightarrow> (\<And>i. ex_ends E (f i)) \<Longrightarrow> ex_ends E (ex_loop f ins)"
  by (induction ins) (auto intro!: ends)

lemma ex_ends_open [ends]: "range (XDie f) \<subseteq> E \<Longrightarrow> ex_ends E (ex_open f conn tn url)"
  unfolding ex_open_def by (intro ends) auto

lemma ex_ends_start: "ex_ends E p \<Longrightarrow> ex_ends E (\<lambda>s. p (g s))"
  by (auto simp: ex_ends_def)

text \<open>An endless loop never comes back.\<close>

lemma ex_loop_endless: "ex_loop f ins s = Ret (r, out, s') \<Longrightarrow> \<exists>e. r = Inl e"
proof (induction ins arbitrary: s out)
  case (Cons i ins)
  then have "ex_bind (f i) (\<lambda>_. ex_loop f ins) s = Ret (r, out, s')" by simp
  then show ?case by (cases rule: ex_bind_cases) (use Cons.IH in blast)+
next
  case Nil
  then have "r = Inl XMore" by (simp add: ex_stop_def)
  then show ?case by blast
qed

text \<open>The programs that keep going: a failed Recv never ends the pair program or the date server.\<close>

lemma pair_goes_on:
  "ex_ends ({XMore} \<union> range (XDie ''failed sending: %s'') \<union> range (XDie ''can't listen on pair socket: %s''))
     (pair_node0 listen tn url ins)"
  unfolding pair_node0_def
  by (rule ex_ends_start)
     (auto intro!: ends simp: sendRecv_def sendRecv_round_def recvName_def sendName_def split: sum.splits)

lemma reqrep_goes_on:
  "ex_ends ({XMore} \<union> range (XDie ''can't send reply: %s'') \<union> range (XDie ''can't listen on rep socket: %s''))
     (reqrep_node0 listen tn url ins)"
  unfolding reqrep_node0_def
  by (rule ex_ends_start) (auto intro!: ends simp: reqrep_node0_round_def)

text \<open>And a survey that is over never ends the surveyor's program.\<close>

lemma survey_goes_on:
  "ex_ends ({XMore} \<union> range (XDie ''Failed sending survey: %s'') \<union> range (XDie ''SetOption(): %s'') \<union>
       range (XDie ''can't listen on surveyor socket: %s'')) (survey_server listen tn url ins)"
proof -
  have "ex_ends E (survey_responses is)" if "XMore \<in> E" for E "is"
    by (induction "is") (use that in \<open>auto intro!: ends split: sum.splits\<close>)
  then show ?thesis
    unfolding survey_server_def
    by (intro ex_ends_start [where g = sv_NewSocket]) (auto intro!: ends simp: survey_server_round_def)
qed

section \<open>What they print\<close>

lemma ex_get_Recv:
  "ex_bind (ex_get f (ex_Recv proto i)) g s =
     run_bind (Recv proto (fst i) (snd i) s) (\<lambda>(r, s1).
       case r of Inl e \<Rightarrow> Ret (Inl (XDie f e), [], s1) | Inr b \<Rightarrow> g b s1)"
proof (cases "Recv proto (fst i) (snd i) s")
  case (Ret x)
  obtain r s1 where x: "x = (r, s1)" by fastforce
  have id: "run_bind y Ret = y" for y :: "'y run" by (cases y) auto
  show ?thesis
    using Ret x by (cases i; cases r) (simp_all add: ex_get_def ex_bind_def ex_Recv_def ex_run_def ex_ret_def ex_stop_def
      id split: prod.split)
qed (cases i; simp add: ex_get_def ex_bind_def ex_Recv_def ex_run_def)+

text \<open>The bodies that consecutive calls of Recv return, up to the first error.\<close>

fun ex_received :: "'a socket_scheme protocol_ops \<Rightarrow> recv_in list \<Rightarrow> 'a socket_scheme \<Rightarrow> bytes list" where
  "ex_received proto [] s = []"
| "ex_received proto (i # is) s =
     (case Recv proto (fst i) (snd i) s of
        Ret (Inr b, s1) \<Rightarrow> b # ex_received proto is s1
      | _ \<Rightarrow> [])"

text \<open>A loop that receives and prints, prints what it received, in order, one line each.\<close>

lemma ex_loop_prints:
  assumes "ex_loop (\<lambda>i. ex_bind (ex_get f (ex_Recv proto i)) (\<lambda>b. ex_say (g b))) ins s = Ret (r, out, s')"
  shows "out = map g (ex_received proto ins s)"
  using assms
proof (induction ins arbitrary: s r out)
  case Nil
  then show ?case by (simp add: ex_stop_def)
next
  case (Cons i ins)
  from Cons.prems have "ex_bind (ex_bind (ex_get f (ex_Recv proto i)) (\<lambda>b. ex_say (g b)))
      (\<lambda>_. ex_loop (\<lambda>i. ex_bind (ex_get f (ex_Recv proto i)) (\<lambda>b. ex_say (g b))) ins) s = Ret (r, out, s')"
    by simp
  then show ?case
  proof (cases rule: ex_bind_cases)
    case (stop e)
    then obtain x where x: "Recv proto (fst i) (snd i) s = Ret x" by (auto simp: ex_get_Recv run_bind_Ret_iff)
    with stop show ?thesis by (cases x; cases "fst x") (simp_all add: ex_get_Recv ex_say_def)
  next
    case (go v o1 s1 o2)
    then obtain x where x: "Recv proto (fst i) (snd i) s = Ret x" by (auto simp: ex_get_Recv run_bind_Ret_iff)
    with go(1) obtain b where "Recv proto (fst i) (snd i) s = Ret (Inr b, s1)" "o1 = [g b]"
      by (cases x; cases "fst x") (auto simp: ex_get_Recv ex_say_def)
    with go(3) Cons.IH [OF go(2)] show ?thesis by simp
  qed
qed

lemma pubsub_client_prints:
  "ex_loop (pubsub_client_round name) ins s = Ret (r, out, s') \<Longrightarrow>
   out = map (\<lambda>b. ''CLIENT('' @ name @ ''): RECEIVED '' @ text_of b) (ex_received sub_ops ins s)"
  unfolding pubsub_client_round_def by (rule ex_loop_prints)

lemma bus_node_prints:
  "ex_loop (bus_node_round name) ins s = Ret (r, out, s') \<Longrightarrow>
   out = map (\<lambda>b. name @ '': RECEIVED '' @ quote (text_of b) @ '' FROM BUS'') (ex_received bus_ops ins s)"
  unfolding bus_node_round_def by (rule ex_loop_prints)

text \<open>
  The receiver of pipeline prints an empty message for every failed receive, and goes on.
\<close>

lemma pipeline_ignores_errors:
  "Recv pull_ops (fst i) (snd i) s = Ret (Inl e, s') \<Longrightarrow>
   pipeline_node0_round i s = Ret (Inr (), [''NODE0: RECEIVED '' @ quote ''''], s')"
  by (cases i) (simp add: pipeline_node0_round_def ex_bind_def ex_Recv_def ex_run_def ex_say_def text_of_def)

text \<open>The client of pubsub subscribes to everything.\<close>

lemma pubsub_subscribes_all:
  "[] \<in> set ts \<Longrightarrow> sub_matched ts b"
  by (auto simp: sub_matched_iff HasPrefix_def intro!: bexI [of _ "[]"])

end
