(* ===== verification/Examples_Net.thy ===== *)
theory Examples_Net
  imports Examples Exchange
begin

text \<open>
  The other demonstration programs of src/examples: raw, whose server shares one raw REP
  socket between workers, and websocket, which serves sockets through an HTTP server.
\<close>

section \<open>raw: the server\<close>

text \<open>
  A worker waits for a request, holds one (its body already replaced by the worker's number),
  or has returned. One step is the call it waits in; the workers' steps interleave.
\<close>

datatype raw_phase = RawRecv | RawSend mref | RawGone

definition serverWorker ::
  "int \<Rightarrow> recv_in \<Rightarrow> send_in \<Rightarrow> raw_phase \<Rightarrow> rep \<Rightarrow> (raw_phase \<times> rep) run" where
  "serverWorker i rin sin p s =
     (case p of
        RawRecv \<Rightarrow>
          run_bind (RecvMsg rep_ops (fst rin) (snd rin) s) (\<lambda>(r, s1).
            case r of
              Inl e \<Rightarrow> Ret (RawGone, s1)
            | Inr m \<Rightarrow> Ret (RawSend m, set_body m (be32 (word_of_int i)) s1))
      | RawSend m \<Rightarrow>
          (case sin of (now, t, pick) \<Rightarrow>
            run_bind (SendMsg rep_ops now t pick m s) (\<lambda>(e, s1).
              Ret (if e = None then RawRecv else RawGone, s1)))
      | RawGone \<Rightarrow> Ret (RawGone, s))"

text \<open>An interleaving: which worker does the next step, and with what.\<close>

fun raw_steps ::
  "(nat \<times> recv_in \<times> send_in) list \<Rightarrow> raw_phase list \<Rightarrow> rep \<Rightarrow> (raw_phase list \<times> rep) run" where
  "raw_steps [] ps s = Ret (ps, s)"
| "raw_steps ((w, rin, sin) # ins) ps s =
     (if w < length ps
      then run_bind (serverWorker (int w) rin sin (ps ! w) s) (\<lambda>(p, s1). raw_steps ins (ps[w := p]) s1)
      else raw_steps ins ps s)"

text \<open>\<^verbatim>\<open>server\<close>: it returns when all its workers have.\<close>

definition raw_server ::
  "(string \<Rightarrow> rep \<Rightarrow> err option \<times> rep) \<Rightarrow> nat \<Rightarrow> string \<Rightarrow> nat \<Rightarrow> (nat \<times> recv_in \<times> send_in) list \<Rightarrow> (rep, unit) prog" where
  "raw_server listen tn url n ins s =
     ex_bind (ex_ok ''can't set raw mode: %s'' (ex_run (sock_SetOption rep_ops OptionRaw (VBool True)))) (\<lambda>_.
     ex_bind (ex_open ''can't listen on rep socket: %s'' listen tn url) (\<lambda>_.
     ex_bind (ex_say (''Starting '' @ dec n @ '' workers'')) (\<lambda>_.
     ex_bind (ex_run (raw_steps ins (replicate n RawRecv))) (\<lambda>ps.
       ex_stop (if \<forall>p \<in> set ps. p = RawGone then XExit else XMore))))) (rep_NewSocket s)"

section \<open>raw: the client\<close>

text \<open>\<^verbatim>\<open>%4d\<close>\<close>

definition pad4 :: "nat \<Rightarrow> string" where
  "pad4 n = replicate (4 - length (dec n)) CHR '' '' @ dec n"

definition raw_report :: "nat \<Rightarrow> bytes \<Rightarrow> (req, unit) prog" where
  "raw_report i b =
     (if length b \<noteq> 4 then ex_stop (XDieNum ''bad response len: %d'' (int (length b)))
      else case be_Uint32 b of
             None \<Rightarrow> (\<lambda>s. Panic)
           | Some w \<Rightarrow> ex_say (''Client: '' @ pad4 i @ ''   Server: '' @ pad4 (unat w)))"

definition clientWorker ::
  "(string \<Rightarrow> req \<Rightarrow> err option \<times> req) \<Rightarrow> (req \<Rightarrow> (err option \<times> req) run) \<Rightarrow> nat \<Rightarrow> u32 \<Rightarrow> string \<Rightarrow> nat \<Rightarrow>
   sending \<Rightarrow> recv_in \<Rightarrow> (req, unit) prog" where
  "clientWorker dial close tn now url i sin rin s =
     (case sin of (fresh, snow, t, pick) \<Rightarrow>
       ex_bind (ex_open ''can't dial on req socket: %s'' dial tn url) (\<lambda>_.
       ex_bind (ex_call (NewMessage fresh 1)) (\<lambda>m.
       ex_bind (ex_ok ''can't send request: %s'' (ex_run (SendMsg (req_ops now) snow t pick m))) (\<lambda>_.
       ex_bind (ex_get ''can't recv reply: %s'' (ex_run (RecvMsg (req_ops now) (fst rin) (snd rin)))) (\<lambda>r.
       ex_bind (ex_run close) (\<lambda>_.
       ex_bind (ex_call (\<lambda>s. (body (msgs s r), s))) (raw_report i))))))) (req_NewSocket now s)"

text \<open>\<^verbatim>\<open>client\<close> starts one worker, with a socket of its own, for each of these numbers.\<close>

definition raw_client_ids :: "int \<Rightarrow> nat list" where
  "raw_client_ids nworkers = [0..<nat nworkers]"

section \<open>raw: the command line\<close>

datatype raw_cmd = RwServer string int | RwClient string int | RwBadCount | RwUsage string

definition raw_count :: "int \<Rightarrow> string list \<Rightarrow> (int \<Rightarrow> raw_cmd) \<Rightarrow> raw_cmd" where
  "raw_count dflt args go =
     (if length args > 3 then
        (case Atoi (args ! 3) of (n, ok) \<Rightarrow> if \<not> ok \<or> n < 1 then RwBadCount else go n)
      else go dflt)"

definition raw_main :: "string list \<Rightarrow> raw_cmd run" where
  "raw_main args =
     (if length args > 2 \<and> args ! 1 = ''server'' then Ret (raw_count 16 args (RwServer (args ! 2)))
      else if length args > 2 \<and> args ! 1 = ''client'' then Ret (raw_count 1 args (RwClient (args ! 2)))
      else case args of [] \<Rightarrow> Panic | a # _ \<Rightarrow> Ret (RwUsage a))"

section \<open>websocket: the clients\<close>

definition ws_url :: "nat \<Rightarrow> string \<Rightarrow> string" where
  "ws_url pn path = ''ws://127.0.0.1:'' @ dec pn @ path"

definition reqClient ::
  "(string \<Rightarrow> req \<Rightarrow> err option \<times> req) \<Rightarrow> nat \<Rightarrow> u32 \<Rightarrow> nat \<Rightarrow> sending \<Rightarrow> recv_in \<Rightarrow> (req, unit) prog" where
  "reqClient dial tn now pn sin rin s =
     ex_bind (ex_call (\<lambda>s. ((), AddTransport ws_Scheme tn s))) (\<lambda>_.
     ex_bind (ex_ok ''cannot dial req url: %v'' (ex_call (dial (ws_url pn ''/req'')))) (\<lambda>_.
     ex_bind (ex_ok ''Cannot send req: %v'' (ex_Send (req_ops now) sin (string_bytes ''Hello''))) (\<lambda>_.
     ex_bind (ex_get ''Cannot recv reply: %v'' (ex_Recv (req_ops now) rin)) (\<lambda>b.
       ex_say (text_of b))))) (req_NewSocket now s)"

definition subClient ::
  "(string \<Rightarrow> sub \<Rightarrow> err option \<times> sub) \<Rightarrow> nat \<Rightarrow> nat \<Rightarrow> recv_in \<Rightarrow> (sub, unit) prog" where
  "subClient dial tn pn rin s =
     ex_bind (ex_call (\<lambda>s. ((), AddTransport ws_Scheme tn s))) (\<lambda>_.
     ex_bind (ex_ok ''cannot set subscription: %v'' (ex_run (sock_SetOption sub_ops OptionSubscribe (VBytes [])))) (\<lambda>_.
     ex_bind (ex_ok ''cannot dial req url: %v'' (ex_call (dial (ws_url pn ''/sub'')))) (\<lambda>_.
     ex_bind (ex_get ''Cannot recv sub: %v'' (ex_Recv sub_ops rin)) (\<lambda>b.
       ex_say (text_of b))))) (sub_NewSocket s)"

text \<open>\<open>get\<close> is \<^verbatim>\<open>http.Get\<close>: an error, or the status code and the body.\<close>

definition staticClient :: "(string \<Rightarrow> err + (int \<times> bytes)) \<Rightarrow> nat \<Rightarrow> ('s, unit) prog" where
  "staticClient get pn =
     (case get (''http://127.0.0.1:'' @ dec pn @ ''/static'') of
        Inl e \<Rightarrow> ex_stop (XDie ''Get failed: %v'' e)
      | Inr (code, b) \<Rightarrow>
          if code \<noteq> 200 then ex_stop (XDieNum ''Status code %d'' code)
          else ex_bind (ex_say (text_of b)) (\<lambda>_. ex_stop XExit))"

section \<open>websocket: the server\<close>

text \<open>What the server's mux holds: the static page, and the handlers that listeners gave out.\<close>

datatype mux_entry = MStatic | MHandler nat

type_synonym mux = "(string \<times> mux_entry) list"

definition staticHandler :: bytes where
  "staticHandler = string_bytes ''STATIC''"

definition addStaticHandler :: "mux \<Rightarrow> mux" where
  "addStaticHandler mx = mx @ [(''/static'', MStatic)]"

text \<open>
  The listener of a socket is made, its handler read and registered, and only then started;
  the error of Listen is ignored. \<open>newl\<close>, \<open>getl\<close> and \<open>listen\<close> are NewListener and the
  listener's GetOption and Listen.
\<close>

definition add_ws_handler ::
  "string \<Rightarrow> string \<Rightarrow> string \<Rightarrow> ('a socket_scheme \<Rightarrow> 'a socket_scheme) \<Rightarrow>
   (string \<Rightarrow> 'a socket_scheme \<Rightarrow> (err + nat) \<times> 'a socket_scheme) \<Rightarrow>
   (nat \<Rightarrow> string \<Rightarrow> 'a socket_scheme \<Rightarrow> (err + goval) \<times> 'a socket_scheme) \<Rightarrow>
   (nat \<Rightarrow> 'a socket_scheme \<Rightarrow> err option \<times> 'a socket_scheme) \<Rightarrow> nat \<Rightarrow> nat \<Rightarrow> mux \<Rightarrow> ('a socket_scheme, mux) prog" where
  "add_ws_handler path badl badh newsock newl getl listen tn pn mx s =
     ex_bind (ex_call (\<lambda>s. ((), AddTransport ws_Scheme tn s))) (\<lambda>_.
     ex_bind (ex_get badl (ex_call (newl (ws_url pn path)))) (\<lambda>l.
     ex_bind (ex_get badh (ex_call (getl l OptionWebSocketHandler))) (\<lambda>h.
       case h of
         VOther n \<Rightarrow> ex_bind (ex_call (listen l)) (\<lambda>_. ex_ret (mx @ [(path, MHandler n)]))
       | _ \<Rightarrow> (\<lambda>s. Panic)))) (newsock s)"

definition addReqHandler ::
  "(string \<Rightarrow> rep \<Rightarrow> (err + nat) \<times> rep) \<Rightarrow> (nat \<Rightarrow> string \<Rightarrow> rep \<Rightarrow> (err + goval) \<times> rep) \<Rightarrow>
   (nat \<Rightarrow> rep \<Rightarrow> err option \<times> rep) \<Rightarrow> nat \<Rightarrow> nat \<Rightarrow> mux \<Rightarrow> (rep, mux) prog" where
  "addReqHandler = add_ws_handler ''/req'' ''bad listener: %v'' ''bad handler: %v'' rep_NewSocket"

definition addSubHandler ::
  "(string \<Rightarrow> pub \<Rightarrow> (err + nat) \<times> pub) \<Rightarrow> (nat \<Rightarrow> string \<Rightarrow> pub \<Rightarrow> (err + goval) \<times> pub) \<Rightarrow>
   (nat \<Rightarrow> pub \<Rightarrow> err option \<times> pub) \<Rightarrow> nat \<Rightarrow> nat \<Rightarrow> mux \<Rightarrow> (pub, mux) prog" where
  "addSubHandler = add_ws_handler ''/sub'' ''bad listener: %v'' ''cannot get handler: %v'' pub_NewSocket"

text \<open>The goroutines behind the handlers; the string of an input is the time.\<close>

primrec reqHandler :: "(string \<times> recv_in \<times> sending) list \<Rightarrow> nat \<Rightarrow> (rep, unit) prog" where
  "reqHandler [] cnt = ex_stop XMore"
| "reqHandler (i # is) cnt =
     (case i of (now, rin, sin) \<Rightarrow>
       ex_bind (ex_get ''Cannot get request: %v'' (ex_Recv rep_ops rin)) (\<lambda>_.
       ex_bind (ex_ok ''Cannot send reply: %v''
           (ex_Send rep_ops sin (string_bytes (''REPLY #'' @ dec cnt @ '' '' @ now)))) (\<lambda>_.
         reqHandler is (Suc cnt))))"

primrec subHandler :: "(string \<times> sending) list \<Rightarrow> nat \<Rightarrow> (pub, unit) prog" where
  "subHandler [] cnt = ex_stop XMore"
| "subHandler (i # is) cnt =
     (case i of (now, sin) \<Rightarrow>
       ex_bind (ex_ok ''Cannot send pub: %v''
           (ex_Send pub_ops sin (string_bytes (''PUB #'' @ dec cnt @ '' '' @ now)))) (\<lambda>_.
         subHandler is (Suc cnt)))"

text \<open>\<^verbatim>\<open>server\<close> up to its call of \<^verbatim>\<open>http.ListenAndServe\<close>, with the mux it serves.\<close>

definition ws_server ::
  "(mux \<Rightarrow> (pub, mux) prog) \<Rightarrow> (mux \<Rightarrow> (rep, mux) prog) \<Rightarrow> pub \<times> rep \<Rightarrow> ((ex_end + mux) \<times> pub \<times> rep) run" where
  "ws_server f g ss =
     run_bind (f (addStaticHandler []) (fst ss)) (\<lambda>(r, _, p).
       case r of
         Inl e \<Rightarrow> Ret (Inl e, p, snd ss)
       | Inr mx \<Rightarrow> run_bind (g mx (snd ss)) (\<lambda>(r2, _, q). Ret (r2, p, q)))"

datatype ws_cmd = WcServer nat | WcReq nat | WcSub nat | WcStatic nat | WcUsage string | WcBadPort

definition ws_main :: "string list \<Rightarrow> ws_cmd run" where
  "ws_main args =
     (case args of
        [] \<Rightarrow> Panic
      | [a, cmd, p] \<Rightarrow>
         (case Atoi p of (pn, ok) \<Rightarrow>
            Ret (if \<not> ok \<or> pn < 0 \<or> pn > 65535 then WcBadPort
                 else case map_of [(''server'', WcServer), (''req'', WcReq), (''sub'', WcSub), (''static'', WcStatic)] cmd of
                        Some f \<Rightarrow> f (nat pn)
                      | None \<Rightarrow> WcUsage a))
      | a # _ \<Rightarrow> Ret (WcUsage a))"

section \<open>Facts about raw\<close>

text \<open>
  A request at the raw server, from its arrival over endpoint \<open>ep\<close> to the reply in the queue
  of the peer it came from; worker \<open>i\<close> takes it and answers.
\<close>

definition raw_serve :: "rep \<Rightarrow> pref \<Rightarrow> int \<Rightarrow> bytes \<Rightarrow> bytes option" where
  "raw_serve s ep i b =
     (let (r, s1) = arrive b s
      in case rep_receiver UUp (urq s1) ep (Some r) s1 of
           Ret (Loop, s2) \<Rightarrow>
             (case serverWorker i (0, [(0, RMsg)]) (0, 0, SSend) RawRecv s2 of
                Ret (RawSend m, s3) \<Rightarrow>
                  (case serverWorker i (0, [(0, RMsg)]) (0, 0, SSend) (RawSend m) s3 of
                     Ret (RawRecv, s4) \<Rightarrow>
                       (case (rep_sender TMsg (SendChannel s4) s4, rep_eps s (GetID s ep)) of
                          (Ret (_, s5), Some pe) \<Rightarrow>
                            if cbuf (chans s5 (re_q pe)) = cbuf (chans s (re_q pe)) @ [m]
                            then Some (wire (msgs s5 m)) else None
                        | _ \<Rightarrow> None)
                   | _ \<Rightarrow> None)
              | _ \<Rightarrow> None)
         | _ \<Rightarrow> None)"

definition raw_ready :: "rep \<Rightarrow> pref \<Rightarrow> bool" where
  "raw_ready s ep \<longleftrightarrow> rep_raw s \<and> recverr s = None \<and> senderr s = None \<and> rq_open s \<and> uwq_open s \<and> \<not> bestEffort s \<and>
     (case rep_eps s (GetID s ep) of None \<Rightarrow> False
      | Some pe \<Rightarrow> \<not> cclosed (chans s (re_q pe)) \<and> chan_room (chans s (re_q pe)) \<and>
          re_q pe \<noteq> uwq s \<and> re_q pe \<noteq> urq s)"

text \<open>
  The worker sends the message it received, so the path of the request is still in front of
  its reply.
\<close>

lemma raw_serve_ready:
  assumes "raw_ready s ep" "\<forall>i \<in> set ids. \<not> hibit i" "hibit v" "int (length ids) < rep_ttl s"
  shows "raw_serve s ep i (path_bytes ids @ be32 v @ p) = Some (path_bytes ids @ be32 v @ be32 (word_of_int i))"
proof -
  let ?path = "path_bytes ids @ be32 v" and ?r = "nextm s"
  define s1 where "s1 = s\<lparr>msgs := (msgs s)(?r := fresh_msg (?path @ p)), nextm := Suc ?r\<rparr>"
  define s2 where "s2 = push_on (urq s1) ?r (s1\<lparr>msgs := (msgs s1)(?r := (msgs s1 ?r)\<lparr>
      hdr := Some (be32 (GetID s1 ep) @ path_bytes ids @ be32 v), body := p\<rparr>)\<rparr>)"
  define s3 where "s3 = set_body ?r (be32 (word_of_int i)) (pop_on (urq s) s2)"
  note defs = s1_def s2_def s3_def push_on_def pop_on_def set_body_def upd_msg_def
  note op = assms(1) [unfolded raw_ready_def rq_open_def uwq_open_def]
  obtain pe where pe: "rep_eps s (GetID s ep) = Some pe" "\<not> cclosed (chans s (re_q pe))"
      "chan_room (chans s (re_q pe))" "re_q pe \<noteq> uwq s" "re_q pe \<noteq> urq s"
    using op by (auto split: option.splits)
  have arr: "arrive (?path @ p) s = (?r, s1)" by (simp add: arrive_def alloc_msg_def defs)
  have rcv: "rep_receiver UUp (urq s1) ep (Some ?r) s1 = Ret (Loop, s2)"
    unfolding s2_def using assms op by (intro rep_receiver_path) (simp_all add: s1_def)
  have "RecvMsg rep_ops 0 [(0, RMsg)] s2 = Ret (Inr ?r, pop_on (urq s) s2)"
    using op by (intro RecvMsg_takes [where hook = rep_RecvHook and rs = "[]"])
      (simp_all add: defs rep_ops_def rep_RecvHook_def)
  then have w1: "serverWorker i (0, [(0, RMsg)]) (0, 0, SSend) RawRecv s2 = Ret (RawSend ?r, s3)"
    by (simp add: serverWorker_def s3_def)
  define s4 where "s4 = push_on (uwq s) ?r (upd_msg ?r (\<lambda>x. x\<lparr>expire :=
      (if wdeadline s3 \<noteq> 0 then Some (0 + wdeadline s3) else None)\<rparr>) s3)"
  have "SendMsg rep_ops 0 0 SSend ?r s3 = Ret (None, s4)"
  proof -
    have u: "uwq s3 = uwq s" by (simp add: defs)
    show ?thesis
      unfolding s4_def u [symmetric] using op
      by (intro SendMsg_pushes [where hook = rep_SendHook]) (simp_all add: defs rep_ops_def rep_SendHook_def)
  qed
  then have w2: "serverWorker i (0, [(0, RMsg)]) (0, 0, SSend) (RawSend ?r) s3 = Ret (RawRecv, s4)"
    by (simp add: serverWorker_def)
  have top: "top_recv TMsg (SendChannel s4) s4 = Ret (TopMsg ?r (pop_on (uwq s) s4))"
    using op by (simp add: top_recv_def go_select_pick sock_eff chan_cases s4_def defs)
  have h4: "hdr (msgs (pop_on (uwq s) s4) ?r) = Some (be32 (GetID s ep) @ ?path)"
    "rep_eps (pop_on (uwq s) s4) (GetID s ep) = Some pe"
    "chans (pop_on (uwq s) s4) (re_q pe) = chans s (re_q pe)"
    "body (msgs (pop_on (uwq s) s4) ?r) = be32 (word_of_int i)"
    using pe by (simp_all add: s4_def defs GetID_def)
  from rep_route_known [OF h4(1,2)] pe h4 obtain s5 where s5: "rep_route ?r (pop_on (uwq s) s4) = Ret s5"
    "cbuf (chans s5 (re_q pe)) = cbuf (chans s (re_q pe)) @ [?r]"
    "wire (msgs s5 ?r) = ?path @ be32 (word_of_int i)"
    by (auto simp: push_on_def wire_def hdr_bytes_def Let_def)
  have "rep_sender TMsg (SendChannel s4) s4 = Ret ((Loop, SendChannel s4), s5)"
    using top s5(1) by (simp add: rep_sender_def sender_loop_def)
  with arr rcv w1 w2 pe(1) s5(2,3) show ?thesis by (simp add: raw_serve_def)
qed

text \<open>A cooked client, any devices, and worker \<open>i\<close> of the raw server.\<close>

definition raw_exchange :: "u32 \<Rightarrow> req \<Rightarrow> device list \<Rightarrow> rep \<Rightarrow> pref \<Rightarrow> int \<Rightarrow> bytes \<Rightarrow> bytes option" where
  "raw_exchange now c ds s ep i p =
     (case req_ask now c p of
        None \<Rightarrow> None
      | Some (w, c2) \<Rightarrow>
          Option.bind (relay_request ds w) (\<lambda>w1.
            Option.bind (raw_serve s ep i w1) (\<lambda>w2.
              Option.bind (relay_reply (rev ds) w2) (req_answer now c2))))"

lemma raw_exchange_answers:
  assumes "client_ready c" "\<forall>d \<in> set ds. dv_ready d" "within_ttl 0 ds"
    and "raw_ready s ep" "int (length ds) < rep_ttl s"
  shows "raw_exchange now c ds s ep i p = Some (be32 (word_of_int i))"
proof -
  obtain c2 where ask: "req_ask now c p = Some (be32 (req_reqid c2) @ p, c2)" and c2: "hibit (req_reqid c2)"
      "req_reqmsg c2 \<noteq> None" "\<not> req_raw c2" "recverr c2 = None" "rq_open c2" "cbuf (chans c2 (urq c2)) = []"
    using req_ask_ready [OF assms(1)] by blast
  let ?ids = "rev (map dv_id ds)" and ?v = "req_reqid c2" and ?a = "be32 (word_of_int i)"
  have ids: "\<forall>i \<in> set ?ids. \<not> hibit i" using assms(2) by (auto simp: dv_ready_def)
  have "relay_request ds (be32 ?v @ p) = Some (path_bytes ?ids @ be32 ?v @ p)"
    using relay_request_path [of ds "[]" ?v p] assms(2,3) c2(1) by simp
  moreover have "raw_serve s ep i (path_bytes ?ids @ be32 ?v @ p) = Some (path_bytes ?ids @ be32 ?v @ ?a)"
    using assms(4,5) ids c2(1) by (intro raw_serve_ready) simp_all
  moreover have "relay_reply (rev ds) (path_bytes ?ids @ be32 ?v @ ?a) = Some (be32 ?v @ ?a)"
    using relay_reply_path [of "rev ds" "be32 ?v @ ?a"] assms(2) by (simp add: rev_map)
  moreover have "req_answer now c2 (be32 ?v @ ?a) = Some ?a" using c2 by (intro req_answer_ready)
  ultimately show ?thesis by (simp add: raw_exchange_def ask)
qed

text \<open>The client prints the number of the worker, cut to 32 bits.\<close>

lemma raw_report_answer:
  "raw_report k (be32 w) s = Ret (Inr (), [''Client: '' @ pad4 k @ ''   Server: '' @ pad4 (unat w)], s)"
  using be_Uint32_be32 [of w "[]"] by (simp add: raw_report_def ex_say_def)

lemma unat_worker: "0 \<le> i \<Longrightarrow> i < 2 ^ 32 \<Longrightarrow> unat (word_of_int i :: u32) = nat i"
  by (simp add: unat_eq_nat_uint uint_word_of_int take_bit_eq_mod)

text \<open>Setting the option makes a fresh socket fit for the workers.\<close>

definition raw_socket :: "rep run" where
  "raw_socket = run_bind (sock_SetOption rep_ops OptionRaw (VBool True) (rep_NewSocket zero_rep)) (\<lambda>(_, s).
     Ret (rep_AddEndpoint 0 s))"

lemma raw_socket_ready: "\<exists>s. raw_socket = Ret s \<and> raw_ready s 0 \<and> rep_ttl s = 8"
  by (simp add: raw_socket_def sock_SetOption_def rep_SetOption_def option_name sock_eff rep_AddEndpoint_def
      raw_ready_def rq_open_def uwq_open_def GetID_def rep_fresh)

text \<open>No command line starts a program without workers.\<close>

lemma raw_main_workers:
  "raw_main args = Ret (RwServer url n) \<or> raw_main args = Ret (RwClient url n) \<Longrightarrow> 1 \<le> n"
  by (auto simp: raw_main_def raw_count_def split: if_splits prod.splits list.splits)

section \<open>Facts about websocket\<close>

lemma ws_main_port:
  "ws_main args = Ret (WcServer n) \<or> ws_main args = Ret (WcReq n) \<or> ws_main args = Ret (WcSub n) \<or>
   ws_main args = Ret (WcStatic n) \<Longrightarrow> n \<le> 65535"
  by (auto simp: ws_main_def split: list.splits prod.splits if_splits option.splits)

text \<open>A server that came up serves three different paths.\<close>

lemma add_ws_handler_mux:
  "add_ws_handler path badl badh newsock newl getl listen tn pn mx s = Ret (Inr mx', out, s') \<Longrightarrow>
   \<exists>n. mx' = mx @ [(path, MHandler n)] \<and> out = []"
  by (auto simp: add_ws_handler_def ex_call_def ex_get_def ex_ret_def ex_stop_def elim!: ex_bind_cases
      split: goval.splits sum.splits prod.splits)

lemma ws_server_paths:
  assumes "ws_server (addSubHandler nl1 gl1 li1 tn pn) (addReqHandler nl2 gl2 li2 tn pn) ss = Ret (Inr mx, ss')"
  shows "map fst mx = [''/static'', ''/sub'', ''/req'']"
proof -
  from assms obtain r o1 p where a: "addSubHandler nl1 gl1 li1 tn pn (addStaticHandler []) (fst ss) = Ret (r, o1, p)"
    by (auto simp: ws_server_def run_bind_Ret_iff)
  with assms obtain mx1 where r: "r = Inr mx1" by (cases r) (auto simp: ws_server_def)
  with a assms obtain o2 q where b: "addReqHandler nl2 gl2 li2 tn pn mx1 (snd ss) = Ret (Inr mx, o2, q)"
    by (auto simp: ws_server_def run_bind_Ret_iff)
  from add_ws_handler_mux [OF a [unfolded r addSubHandler_def]] add_ws_handler_mux [OF b [unfolded addReqHandler_def]]
  show ?thesis by (auto simp: addStaticHandler_def)
qed

end
