(* ===== verification/Spec2Isabelle.thy ===== *)
theory Spec2Isabelle
  imports Safety Delivery Broadcast Socket_Laws Wire_Laws Perf Examples_Net
begin

text \<open>
  A model of mangos, the Go implementation of the scalability protocols (SP): sockets that
  exchange messages in the patterns request/reply, publish/subscribe, survey, push/pull,
  pair, bus and star, over TCP, TLS, websockets, UNIX sockets, Windows named pipes and an
  in-process transport.

  \<^bold>\<open>How the program works.\<close> A socket (core.go) holds two queues, for messages to send
  (\<open>uwq\<close>) and messages received (\<open>urq\<close>), and a protocol. Dialers and listeners make
  connections; each becomes a pipe with an identifier of 31 bits and is given to the protocol
  as an endpoint. The protocol runs goroutines that move messages between the two queues,
  queues of its own for each peer, and the endpoints; its hooks see every message the
  application sends and receives. A device forwards messages between two raw sockets.

  \<^bold>\<open>The theories\<close>, each with the file under src/ it models:
  \<^item> Mangos_Prelude: errors.go, options.go, encoding/binary, Go's select, outcomes of code
    (\<open>Ret\<close>, \<open>Block\<close>, \<open>Panic\<close>), sequences of events; Chan: Go's channels, with the FIFO
    interface \<open>fifo\<close>; Go_Heap: the heap of messages, channels and pipes that Go references
    point to; Message: message.go, with its cache; Waiter: waiter.go and util.go.
  \<^item> Protocol: protocol.go, the method table of a protocol as a record of operations; Sock:
    the socket's state and the view protocols have of it; PeerQ: tables of peers with a queue
    each (interface \<open>peer_table\<close>); Pipe: the pipes of core.go; Core: sending, receiving,
    options, closing (interface \<open>protocol_impl\<close> for what the core needs of a protocol's
    options); Backtrace: the path in a message's header; Peer_Sys: a socket with all its
    goroutines as a system of events (interface \<open>peer_sys\<close>); Refs: who holds which message,
    against the reference counts; App_Sys: the calls of the application on any socket
    (interfaces \<open>sock_app\<close> and, with the goroutines, \<open>sock_sys\<close>); Core_Sys: the core's
    connections, closes and shutdown (interface \<open>core_sys\<close>); Mem_Sys: a whole socket with a
    queue for each peer, its application, transports, options and close (interface \<open>mem_sys\<close>,
    which extends \<open>peer_sys\<close> and is a \<open>sock_app\<close> and a \<open>core_sys\<close>).
  \<^item> Rep, Req, Pub, Sub, Surveyor, Respondent, Bus, Star: protocol/*/*.go; Direct, Push, Pull,
    Pair: the protocols whose peers share the socket's queue; Line_Sys, Line_Sockets: the whole
    sockets of push, pull, pair and sub (interfaces \<open>line_sys\<close> and \<open>recv_sys\<close>, which are
    \<open>core_sys\<close> and \<open>sock_sys\<close>); Req_Sys: the whole req socket; Pair_Link: two connected pairs.
  \<^item> Conn: conn.go, connipc_posix.go (frames and the handshake); Dial: dialers and listeners of
    core.go, transport.go; Device: device.go; Tran_Opts, Tran_Net: transport/tcp, tlstcp and
    ipc_unix.go (interface \<open>opts_impl\<close> for tables of options); Ipc_Windows:
    connipc_windows.go, ipc_windows.go; Ws: transport/ws; All_Transports: transport/wss and
    transport/all; Inproc: transport/inproc; Compat, Compat_Sockets: compat/compat.go;
    Macat_Format, Macat: the command macat/macat.go; Perf: the measuring programs under perf;
    Examples, Examples_Net: the programs under examples, as computations that print lines.
  \<^item> Relay, Exchange: requests and replies across devices; Fresh_Sockets: the zero values and
    fresh sockets; Safety, Delivery, Broadcast, Socket_Laws, Wire_Laws: the properties.

  \<^bold>\<open>How code becomes a definition.\<close> A struct is a record and the protocol's state extends the
  socket's, so every operation takes and returns one state that contains the heap.
  Messages, channels, pipes and dialers are references into it, so aliasing and reference
  counts are explicit. A piece of code that can panic or wait returns a \<open>run\<close>. A goroutine is
  the function for one round of its loop; a wait inside a loop is a step that is not enabled.
  What the code leaves to the run-time is a parameter: which ready arm a select takes, in
  which order a map is iterated, which message a pool returns, what the clock shows, what
  the network and the transport answer. The properties hold for all of them.

  \<^bold>\<open>What is shown.\<close>
  \<^item> Safety (C1 to C13): under every interleaving of its goroutines with its application, its
    transports and the core no socket of ten of the eleven protocols ever sends on or closes a
    closed channel, and no message is recycled while it is queued or held; a respondent socket
    can panic, between two steps of its sender, and is as safe as the others without that
    window; an outstanding request always gets sent again; a pair keeps its first peer; what
    one of two connected pairs sends the other receives, in order.
  \<^item> Delivery (C14 to C18): a request finds its way through devices and the reply its way back,
    within hop limits; replies and answers are accepted only for the current request or
    survey, for \<open>2 ^ 31\<close> requests; retries resend the same message.
  \<^item> Broadcast (C19 to C25): whom a message reaches, and how often; who releases it;
    subscriptions are a set.
  \<^item> Socket laws (C26 to C31): fresh identifiers, fresh messages, options read back what was
    set, how sends end, what closing wakes, when devices start.
  \<^item> Wire laws (C32 to C40): frames and handshakes round trip and check what they read, which
    protocols peer, the redial time, the in-process transport, the compatibility layer, the
    life of a websocket listener, what macat prints.
  \<^item> Programs (lemmas of Perf, Examples and Examples_Net): how each program can end, what it
    prints of what it received; through any devices the client of the raw example learns the
    number of the worker that answered it.

  \<^bold>\<open>Bounds and fuel.\<close> No definition runs on fuel: the loop over a header is a recursion on the
  length of the body, the search for an identifier is a \<open>partial_function\<close> shown to end, and a
  loop that waits reads what it sees at each wake-up from a list, \<open>None\<close> or \<open>Block\<close> meaning
  that it still waits. Identifiers, sizes and protocol numbers are words of their width;
  durations are integers, with the wrap-around written out where they are multiplied
  (\<open>next_rtime\<close>, the interval of macat). Go's \<^verbatim>\<open>int\<close> is an integer without bounds, except for the
  counters of the programs under perf, which wrap at 64 bits.

  \<^bold>\<open>Not modelled.\<close> The helpers of the tests, which are no part of the library; what the
  measuring programs print of times and rates, and the sleeps of all programs. Packages net, net/http, crypto/tls, winio and the
  websocket library are parameters: what their calls return. Locks do not appear: a critical section is
  one step, and where the code leaves it between a look-up and a use the two are two steps
  (Respondent). The waits inside Shutdown and Close (drain, linger) only wait and are left
  out of them; DrainChannel and the waiter are modelled on their own. The two sockets of a
  device have a heap each, and a forwarded message is a copy. \<^verbatim>\<open>append\<close> into the spare
  capacity of a shared slice is not distinguished from a copy.
\<close>

section \<open>Request/reply end to end\<close>



end
